(* ===== verification/TDB_Prelude.thy ===== *)
theory TDB_Prelude
  imports Complex_Main "HOL-Library.Sublist"
begin

text \<open>
  What the theories of the development share: the JavaScript data the driver is written over
  (numbers, insertion-ordered maps, decimal printing, substring tests), the state-and-exception
  functions its \<open>async\<close> methods become, and the generic lemmas about them.

  A JavaScript string is a \<^typ>\<open>string\<close>; an \<open>async\<close> method that reads or changes a state of
  type \<open>'s\<close> is a function \<open>'s \<Rightarrow> ('e + 'a) \<times> 's\<close>, \<open>Inl\<close> for the rejection of its promise.
\<close>

named_theorems jmap_simps \<open>lookups and keys of insertion-ordered maps\<close>
named_theorems io_simps \<open>unfolding of the state-and-exception combinators\<close>

section \<open>Numbers\<close>

text \<open>
  A JavaScript \<open>number\<close>. Comparison follows IEEE 754: every comparison with NaN is false. The
  sign of zero is not modelled (no code of the driver observes it).
\<close>

datatype js_number = NaN | PosInfinity | NegInfinity | Num rat

fun num_less :: "js_number \<Rightarrow> js_number \<Rightarrow> bool" where
  "num_less NaN _ = False"
| "num_less _ NaN = False"
| "num_less (Num a) (Num b) = (a < b)"
| "num_less NegInfinity NegInfinity = False"
| "num_less NegInfinity _ = True"
| "num_less PosInfinity _ = False"
| "num_less _ PosInfinity = True"
| "num_less _ _ = False"

fun num_eq :: "js_number \<Rightarrow> js_number \<Rightarrow> bool" where
  "num_eq NaN _ = False"
| "num_eq x y = (x = y)"

section \<open>Decimal printing\<close>

fun digit_char :: "nat \<Rightarrow> char" where
  "digit_char n = char_of (48 + n)"

fun string_of_nat :: "nat \<Rightarrow> string" where
  "string_of_nat n =
     (if n < 10 then [digit_char n] else string_of_nat (n div 10) @ [digit_char (n mod 10)])"

declare string_of_nat.simps [simp del]

definition string_of_int :: "int \<Rightarrow> string" where
  "string_of_int i = (if i < 0 then ''-'' @ string_of_nat (nat (- i)) else string_of_nat (nat i))"

section \<open>Substring tests\<close>

fun str_starts_with :: "string \<Rightarrow> string \<Rightarrow> bool" where
  "str_starts_with s [] = True"
| "str_starts_with [] (p # ps) = False"
| "str_starts_with (c # cs) (p # ps) = (c = p \<and> str_starts_with cs ps)"

fun str_includes :: "string \<Rightarrow> string \<Rightarrow> bool" where
  "str_includes [] p = (p = [])"
| "str_includes (c # cs) p = (str_starts_with (c # cs) p \<or> str_includes cs p)"

section \<open>Insertion-ordered maps\<close>

text \<open>
  A JavaScript \<open>Map\<close>, or an object used as a dictionary, is an association list in insertion
  order: \<open>set\<close> on a present key keeps its place, on a new one appends.
\<close>

type_synonym ('k, 'v) jmap = "('k \<times> 'v) list"

fun jmap_set :: "'k \<Rightarrow> 'v \<Rightarrow> ('k, 'v) jmap \<Rightarrow> ('k, 'v) jmap" where
  "jmap_set k v [] = [(k, v)]"
| "jmap_set k v ((k', v') # m) = (if k = k' then (k, v) # m else (k', v') # jmap_set k v m)"

fun jmap_delete :: "'k \<Rightarrow> ('k, 'v) jmap \<Rightarrow> ('k, 'v) jmap" where
  "jmap_delete k m = filter (\<lambda>(k', _). k' \<noteq> k) m"

abbreviation jmap_get :: "('k, 'v) jmap \<Rightarrow> 'k \<Rightarrow> 'v option" where
  "jmap_get m k \<equiv> map_of m k"

abbreviation jmap_keys :: "('k, 'v) jmap \<Rightarrow> 'k list" where
  "jmap_keys m \<equiv> map fst m"

abbreviation jmap_values :: "('k, 'v) jmap \<Rightarrow> 'v list" where
  "jmap_values m \<equiv> map snd m"

text \<open>\<open>add\<close> of a JavaScript \<open>Set\<close>, a list in insertion order.\<close>

definition set_add :: "'a \<Rightarrow> 'a list \<Rightarrow> 'a list" where
  "set_add x xs = (if x \<in> set xs then xs else xs @ [x])"

definition jmap_wf :: "('k, 'v) jmap \<Rightarrow> bool" where
  "jmap_wf m \<longleftrightarrow> distinct (jmap_keys m)"

definition jmap_of_entries :: "('k \<times> 'v) list \<Rightarrow> ('k, 'v) jmap" where
  "jmap_of_entries es = fold (\<lambda>(k, v) m. jmap_set k v m) es []"

section \<open>State and exceptions\<close>

type_synonym ('s, 'e, 'a) io = "'s \<Rightarrow> ('e + 'a) \<times> 's"

definition io_return :: "'a \<Rightarrow> ('s, 'e, 'a) io" where
  "io_return x s = (Inr x, s)"

definition io_throw :: "'e \<Rightarrow> ('s, 'e, 'a) io" where
  "io_throw e s = (Inl e, s)"

definition io_bind :: "('s, 'e, 'a) io \<Rightarrow> ('a \<Rightarrow> ('s, 'e, 'b) io) \<Rightarrow> ('s, 'e, 'b) io" where
  "io_bind m f s = (case m s of (Inl e, s') \<Rightarrow> (Inl e, s') | (Inr x, s') \<Rightarrow> f x s')"

definition io_catch :: "('s, 'e, 'a) io \<Rightarrow> ('e \<Rightarrow> ('s, 'e, 'a) io) \<Rightarrow> ('s, 'e, 'a) io" where
  "io_catch m h s = (case m s of (Inl e, s') \<Rightarrow> h e s' | (Inr x, s') \<Rightarrow> (Inr x, s'))"

definition io_update :: "('s \<Rightarrow> 's) \<Rightarrow> ('s, 'e, unit) io" where
  "io_update f s = (Inr (), f s)"

definition io_gets :: "('s \<Rightarrow> 'a) \<Rightarrow> ('s, 'e, 'a) io" where
  "io_gets f s = (Inr (f s), s)"

definition io_lift :: "'e + 'a \<Rightarrow> ('s, 'e, 'a) io" where
  "io_lift r s = (r, s)"

text \<open>Synchronous code that may throw, without a state.\<close>

definition res_bind :: "'e + 'a \<Rightarrow> ('a \<Rightarrow> 'e + 'b) \<Rightarrow> 'e + 'b" where
  "res_bind r f = (case r of Inl e \<Rightarrow> Inl e | Inr x \<Rightarrow> f x)"

lemma res_bind_simps [simp]:
  "res_bind (Inl e) f = Inl e"
  "res_bind (Inr x) f = f x"
  by (simp_all add: res_bind_def)

section \<open>Mapping a function that may throw\<close>

text \<open>
  \<open>array.map(f)\<close> where \<open>f\<close> may throw: the elements are converted in order and the first
  exception ends the call.
\<close>

fun map_throw :: "('a \<Rightarrow> 'e + 'b) \<Rightarrow> 'a list \<Rightarrow> 'e + 'b list" where
  "map_throw f [] = Inr []"
| "map_throw f (x # xs) =
     (case f x of
        Inl e \<Rightarrow> Inl e
      | Inr y \<Rightarrow> (case map_throw f xs of Inl e \<Rightarrow> Inl e | Inr ys \<Rightarrow> Inr (y # ys)))"

section \<open>Lemmas\<close>

lemmas io_defs [io_simps] =
  io_return_def io_throw_def io_bind_def io_catch_def io_update_def io_gets_def io_lift_def

lemma set_add_simps [simp]:
  "set (set_add x xs) = insert x (set xs)" "distinct (set_add x xs) \<longleftrightarrow> distinct xs"
  by (auto simp: set_add_def)

lemma jmap_get_set [jmap_simps, simp]: "jmap_get (jmap_set k v m) = (jmap_get m)(k \<mapsto> v)"
  by (induction m) (auto simp: fun_eq_iff)

lemma jmap_get_delete [jmap_simps, simp]: "jmap_get (jmap_delete k m) = (jmap_get m)(k := None)"
  by (induction m) (auto simp: fun_eq_iff)

lemma jmap_set_keys [jmap_simps]:
  "jmap_keys (jmap_set k v m) = (if k \<in> set (jmap_keys m) then jmap_keys m else jmap_keys m @ [k])"
  by (induction m) (auto, metis fst_conv image_eqI)

lemma set_jmap_set: "set (jmap_set k v m) \<subseteq> insert (k, v) (set m)"
  by (induction m) (auto split: if_splits)

lemma jmap_values_set: "set (jmap_values (jmap_set k v m)) \<subseteq> insert v (set (jmap_values m))"
  using set_jmap_set [of k v m] by fastforce

lemma jmap_wf_set [jmap_simps, intro]: "jmap_wf m \<Longrightarrow> jmap_wf (jmap_set k v m)"
  by (auto simp: jmap_wf_def jmap_set_keys)

lemma jmap_wf_delete [jmap_simps, intro]: "jmap_wf m \<Longrightarrow> jmap_wf (jmap_delete k m)"
  by (induction m) (auto simp: jmap_wf_def)

lemma jmap_wf_empty [jmap_simps, simp, intro]: "jmap_wf []"
  by (simp add: jmap_wf_def)

lemma jmap_of_entries_fold:
  "jmap_get (fold (\<lambda>(k, v) m. jmap_set k v m) es m0) = jmap_get m0 ++ map_of (rev es)"
  by (induction es arbitrary: m0) (auto simp: map_add_def fun_eq_iff split: option.splits)

lemma jmap_get_of_entries [jmap_simps]: "jmap_get (jmap_of_entries es) = map_of (rev es)"
  by (simp add: jmap_of_entries_def jmap_of_entries_fold)

lemma res_bind_cong [fundef_cong]:
  "r = r' \<Longrightarrow> (\<And>x. r' = Inr x \<Longrightarrow> f x = g x) \<Longrightarrow> res_bind r f = res_bind r' g"
  by (cases r') simp_all

lemma map_throw_cong [fundef_cong]:
  "xs = ys \<Longrightarrow> (\<And>x. x \<in> set ys \<Longrightarrow> f x = g x) \<Longrightarrow> map_throw f xs = map_throw g ys"
proof (induction ys arbitrary: xs)
  case (Cons y ys)
  then show ?case by (simp split: sum.split)
qed simp

lemma map_throw_Inr_iff:
  "map_throw f xs = Inr ys \<longleftrightarrow> list_all2 (\<lambda>x y. f x = Inr y) xs ys"
proof (induction xs arbitrary: ys)
  case Nil
  then show ?case by auto
next
  case (Cons x xs)
  show ?case
    using Cons.IH [of "tl ys"] by (cases "f x"; cases "map_throw f xs"; cases ys; simp)
qed

lemma map_throw_total:
  assumes "\<And>x. x \<in> set xs \<Longrightarrow> f x = Inr (g x)"
  shows "map_throw f xs = Inr (map g xs)"
  using assms by (induction xs) auto

lemma map_throw_Inl:
  assumes "map_throw f xs = Inl e"
  shows "\<exists>ys x zs. xs = ys @ x # zs \<and> f x = Inl e \<and> (\<forall>y \<in> set ys. \<exists>z. f y = Inr z)"
  using assms
proof (induction xs)
  case Nil
  then show ?case by simp
next
  case (Cons x xs)
  show ?case
  proof (cases "f x")
    case (Inl e')
    with Cons.prems show ?thesis by (intro exI [of _ "[]"]) auto
  next
    case (Inr y)
    with Cons.prems have "map_throw f xs = Inl e" by (auto split: sum.splits)
    with Cons.IH obtain ys x' zs where
      "xs = ys @ x' # zs" "f x' = Inl e" "\<forall>y \<in> set ys. \<exists>z. f y = Inr z" by blast
    with Inr show ?thesis by (intro exI [of _ "x # ys"]) auto
  qed
qed

lemma digit_char_inj: "m < 10 \<Longrightarrow> n < 10 \<Longrightarrow> digit_char m = digit_char n \<Longrightarrow> m = n"
  by (simp add: char_of_eq_iff take_bit_eq_mod)

lemma string_of_nat_nonempty [simp]: "string_of_nat n \<noteq> []"
  by (subst string_of_nat.simps) simp

lemma string_of_nat_nonempty' [simp]: "[] \<noteq> string_of_nat n"
  using string_of_nat_nonempty [of n] by metis

lemma string_of_nat_small: "n < 10 \<Longrightarrow> string_of_nat n = [digit_char n]"
  by (simp add: string_of_nat.simps)

lemma string_of_nat_large:
  "\<not> n < 10 \<Longrightarrow> string_of_nat n = string_of_nat (n div 10) @ [digit_char (n mod 10)]"
  by (simp add: string_of_nat.simps [of n])

lemma string_of_nat_inj: "string_of_nat m = string_of_nat n \<Longrightarrow> m = n"
proof (induction m arbitrary: n rule: string_of_nat.induct)
  case (1 m)
  note small = string_of_nat_small and large = string_of_nat_large
  consider "m < 10" "n < 10" | "m < 10" "\<not> n < 10" | "\<not> m < 10" "n < 10" | "\<not> m < 10" "\<not> n < 10"
    by blast
  then show ?case
  proof cases
    case 1
    then show ?thesis
      using "1.prems" digit_char_inj [OF 1] unfolding small [OF 1(1)] small [OF 1(2)] by blast
  next
    case 2
    then show ?thesis using "1.prems" unfolding small [OF 2(1)] large [OF 2(2)] by simp
  next
    case 3
    then show ?thesis using "1.prems" unfolding large [OF 3(1)] small [OF 3(2)] by simp
  next
    case 4
    then have eq: "string_of_nat (m div 10) = string_of_nat (n div 10)"
      and "digit_char (m mod 10) = digit_char (n mod 10)"
      using "1.prems" unfolding large [OF 4(1)] large [OF 4(2)] by (blast dest: append1_eq_conv [THEN iffD1])+
    then have "m mod 10 = n mod 10" using digit_char_inj [of "m mod 10" "n mod 10"] by simp
    moreover have "m div 10 = n div 10" by (rule "1.IH" [OF 4(1) eq])
    ultimately show ?thesis by (metis div_mult_mod_eq)
  qed
qed

lemma str_starts_with_iff: "str_starts_with s p \<longleftrightarrow> prefix p s"
  by (induction s p rule: str_starts_with.induct) auto

lemma str_includes_iff: "str_includes s p \<longleftrightarrow> sublist p s"
  by (induction s p rule: str_includes.induct)
     (auto simp: str_starts_with_iff sublist_Cons_right)

end
