(* ===== verification/Error_Messages.thy ===== *)
theory Error_Messages
  imports TDB_Prelude
begin

text \<open>
  The error templates of \<open>common/errors/ErrorMessage.ts\<close> and the exception class of
  \<open>common/errors/TypeDBDriverError.ts\<close>.

  Each exported constant of the namespaces \<open>Driver\<close>, \<open>Concept\<close>, \<open>Query\<close> and \<open>Internal\<close> is a
  constructor of \<open>error_message\<close> (the code compares templates by reference, so each is its own
  value). The static fields of the class are the record \<open>registry\<close>, which the constructor
  updates once for each constant when the module is loaded. A value thrown by the driver is a
  \<open>thrown\<close>: a \<open>TypeDBDriverError\<close> with its optional template and its message, the
  \<open>ServiceError\<close> of the gRPC library as it was delivered, or another JavaScript error.
\<close>

section \<open>Templates\<close>

datatype error_message =
    RPC_METHOD_UNAVAILABLE
  | DRIVER_NOT_OPEN
  | SESSION_ID_EXISTS
  | SESSION_CLOSED
  | TRANSACTION_CLOSED
  | TRANSACTION_CLOSED_WITH_ERRORS
  | UNABLE_TO_CONNECT
  | NEGATIVE_VALUE_NOT_ALLOWED
  | MISSING_DB_NAME
  | DATABASE_DOES_NOT_EXIST
  | UNKNOWN_STREAM_STATE
  | MISSING_RESPONSE
  | UNKNOWN_REQUEST_ID
  | CLOUD_NO_PRIMARY_REPLICA_YET
  | CLOUD_UNABLE_TO_CONNECT
  | CLOUD_REPLICA_NOT_PRIMARY
  | CLOUD_ALL_NODES_FAILED
  | USER_MANAGEMENT_CLOUD_ONLY
  | CLOUD_USER_DOES_NOT_EXIST
  | CLOUD_TOKEN_CREDENTIAL_INVALID
  | CLOUD_INVALID_ROOT_CA_PATH
  | UNRECOGNISED_SESSION_TYPE
  | MISSING_PORT
  | ADDRESS_TRANSLATION_MISMATCH
  | INVALID_CONCEPT_CASTING
  | MISSING_TRANSACTION
  | MISSING_IID
  | MISSING_LABEL
  | BAD_ENCODING
  | BAD_VALUE_TYPE
  | BAD_ANNOTATION
  | BAD_ATTRIBUTE_VALUE
  | VALUE_HAS_NO_REMOTE
  | VARIABLE_DOES_NOT_EXIST
  | NONEXISTENT_EXPLAINABLE_CONCEPT
  | NONEXISTENT_EXPLAINABLE_OWNERSHIP
  | BAD_ANSWER_TYPE
  | MISSING_ANSWER
  | ILLEGAL_CAST
  | ILLEGAL_ARGUMENT
  | ILLEGAL_STATE

datatype error_class = DriverError_class | ConceptError_class | QueryError_class | InternalError_class

definition newline :: string where
  "newline = [CHR 0x0A]"

definition quote :: string where
  "quote = [CHR 0x27]"

text \<open>\<open>args[i]\<close> inside a template literal: an argument that was not passed prints as \<open>undefined\<close>.\<close>

definition arg :: "string list \<Rightarrow> nat \<Rightarrow> string" where
  "arg args i = (if i < length args then args ! i else ''undefined'')"

fun codePrefix_of_class :: "error_class \<Rightarrow> string" where
  "codePrefix_of_class DriverError_class = ''NDR''"
| "codePrefix_of_class ConceptError_class = ''NCO''"
| "codePrefix_of_class QueryError_class = ''NQR''"
| "codePrefix_of_class InternalError_class = ''NIN''"

fun messagePrefix_of_class :: "error_class \<Rightarrow> string" where
  "messagePrefix_of_class DriverError_class = ''Driver Error''"
| "messagePrefix_of_class ConceptError_class = ''Concept Error''"
| "messagePrefix_of_class QueryError_class = ''Query Error''"
| "messagePrefix_of_class InternalError_class = ''Internal Error''"

fun errorClass :: "error_message \<Rightarrow> error_class" where
  "errorClass RPC_METHOD_UNAVAILABLE = DriverError_class"
| "errorClass DRIVER_NOT_OPEN = DriverError_class"
| "errorClass SESSION_ID_EXISTS = DriverError_class"
| "errorClass SESSION_CLOSED = DriverError_class"
| "errorClass TRANSACTION_CLOSED = DriverError_class"
| "errorClass TRANSACTION_CLOSED_WITH_ERRORS = DriverError_class"
| "errorClass UNABLE_TO_CONNECT = DriverError_class"
| "errorClass NEGATIVE_VALUE_NOT_ALLOWED = DriverError_class"
| "errorClass MISSING_DB_NAME = DriverError_class"
| "errorClass DATABASE_DOES_NOT_EXIST = DriverError_class"
| "errorClass UNKNOWN_STREAM_STATE = DriverError_class"
| "errorClass MISSING_RESPONSE = DriverError_class"
| "errorClass UNKNOWN_REQUEST_ID = DriverError_class"
| "errorClass CLOUD_NO_PRIMARY_REPLICA_YET = DriverError_class"
| "errorClass CLOUD_UNABLE_TO_CONNECT = DriverError_class"
| "errorClass CLOUD_REPLICA_NOT_PRIMARY = DriverError_class"
| "errorClass CLOUD_ALL_NODES_FAILED = DriverError_class"
| "errorClass USER_MANAGEMENT_CLOUD_ONLY = DriverError_class"
| "errorClass CLOUD_USER_DOES_NOT_EXIST = DriverError_class"
| "errorClass CLOUD_TOKEN_CREDENTIAL_INVALID = DriverError_class"
| "errorClass CLOUD_INVALID_ROOT_CA_PATH = DriverError_class"
| "errorClass UNRECOGNISED_SESSION_TYPE = DriverError_class"
| "errorClass MISSING_PORT = DriverError_class"
| "errorClass ADDRESS_TRANSLATION_MISMATCH = DriverError_class"
| "errorClass INVALID_CONCEPT_CASTING = ConceptError_class"
| "errorClass MISSING_TRANSACTION = ConceptError_class"
| "errorClass MISSING_IID = ConceptError_class"
| "errorClass MISSING_LABEL = ConceptError_class"
| "errorClass BAD_ENCODING = ConceptError_class"
| "errorClass BAD_VALUE_TYPE = ConceptError_class"
| "errorClass BAD_ANNOTATION = ConceptError_class"
| "errorClass BAD_ATTRIBUTE_VALUE = ConceptError_class"
| "errorClass VALUE_HAS_NO_REMOTE = ConceptError_class"
| "errorClass VARIABLE_DOES_NOT_EXIST = QueryError_class"
| "errorClass NONEXISTENT_EXPLAINABLE_CONCEPT = QueryError_class"
| "errorClass NONEXISTENT_EXPLAINABLE_OWNERSHIP = QueryError_class"
| "errorClass BAD_ANSWER_TYPE = QueryError_class"
| "errorClass MISSING_ANSWER = QueryError_class"
| "errorClass ILLEGAL_CAST = InternalError_class"
| "errorClass ILLEGAL_ARGUMENT = InternalError_class"
| "errorClass ILLEGAL_STATE = InternalError_class"

fun codeNumber :: "error_message \<Rightarrow> nat" where
  "codeNumber RPC_METHOD_UNAVAILABLE = 1"
| "codeNumber DRIVER_NOT_OPEN = 2"
| "codeNumber SESSION_ID_EXISTS = 3"
| "codeNumber SESSION_CLOSED = 4"
| "codeNumber TRANSACTION_CLOSED = 5"
| "codeNumber TRANSACTION_CLOSED_WITH_ERRORS = 6"
| "codeNumber UNABLE_TO_CONNECT = 7"
| "codeNumber NEGATIVE_VALUE_NOT_ALLOWED = 8"
| "codeNumber MISSING_DB_NAME = 9"
| "codeNumber DATABASE_DOES_NOT_EXIST = 10"
| "codeNumber UNKNOWN_STREAM_STATE = 11"
| "codeNumber MISSING_RESPONSE = 12"
| "codeNumber UNKNOWN_REQUEST_ID = 13"
| "codeNumber CLOUD_NO_PRIMARY_REPLICA_YET = 14"
| "codeNumber CLOUD_UNABLE_TO_CONNECT = 15"
| "codeNumber CLOUD_REPLICA_NOT_PRIMARY = 16"
| "codeNumber CLOUD_ALL_NODES_FAILED = 17"
| "codeNumber USER_MANAGEMENT_CLOUD_ONLY = 18"
| "codeNumber CLOUD_USER_DOES_NOT_EXIST = 19"
| "codeNumber CLOUD_TOKEN_CREDENTIAL_INVALID = 20"
| "codeNumber CLOUD_INVALID_ROOT_CA_PATH = 21"
| "codeNumber UNRECOGNISED_SESSION_TYPE = 22"
| "codeNumber MISSING_PORT = 23"
| "codeNumber ADDRESS_TRANSLATION_MISMATCH = 24"
| "codeNumber INVALID_CONCEPT_CASTING = 1"
| "codeNumber MISSING_TRANSACTION = 2"
| "codeNumber MISSING_IID = 3"
| "codeNumber MISSING_LABEL = 4"
| "codeNumber BAD_ENCODING = 5"
| "codeNumber BAD_VALUE_TYPE = 6"
| "codeNumber BAD_ANNOTATION = 7"
| "codeNumber BAD_ATTRIBUTE_VALUE = 8"
| "codeNumber VALUE_HAS_NO_REMOTE = 9"
| "codeNumber VARIABLE_DOES_NOT_EXIST = 1"
| "codeNumber NONEXISTENT_EXPLAINABLE_CONCEPT = 2"
| "codeNumber NONEXISTENT_EXPLAINABLE_OWNERSHIP = 3"
| "codeNumber BAD_ANSWER_TYPE = 4"
| "codeNumber MISSING_ANSWER = 5"
| "codeNumber ILLEGAL_CAST = 1"
| "codeNumber ILLEGAL_ARGUMENT = 2"
| "codeNumber ILLEGAL_STATE = 3"

fun messageBody :: "error_message \<Rightarrow> string list \<Rightarrow> string" where
  "messageBody RPC_METHOD_UNAVAILABLE args =
     ''The server does not support this method. Please ensure that the TypeDB Driver and TypeDB Server versions are compatible:'' @
     newline @ quote @ arg args 0 @ quote @ ''.''"
| "messageBody DRIVER_NOT_OPEN args =
     ''The driver is not open.''"
| "messageBody SESSION_ID_EXISTS args =
     ''The newly opened session id '' @ quote @ arg args 0 @ quote @ '' already exists''"
| "messageBody SESSION_CLOSED args =
     ''Session is closed.''"
| "messageBody TRANSACTION_CLOSED args =
     ''The transaction has been closed and no further operation is allowed.''"
| "messageBody TRANSACTION_CLOSED_WITH_ERRORS args =
     ''The transaction has been closed with error(s): '' @ newline @ arg args 0 @ ''.''"
| "messageBody UNABLE_TO_CONNECT args =
     ''Unable to connect to TypeDB server.''"
| "messageBody NEGATIVE_VALUE_NOT_ALLOWED args =
     ''Value cannot be less than 1, was: '' @ quote @ arg args 0 @ quote @ ''.''"
| "messageBody MISSING_DB_NAME args =
     ''Database name cannot be null.''"
| "messageBody DATABASE_DOES_NOT_EXIST args =
     ''The database '' @ quote @ arg args 0 @ quote @ '' does not exist.''"
| "messageBody UNKNOWN_STREAM_STATE args =
     ''RPC transaction stream response '' @ quote @ arg args 0 @ quote @
     '' is unknown.''"
| "messageBody MISSING_RESPONSE args =
     ''The required field '' @ quote @ ''res'' @ quote @ '' of type '' @ quote @
     arg args 0 @ quote @ '' was not set.''"
| "messageBody UNKNOWN_REQUEST_ID args =
     ''Received a response with unknown request id '' @ quote @ arg args 0 @ quote @
     ''.''"
| "messageBody CLOUD_NO_PRIMARY_REPLICA_YET args =
     ''No replica has been marked as the primary replica for latest known term '' @
     quote @ arg args 0 @ quote @ ''.''"
| "messageBody CLOUD_UNABLE_TO_CONNECT args =
     ''Unable to connect to TypeDB Cloud. Attempted connecting to the cloud nodes, but none are available: '' @
     quote @ arg args 1 @ quote @ ''.''"
| "messageBody CLOUD_REPLICA_NOT_PRIMARY args =
     ''The replica is not the primary replica.''"
| "messageBody CLOUD_ALL_NODES_FAILED args =
     ''Attempted connecting to all cloud nodes, but the following errors occurred: '' @
     newline @ quote @ arg args 0 @ quote"
| "messageBody USER_MANAGEMENT_CLOUD_ONLY args =
     ''User management is only available in TypeDB Cloud servers.''"
| "messageBody CLOUD_USER_DOES_NOT_EXIST args =
     ''The user '' @ quote @ arg args 0 @ quote @ '' does not exist.''"
| "messageBody CLOUD_TOKEN_CREDENTIAL_INVALID args =
     ''Invalid token credential.''"
| "messageBody CLOUD_INVALID_ROOT_CA_PATH args =
     ''The provided Root CA path '' @ quote @ arg args 0 @ quote @ '' does not exist''"
| "messageBody UNRECOGNISED_SESSION_TYPE args =
     ''Session type '' @ quote @ arg args 1 @ quote @ '' was not recognised.''"
| "messageBody MISSING_PORT args =
     ''Invalid URL '' @ quote @ arg args 1 @ quote @ '': missing port.''"
| "messageBody ADDRESS_TRANSLATION_MISMATCH args =
     ''Address translation map does not match the server'' @ quote @
     ''s advertised address list. User-provided servers not in the advertised list: {'' @
     arg args 0 @ ''}. Advertised servers not mapped by user: {'' @ arg args 1 @ ''}.''"
| "messageBody INVALID_CONCEPT_CASTING args =
     ''Invalid concept conversion from '' @ quote @ arg args 0 @ quote @ '' to '' @
     quote @ arg args 1 @ quote @ ''.''"
| "messageBody MISSING_TRANSACTION args =
     ''Transaction cannot be null.''"
| "messageBody MISSING_IID args =
     ''IID cannot be null or empty.''"
| "messageBody MISSING_LABEL args =
     ''Label cannot be null or empty.''"
| "messageBody BAD_ENCODING args =
     ''The encoding '' @ quote @ arg args 0 @ quote @ '' was not recognised.''"
| "messageBody BAD_VALUE_TYPE args =
     ''The value type '' @ quote @ arg args 0 @ quote @ '' was not recognised.''"
| "messageBody BAD_ANNOTATION args =
     ''The annotation '' @ quote @ arg args 0 @ quote @ '' was not recognised.''"
| "messageBody BAD_ATTRIBUTE_VALUE args =
     ''The attribute value '' @ quote @ arg args 0 @ quote @ '' was not recognised.''"
| "messageBody VALUE_HAS_NO_REMOTE args =
     ''A '' @ quote @ ''value'' @ quote @ '' has no remote concept.''"
| "messageBody VARIABLE_DOES_NOT_EXIST args =
     ''The variable '' @ quote @ arg args 0 @ quote @ '' does not exist.''"
| "messageBody NONEXISTENT_EXPLAINABLE_CONCEPT args =
     ''The concept identified by '' @ quote @ arg args 0 @ quote @
     '' is not explainable.''"
| "messageBody NONEXISTENT_EXPLAINABLE_OWNERSHIP args =
     ''The ownership by owner '' @ quote @ arg args 0 @ quote @ ''of attribute '' @
     quote @ arg args 1 @ quote @ '' is not explainable.''"
| "messageBody BAD_ANSWER_TYPE args =
     ''The answer type '' @ quote @ arg args 0 @ quote @ '' was not recognised.''"
| "messageBody MISSING_ANSWER args =
     ''The required field '' @ quote @ ''answer'' @ quote @ '' of type '' @ quote @
     arg args 0 @ quote @ '' was not set.''"
| "messageBody ILLEGAL_CAST args =
     ''Illegal casting operation from '' @ quote @ arg args 0 @ quote @ '' to '' @
     quote @ arg args 1 @ quote @ ''.''"
| "messageBody ILLEGAL_ARGUMENT args =
     ''Illegal argument provided: '' @ quote @ arg args 0 @ quote"
| "messageBody ILLEGAL_STATE args =
     ''Illegal state.''"

definition declared_messages :: "error_message list" where
  "declared_messages = [
     RPC_METHOD_UNAVAILABLE, DRIVER_NOT_OPEN, SESSION_ID_EXISTS, SESSION_CLOSED,
     TRANSACTION_CLOSED, TRANSACTION_CLOSED_WITH_ERRORS, UNABLE_TO_CONNECT,
     NEGATIVE_VALUE_NOT_ALLOWED, MISSING_DB_NAME, DATABASE_DOES_NOT_EXIST,
     UNKNOWN_STREAM_STATE, MISSING_RESPONSE, UNKNOWN_REQUEST_ID,
     CLOUD_NO_PRIMARY_REPLICA_YET, CLOUD_UNABLE_TO_CONNECT, CLOUD_REPLICA_NOT_PRIMARY,
     CLOUD_ALL_NODES_FAILED, USER_MANAGEMENT_CLOUD_ONLY, CLOUD_USER_DOES_NOT_EXIST,
     CLOUD_TOKEN_CREDENTIAL_INVALID, CLOUD_INVALID_ROOT_CA_PATH, UNRECOGNISED_SESSION_TYPE,
     MISSING_PORT, ADDRESS_TRANSLATION_MISMATCH, INVALID_CONCEPT_CASTING,
     MISSING_TRANSACTION, MISSING_IID, MISSING_LABEL, BAD_ENCODING, BAD_VALUE_TYPE,
     BAD_ANNOTATION, BAD_ATTRIBUTE_VALUE, VALUE_HAS_NO_REMOTE, VARIABLE_DOES_NOT_EXIST,
     NONEXISTENT_EXPLAINABLE_CONCEPT, NONEXISTENT_EXPLAINABLE_OWNERSHIP, BAD_ANSWER_TYPE,
     MISSING_ANSWER, ILLEGAL_CAST, ILLEGAL_ARGUMENT, ILLEGAL_STATE]"

definition codePrefix :: "error_message \<Rightarrow> string" where
  "codePrefix t = codePrefix_of_class (errorClass t)"

definition messagePrefix :: "error_message \<Rightarrow> string" where
  "messagePrefix t = messagePrefix_of_class (errorClass t)"

section \<open>The registry and the error code\<close>

record registry =
  knownErrors :: "(string, (nat, error_message) jmap) jmap"
  maxCodeNumber :: nat
  maxCodeDigits :: "nat option"

definition initial_registry :: registry where
  "initial_registry = \<lparr>knownErrors = [], maxCodeNumber = 0, maxCodeDigits = None\<rparr>"

text \<open>The constructor: what it does to the static fields.\<close>

definition register :: "error_message \<Rightarrow> registry \<Rightarrow> registry" where
  "register t r =
     (let known = (if jmap_get (knownErrors r) (codePrefix t) = None
                   then jmap_set (codePrefix t) [] (knownErrors r) else knownErrors r);
          inner = (case jmap_get known (codePrefix t) of Some m \<Rightarrow> m | None \<Rightarrow> []);
          maxNumber = max (maxCodeNumber r) (codeNumber t)
      in r\<lparr>knownErrors := jmap_set (codePrefix t) (jmap_set (codeNumber t) t inner) known,
            maxCodeNumber := maxNumber,
            maxCodeDigits := Some (length (string_of_nat maxNumber))\<rparr>)"

definition loaded_registry :: registry where
  "loaded_registry = fold register declared_messages initial_registry"

text \<open>The loop of \<open>code()\<close>: one zero for each \<open>length\<close> from the start value up to the digits.\<close>

function pad_zeros :: "nat \<Rightarrow> nat \<Rightarrow> string" where
  "pad_zeros len digits = (if len < digits then CHR ''0'' # pad_zeros (Suc len) digits else [])"
  by pat_completeness auto
termination
  by (relation "measure (\<lambda>(len, digits). digits - len)") auto

declare pad_zeros.simps [simp del]

text \<open>
  \<open>code()\<close>, with the field \<open>_code\<close> as an option. The loop starts at the length of
  \<open>String(this._code)\<close>, and in that branch \<open>_code\<close> is undefined.
\<close>

definition errorCode :: "registry \<Rightarrow> string option \<Rightarrow> error_message \<Rightarrow> string" where
  "errorCode r cached t =
     (case cached of
        Some c \<Rightarrow> c
      | None \<Rightarrow>
          (let zeros = (case maxCodeDigits r of
                          None \<Rightarrow> []
                        | Some digits \<Rightarrow> pad_zeros (length ''undefined'') digits)
           in codePrefix t @ zeros @ string_of_nat (codeNumber t)))"

definition code :: "error_message \<Rightarrow> string" where
  "code t = errorCode loaded_registry None t"

definition message :: "error_message \<Rightarrow> string list \<Rightarrow> string" where
  "message t args = ''['' @ code t @ ''] '' @ messagePrefix t @ '': '' @ messageBody t args"

definition message_toString :: "error_message \<Rightarrow> string" where
  "message_toString t = ''['' @ code t @ ''] '' @ messagePrefix t @ '': '' @ messageBody t []"

section \<open>Thrown values\<close>

text \<open>The status codes of the gRPC library, by name.\<close>

datatype grpc_status =
    STATUS_OK | CANCELLED | UNKNOWN | INVALID_ARGUMENT | DEADLINE_EXCEEDED | NOT_FOUND
  | ALREADY_EXISTS | PERMISSION_DENIED | RESOURCE_EXHAUSTED | FAILED_PRECONDITION | ABORTED
  | OUT_OF_RANGE | UNIMPLEMENTED | INTERNAL | UNAVAILABLE | DATA_LOSS | UNAUTHENTICATED

record service_error =
  se_code :: grpc_status
  se_details :: string
  se_message :: string

text \<open>
  \<open>NativeError\<close> carries the name, the message and the \<open>code\<close> property, if any, of an error of the
  JavaScript runtime.
\<close>

datatype thrown =
    DriverError "error_message option" string
  | GrpcError service_error
  | NativeError string string "string option"

fun error_name :: "thrown \<Rightarrow> string" where
  "error_name (DriverError _ _) = ''TypeDBDriverError''"
| "error_name (GrpcError _) = ''Error''"
| "error_name (NativeError name _ _) = name"

fun error_text :: "thrown \<Rightarrow> string" where
  "error_text (DriverError _ msg) = msg"
| "error_text (GrpcError e) = se_message e"
| "error_text (NativeError _ msg _) = msg"

text \<open>\<open>Error.prototype.toString\<close>.\<close>

definition error_toString :: "thrown \<Rightarrow> string" where
  "error_toString e =
     (if error_name e = [] then error_text e
      else if error_text e = [] then error_name e
      else error_name e @ '': '' @ error_text e)"

fun error_status :: "thrown \<Rightarrow> grpc_status option" where
  "error_status (GrpcError e) = Some (se_code e)"
| "error_status _ = None"

fun error_details :: "thrown \<Rightarrow> string" where
  "error_details (GrpcError e) = se_details e"
| "error_details _ = ''undefined''"

fun isServiceError :: "thrown \<Rightarrow> bool" where
  "isServiceError (DriverError _ _) = False"
| "isServiceError (GrpcError _) = True"
| "isServiceError (NativeError _ _ c) = (c \<noteq> None)"

definition isReplicaNotPrimaryError :: "thrown \<Rightarrow> bool" where
  "isReplicaNotPrimaryError e \<longleftrightarrow> str_includes (error_text e) ''[RPL01]''"

definition isTokenCredentialInvalidError :: "thrown \<Rightarrow> bool" where
  "isTokenCredentialInvalidError e \<longleftrightarrow>
     str_includes (error_text e) ''[CLS08]'' \<or> str_includes (error_text e) ''[ENT08]''"

datatype error_arg = ArgString string | ArgMessage error_message | ArgError thrown

text \<open>The constructor of \<open>TypeDBDriverError\<close>.\<close>

fun typedb_driver_error :: "error_arg \<Rightarrow> thrown" where
  "typedb_driver_error (ArgString s) = DriverError None s"
| "typedb_driver_error (ArgMessage t) = DriverError (Some t) (message_toString t)"
| "typedb_driver_error (ArgError e) =
     (if isServiceError e then
        (if error_status e = Some UNIMPLEMENTED then
           DriverError (Some RPC_METHOD_UNAVAILABLE) (message RPC_METHOD_UNAVAILABLE [error_details e])
         else if error_status e \<in> {Some UNAVAILABLE, Some UNKNOWN, Some CANCELLED} \<or>
                 str_includes (error_text e) ''Received RST_STREAM'' then
           DriverError (Some UNABLE_TO_CONNECT) (message UNABLE_TO_CONNECT [])
         else if isReplicaNotPrimaryError e then
           DriverError (Some CLOUD_REPLICA_NOT_PRIMARY) (message CLOUD_REPLICA_NOT_PRIMARY [])
         else if isTokenCredentialInvalidError e then
           DriverError (Some CLOUD_TOKEN_CREDENTIAL_INVALID) (message CLOUD_TOKEN_CREDENTIAL_INVALID [])
         else if error_status e = Some INTERNAL then DriverError None (error_details e)
         else DriverError None (error_toString e))
      else DriverError None (error_toString e))"

fun messageTemplate :: "thrown \<Rightarrow> error_message option" where
  "messageTemplate (DriverError t _) = t"
| "messageTemplate _ = None"

fun is_driver_error :: "thrown \<Rightarrow> bool" where
  "is_driver_error (DriverError _ _) = True"
| "is_driver_error _ = False"

text \<open>
  \<open>e instanceof TypeDBDriverError && T === e.messageTemplate\<close>, the test every retry of the driver
  makes, and the two ways the driver throws a template: by value, or through its printed message.
\<close>

definition has_template :: "error_message \<Rightarrow> thrown \<Rightarrow> bool" where
  "has_template t e \<longleftrightarrow> is_driver_error e \<and> messageTemplate e = Some t"

abbreviation throw_template :: "error_message \<Rightarrow> thrown" where
  "throw_template t \<equiv> typedb_driver_error (ArgMessage t)"

abbreviation throw_message :: "error_message \<Rightarrow> string list \<Rightarrow> thrown" where
  "throw_message t args \<equiv> typedb_driver_error (ArgString (message t args))"

text \<open>The runtime error of reading a property of \<open>undefined\<close> or \<open>null\<close>.\<close>

definition type_error :: "string \<Rightarrow> thrown" where
  "type_error property =
     NativeError ''TypeError'' (''Cannot read properties of undefined (reading '' @ quote @ property @ quote @ '')'') None"

section \<open>Lemmas\<close>

lemma declared_messages_all: "t \<in> set declared_messages"
  by (cases t) (simp_all add: declared_messages_def)

lemma declared_keys_distinct: "distinct (map (\<lambda>t. (errorClass t, codeNumber t)) declared_messages)"
  by code_simp

lemma template_key_inj: "errorClass t = errorClass u \<Longrightarrow> codeNumber t = codeNumber u \<Longrightarrow> t = u"
  using declared_keys_distinct declared_messages_all [of t] declared_messages_all [of u]
  unfolding distinct_map inj_on_def by blast

lemma codePrefix_of_class_inj: "codePrefix_of_class c = codePrefix_of_class d \<Longrightarrow> c = d"
  by (cases c; cases d) simp_all

lemma codePrefix_length: "length (codePrefix t) = 3"
  by (cases "errorClass t") (simp_all add: codePrefix_def)

text \<open>What the registry knows, as a function of prefix and number.\<close>

definition known :: "registry \<Rightarrow> string \<Rightarrow> nat \<Rightarrow> error_message option" where
  "known r p n = (case jmap_get (knownErrors r) p of None \<Rightarrow> None | Some m \<Rightarrow> jmap_get m n)"

lemma known_register:
  "known (register t r) p n =
     (if p = codePrefix t \<and> n = codeNumber t then Some t else known r p n)"
  by (cases "jmap_get (knownErrors r) (codePrefix t)") (auto simp: known_def register_def Let_def)

lemma known_fold:
  "known (fold register ts r) p n =
     (case find (\<lambda>t. codePrefix t = p \<and> codeNumber t = n) (rev ts) of
        Some t \<Rightarrow> Some t | None \<Rightarrow> known r p n)"
proof (induction ts rule: rev_induct)
  case Nil
  then show ?case by simp
next
  case (snoc t ts)
  then show ?case by (auto simp: known_register)
qed

lemma template_of_key:
  assumes "codePrefix t = codePrefix u" "codeNumber t = codeNumber u"
  shows "t = u"
  using assms codePrefix_of_class_inj template_key_inj by (metis codePrefix_def)

lemma max_register: "maxCodeNumber (register t r) = max (maxCodeNumber r) (codeNumber t)"
  by (simp add: register_def Let_def)

lemma digits_register:
  "maxCodeDigits (register t r) = Some (length (string_of_nat (maxCodeNumber (register t r))))"
  by (simp add: register_def Let_def)

lemma digits_fold:
  "ts \<noteq> [] \<Longrightarrow>
     maxCodeDigits (fold register ts r) = Some (length (string_of_nat (maxCodeNumber (fold register ts r))))"
  by (induction ts rule: rev_induct) (simp_all add: digits_register)

lemma loaded_max: "maxCodeNumber loaded_registry = 24"
  by (simp add: loaded_registry_def initial_registry_def declared_messages_def max_register)

lemma loaded_digits: "maxCodeDigits loaded_registry = Some 2"
proof -
  have "declared_messages \<noteq> []" by (simp add: declared_messages_def)
  then have "maxCodeDigits loaded_registry = Some (length (string_of_nat 24))"
    using digits_fold [of declared_messages initial_registry] loaded_max
    by (simp add: loaded_registry_def)
  also have "length (string_of_nat 24) = 2"
    by (simp add: string_of_nat.simps)
  finally show ?thesis .
qed

lemma pad_zeros_none: "digits \<le> len \<Longrightarrow> pad_zeros len digits = []"
  by (simp add: pad_zeros.simps)

lemma code_closed_form: "code t = codePrefix t @ string_of_nat (codeNumber t)"
  by (simp add: code_def errorCode_def loaded_digits pad_zeros_none)

lemma typedb_driver_error_is_driver_error [simp]: "is_driver_error (typedb_driver_error a)"
  by (cases a) simp_all

lemma has_template_throw_template [simp]: "has_template t (throw_template u) \<longleftrightarrow> t = u"
  by (auto simp: has_template_def)

lemma has_template_throw_message [simp]: "\<not> has_template t (throw_message u args)"
  by (simp add: has_template_def)

lemma has_template_GrpcError [simp]: "\<not> has_template t (GrpcError e)"
  by (simp add: has_template_def)

lemma has_template_NativeError [simp]: "\<not> has_template t (NativeError n m c)"
  by (simp add: has_template_def)

lemma has_template_unique: "has_template t e \<Longrightarrow> has_template u e \<Longrightarrow> t = u"
  by (simp add: has_template_def)

section \<open>Properties\<close>

text \<open>
  Every error code identifies its template: two different templates never print the same
  code, and after the module is loaded the registry holds each template under its prefix and its
  number (no constant overwrites another).
\<close>

lemma error_codes_unique:
  "(code t = code u \<longleftrightarrow> t = u) \<and>
   (\<exists>m. jmap_get (knownErrors loaded_registry) (codePrefix t) = Some m \<and>
        jmap_get m (codeNumber t) = Some t)"
proof
  have "t = u" if "code t = code u"
  proof (rule template_of_key)
    from that have "codePrefix t @ string_of_nat (codeNumber t) = codePrefix u @ string_of_nat (codeNumber u)"
      by (simp add: code_closed_form)
    then show "codePrefix t = codePrefix u" "codeNumber t = codeNumber u"
      using codePrefix_length [of t] codePrefix_length [of u] string_of_nat_inj by auto
  qed
  then show "code t = code u \<longleftrightarrow> t = u" by blast
next
  have "known loaded_registry (codePrefix t) (codeNumber t) = Some t"
  proof (cases "find (\<lambda>u. codePrefix u = codePrefix t \<and> codeNumber u = codeNumber t) (rev declared_messages)")
    case None
    then show ?thesis using declared_messages_all [of t] by (auto simp: find_None_iff)
  next
    case (Some u)
    then have "codePrefix u = codePrefix t \<and> codeNumber u = codeNumber t"
      by (auto simp: find_Some_iff)
    with Some show ?thesis
      by (auto simp: loaded_registry_def known_fold dest: template_of_key)
  qed
  then show "\<exists>m. jmap_get (knownErrors loaded_registry) (codePrefix t) = Some m \<and>
        jmap_get m (codeNumber t) = Some t"
    by (auto simp: known_def split: option.splits)
qed

text \<open>
  The padding loop of \<open>code()\<close> never adds a zero: it starts from the nine characters of
  \<open>undefined\<close>, so the code is the prefix followed by the bare number, although the registry knows
  that the numbers have up to two digits.
\<close>

lemma error_code_never_padded:
  "code t = codePrefix t @ string_of_nat (codeNumber t) \<and> maxCodeDigits loaded_registry = Some 2"
  by (simp add: code_closed_form loaded_digits)

text \<open>
  How a gRPC error becomes a driver error: the template is decided by the status code and the
  markers in the message, in this order, and every other service error carries no template.
\<close>

lemma service_error_classification:
  "messageTemplate (typedb_driver_error (ArgError (GrpcError e))) =
     (if se_code e = UNIMPLEMENTED then Some RPC_METHOD_UNAVAILABLE
      else if se_code e \<in> {UNAVAILABLE, UNKNOWN, CANCELLED} \<or>
              sublist ''Received RST_STREAM'' (se_message e) then Some UNABLE_TO_CONNECT
      else if sublist ''[RPL01]'' (se_message e) then Some CLOUD_REPLICA_NOT_PRIMARY
      else if sublist ''[CLS08]'' (se_message e) \<or> sublist ''[ENT08]'' (se_message e)
           then Some CLOUD_TOKEN_CREDENTIAL_INVALID
      else None)"
  by (simp add: isReplicaNotPrimaryError_def isTokenCredentialInvalidError_def str_includes_iff)

end
