(* ===== verification/Labels_Bytes.thy ===== *)
theory Labels_Bytes
  imports Error_Messages "HOL-Library.Word"
begin

text \<open>
  The type labels of \<open>common/Label.ts\<close> and the hexadecimal identifiers of
  \<open>common/util/Bytes.ts\<close>, with the part of Node's \<open>Buffer\<close> the latter uses.

  A label is a record of an optional scope (\<open>null\<close> is \<open>None\<close>) and a name. A \<open>Uint8Array\<close> is a
  list of 8-bit words. \<open>Buffer.from(s, 'hex')\<close> decodes pairs of digits and stops at the first pair
  that is not hexadecimal; \<open>toString('hex')\<close> prints two lower-case digits for each byte.
\<close>

section \<open>Labels\<close>

record label =
  label_scope :: "string option"
  label_name :: string

definition label_of :: "string \<Rightarrow> label" where
  "label_of name = \<lparr>label_scope = None, label_name = name\<rparr>"

definition label_scoped :: "string option \<Rightarrow> string \<Rightarrow> label" where
  "label_scoped scope name = \<lparr>label_scope = scope, label_name = name\<rparr>"

definition scopedName :: "label \<Rightarrow> string" where
  "scopedName l = (case label_scope l of None \<Rightarrow> label_name l | Some s \<Rightarrow> s @ '':'' @ label_name l)"

definition label_toString :: "label \<Rightarrow> string" where
  "label_toString l = scopedName l"

definition label_equals :: "label \<Rightarrow> label \<Rightarrow> bool" where
  "label_equals l k \<longleftrightarrow> label_scope l = label_scope k \<and> label_name l = label_name k"

section \<open>Hexadecimal identifiers\<close>

type_synonym byte = "8 word"

definition hex_prefix :: string where
  "hex_prefix = ''0x''"

definition hex_digits :: string where
  "hex_digits = ''0123456789abcdef''"

definition hex_digit :: "nat \<Rightarrow> char" where
  "hex_digit n = hex_digits ! n"

fun hex_value :: "char \<Rightarrow> nat option" where
  "hex_value c =
     (let n = of_char c :: nat in
      if 48 \<le> n \<and> n \<le> 57 then Some (n - 48)
      else if 97 \<le> n \<and> n \<le> 102 then Some (n - 87)
      else if 65 \<le> n \<and> n \<le> 70 then Some (n - 55)
      else None)"

fun buffer_from_hex :: "string \<Rightarrow> byte list" where
  "buffer_from_hex (c # d # s) =
     (case (hex_value c, hex_value d) of
        (Some h, Some l) \<Rightarrow> word_of_nat (16 * h + l) # buffer_from_hex s
      | _ \<Rightarrow> [])"
| "buffer_from_hex _ = []"

definition byte_to_hex :: "byte \<Rightarrow> string" where
  "byte_to_hex b = [hex_digit (unat b div 16), hex_digit (unat b mod 16)]"

definition buffer_to_hex :: "byte list \<Rightarrow> string" where
  "buffer_to_hex bs = concat (map byte_to_hex bs)"

definition hexStringToBytes :: "string \<Rightarrow> thrown + byte list" where
  "hexStringToBytes s =
     (if length s mod 2 \<noteq> 0 then
        Inl (NativeError ''Error'' (''hexString length not divisible by 2: '' @ string_of_nat (length s)) None)
      else if \<not> str_starts_with s hex_prefix then
        Inl (NativeError ''Error''
          (''hexString does not start with '' @ quote @ hex_prefix @ quote @ '': '' @ s @ quote) None)
      else Inr (buffer_from_hex (drop (length hex_prefix) s)))"

definition bytesToHexString :: "byte list \<Rightarrow> string" where
  "bytesToHexString bs = hex_prefix @ buffer_to_hex bs"

definition all_hex :: "string \<Rightarrow> bool" where
  "all_hex s = list_all (\<lambda>c. hex_value c \<noteq> None) s"

section \<open>Lemmas\<close>

lemma label_equals_eq: "label_equals l k \<longleftrightarrow> l = k"
  by (auto simp: label_equals_def)

lemma separator_unique:
  "c \<notin> set s \<Longrightarrow> c \<notin> set s' \<Longrightarrow> s @ c # n = s' @ c # n' \<longleftrightarrow> s = s' \<and> n = n'"
proof (induction s arbitrary: s')
  case Nil
  then show ?case by (cases s') auto
next
  case (Cons a s)
  then show ?case by (cases s') auto
qed

lemma hex_value_digit: "n < 16 \<Longrightarrow> hex_value (hex_digit n) = Some n"
proof -
  have "list_all (\<lambda>n. hex_value (hex_digit n) = Some n) [0..<16]"
    by code_simp
  then show "n < 16 \<Longrightarrow> hex_value (hex_digit n) = Some n"
    by (simp add: list_all_iff del: hex_value.simps)
qed

declare hex_value.simps [simp del]

lemma hex_value_less: "hex_value c = Some n \<Longrightarrow> n < 16"
  by (auto simp: hex_value.simps Let_def split: if_splits)

lemma unat_byte_less: "unat (b :: byte) < 256"
  using unsigned_less [of b] by simp

lemma byte_halves: "unat (b :: byte) div 16 < 16" "unat b mod 16 < 16"
  using unat_byte_less [of b] by auto

lemma buffer_roundtrip: "buffer_from_hex (buffer_to_hex bs) = bs"
proof (induction bs)
  case Nil
  then show ?case by (simp add: buffer_to_hex_def)
next
  case (Cons b bs)
  have "buffer_to_hex (b # bs) = hex_digit (unat b div 16) # hex_digit (unat b mod 16) # buffer_to_hex bs"
    by (simp add: buffer_to_hex_def byte_to_hex_def)
  then show ?case
    using Cons.IH byte_halves [of b] by (simp only: buffer_from_hex.simps hex_value_digit) simp
qed

lemma buffer_to_hex_length: "length (buffer_to_hex bs) = 2 * length bs"
  by (induction bs) (simp_all add: buffer_to_hex_def byte_to_hex_def)

lemma bytesToHexString_inj: "bytesToHexString bs = bytesToHexString cs \<Longrightarrow> bs = cs"
  unfolding bytesToHexString_def same_append_eq by (metis buffer_roundtrip)

lemma bytesToHexString_nonempty [simp]: "bytesToHexString bs \<noteq> []"
  by (simp add: bytesToHexString_def hex_prefix_def)

lemma hexStringToBytes_bytesToHexString [simp]: "hexStringToBytes (bytesToHexString bs) = Inr bs"
  by (simp add: hexStringToBytes_def bytesToHexString_def hex_prefix_def buffer_to_hex_length buffer_roundtrip)

lemma buffer_from_hex_length: "length (buffer_from_hex s) \<le> length s div 2"
  by (induction s rule: buffer_from_hex.induct) (auto split: option.splits)

lemma hexStringToBytes_Inl_iff:
  "(\<exists>e. hexStringToBytes s = Inl e) \<longleftrightarrow> odd (length s) \<or> \<not> prefix ''0x'' s"
  by (auto simp: hexStringToBytes_def hex_prefix_def str_starts_with_iff odd_iff_mod_2_eq_one)

lemma buffer_from_hex_full:
  "all_hex s \<Longrightarrow> even (length s) \<Longrightarrow> length (buffer_from_hex s) = length s div 2"
  by (induction s rule: buffer_from_hex.induct) (auto simp: all_hex_def)

lemma buffer_from_hex_stops:
  "all_hex s \<Longrightarrow> even (length s) \<Longrightarrow> hex_value c = None \<or> hex_value d = None \<Longrightarrow>
     buffer_from_hex (s @ c # d # t) = buffer_from_hex s"
  by (induction s rule: buffer_from_hex.induct)
     (auto simp: all_hex_def split: option.splits)

section \<open>Properties\<close>

text \<open>
  The identifiers the driver prints can be sent back: decoding the printed form of any byte
  array gives that array, and no two arrays print alike.
\<close>

lemma bytes_hex_roundtrip:
  "hexStringToBytes (bytesToHexString bs) = Inr bs \<and>
   (bytesToHexString bs = bytesToHexString cs \<longleftrightarrow> bs = cs)"
  using bytesToHexString_inj by auto

text \<open>
  Decoding rejects exactly the strings of odd length or without the \<open>0x\<close> prefix. A string it
  accepts whose digits stop being hexadecimal is not rejected: the rest is silently dropped.
\<close>

lemma hex_decoding_errors:
  "((\<exists>e. hexStringToBytes s = Inl e) \<longleftrightarrow> odd (length s) \<or> \<not> prefix ''0x'' s) \<and>
   (all_hex s \<and> even (length s) \<and> even (length t) \<and> hex_value c = None \<longrightarrow>
      hexStringToBytes (''0x'' @ s @ c # d # t) = hexStringToBytes (''0x'' @ s))"
  using buffer_from_hex_stops [of s c d t] hexStringToBytes_Inl_iff [of s]
  by (simp add: hexStringToBytes_def hex_prefix_def str_starts_with_iff odd_iff_mod_2_eq_one [symmetric])

lemma hex_decoding_errors_example:
  "hexStringToBytes (''0x'' @ ''1f'' @ CHR ''z'' # CHR ''0'' # ''ab'') = hexStringToBytes (''0x'' @ ''1f'')"
proof -
  have "all_hex ''1f'' \<and> even (length ''1f'') \<and> even (length ''ab'') \<and> hex_value (CHR ''z'') = None"
    by (simp add: all_hex_def hex_value.simps)
  then show ?thesis
    using hex_decoding_errors [of "''1f''" "''ab''" "CHR ''z''" "CHR ''0''"] by blast
qed

text \<open>
  Printed labels identify labels: for names and scopes without a colon, \<open>scopedName\<close> agrees
  exactly when \<open>equals\<close> holds, so grouping by the printed name is grouping by label.
\<close>

lemma scopedName_identifies:
  assumes "CHR '':'' \<notin> set (label_name l)" "CHR '':'' \<notin> set (label_name k)"
    and "\<forall>s. label_scope l = Some s \<longrightarrow> CHR '':'' \<notin> set s"
    and "\<forall>s. label_scope k = Some s \<longrightarrow> CHR '':'' \<notin> set s"
  shows "scopedName l = scopedName k \<longleftrightarrow> label_equals l k"
proof (cases "label_scope l"; cases "label_scope k")
  fix s s' assume "label_scope l = Some s" "label_scope k = Some s'"
  with assms show ?thesis
    using separator_unique [of "CHR '':''" s s'] by (auto simp: scopedName_def label_equals_def)
next
  fix s assume "label_scope l = Some s" "label_scope k = None"
  moreover have "scopedName l \<noteq> scopedName k"
    using calculation assms(2) by (force simp: scopedName_def dest: sym)
  ultimately show ?thesis by (simp add: label_equals_def)
next
  fix s assume "label_scope l = None" "label_scope k = Some s"
  moreover have "scopedName l \<noteq> scopedName k"
    using calculation assms(1) by (force simp: scopedName_def dest: sym)
  ultimately show ?thesis by (simp add: label_equals_def)
next
  assume "label_scope l = None" "label_scope k = None"
  then show ?thesis by (simp add: scopedName_def label_equals_def)
qed

lemma scopedName_identifies_example:
  "scopedName (label_scoped (Some ''friendship'') ''friend'') =
     scopedName (label_scoped (Some ''friendship'') ''friend'') \<longleftrightarrow>
   label_equals (label_scoped (Some ''friendship'') ''friend'') (label_scoped (Some ''friendship'') ''friend'')"
  by (rule scopedName_identifies) (simp_all add: label_scoped_def)

end
