(* ===== verification/Protocol.thy ===== *)
theory Protocol
  imports Labels_Bytes
begin

text \<open>
  The values that cross the boundary to \<open>typedb-protocol\<close>. The protocol package itself is generated
  code outside the repository; what the driver does with it is build messages from object literals,
  set a field of a message it has built, and read fields back. A message under construction is
  therefore its class name together with the object literal handed to its constructor, field by field
  in the order the source writes them. \<open>PUndefined\<close> is the JavaScript \<open>undefined\<close> or \<open>null\<close> of a
  field that is left out. The enumerations are those of the protocol the driver names; the constructor
  with an integer argument is a number the generated code does not know, which protobuf's open
  enumerations let through.
\<close>

section \<open>Enumerations of the protocol\<close>

datatype value_type_proto =
    VT_OBJECT | VT_BOOLEAN | VT_LONG | VT_DOUBLE | VT_STRING | VT_DATETIME
  | VT_UNRECOGNIZED int

datatype transitivity_proto = T_TRANSITIVE | T_EXPLICIT

datatype session_type_proto = S_DATA | S_SCHEMA

datatype transaction_type_proto = TX_READ | TX_WRITE

datatype stream_state = SS_CONTINUE | SS_DONE | SS_UNRECOGNIZED int

section \<open>Messages under construction\<close>

text \<open>The JavaScript values an attribute or a variable can hold. A \<open>Date\<close> is its time value.\<close>

datatype js_value =
    JBoolean bool
  | JNumber js_number
  | JString string
  | JDate js_number

datatype proto_enum =
    EValueType value_type_proto
  | ETransitivity transitivity_proto
  | ESessionType session_type_proto
  | ETransactionType transaction_type_proto

datatype proto =
    PUndefined
  | PValue js_value
  | PBytes "byte list"
  | PEnum proto_enum
  | PList "proto list"
  | PMsg string "(string \<times> proto) list"

abbreviation PString :: "string \<Rightarrow> proto" where
  "PString s \<equiv> PValue (JString s)"

abbreviation PNumber :: "js_number \<Rightarrow> proto" where
  "PNumber n \<equiv> PValue (JNumber n)"

abbreviation PBool :: "bool \<Rightarrow> proto" where
  "PBool b \<equiv> PValue (JBoolean b)"

definition opt_proto :: "('a \<Rightarrow> proto) \<Rightarrow> 'a option \<Rightarrow> proto" where
  "opt_proto f x = (case x of None \<Rightarrow> PUndefined | Some v \<Rightarrow> f v)"

lemma opt_proto_simps [simp]:
  "opt_proto f None = PUndefined"
  "opt_proto f (Some v) = f v"
  by (simp_all add: opt_proto_def)

fun proto_class :: "proto \<Rightarrow> string" where
  "proto_class (PMsg c _) = c"
| "proto_class _ = []"

fun proto_fields :: "proto \<Rightarrow> (string \<times> proto) list" where
  "proto_fields (PMsg _ fs) = fs"
| "proto_fields _ = []"

text \<open>Reading a field: \<open>undefined\<close> when the message does not have it.\<close>

definition proto_get :: "string \<Rightarrow> proto \<Rightarrow> proto" where
  "proto_get k m = (case map_of (proto_fields m) k of None \<Rightarrow> PUndefined | Some v \<Rightarrow> v)"

text \<open>The assignment \<open>m.k = v\<close>.\<close>

fun proto_set :: "string \<Rightarrow> proto \<Rightarrow> proto \<Rightarrow> proto" where
  "proto_set k v (PMsg c fs) = PMsg c (jmap_set k v fs)"
| "proto_set k v m = m"

lemma proto_get_set:
  "proto_get j (proto_set k v (PMsg c fs)) = (if j = k then v else proto_get j (PMsg c fs))"
  by (simp add: proto_get_def jmap_get_set)

lemma proto_get_Cons [simp]:
  "proto_get k (PMsg c ((j, v) # fs)) = (if k = j then v else proto_get k (PMsg c fs))"
  "proto_get k (PMsg c []) = PUndefined"
  by (simp_all add: proto_get_def)

text \<open>
  A \<open>oneof\<close> message carries its alternative as the one field outside a set of common fields.
\<close>

definition proto_oneof :: "string list \<Rightarrow> proto \<Rightarrow> (string \<times> proto) option" where
  "proto_oneof common m =
     (case filter (\<lambda>(k, _). k \<notin> set common) (proto_fields m) of
        [f] \<Rightarrow> Some f
      | _ \<Rightarrow> None)"

text \<open>Reading the scalars a message was built from.\<close>

fun p_string :: "proto \<Rightarrow> string" where
  "p_string (PValue (JString s)) = s"
| "p_string _ = []"

fun p_string_opt :: "proto \<Rightarrow> string option" where
  "p_string_opt (PValue (JString s)) = Some s"
| "p_string_opt _ = None"

fun p_number :: "proto \<Rightarrow> js_number" where
  "p_number (PValue (JNumber n)) = n"
| "p_number _ = NaN"

fun p_bool :: "proto \<Rightarrow> bool" where
  "p_bool (PValue (JBoolean b)) = b"
| "p_bool _ = False"

fun p_bytes :: "proto \<Rightarrow> byte list" where
  "p_bytes (PBytes bs) = bs"
| "p_bytes _ = []"

fun p_list :: "proto \<Rightarrow> proto list" where
  "p_list (PList ps) = ps"
| "p_list _ = []"

fun p_opt :: "proto \<Rightarrow> proto option" where
  "p_opt PUndefined = None"
| "p_opt m = Some m"

fun p_transitivity :: "proto \<Rightarrow> transitivity_proto option" where
  "p_transitivity (PEnum (ETransitivity t)) = Some t"
| "p_transitivity _ = None"

fun p_value_type :: "proto \<Rightarrow> value_type_proto option" where
  "p_value_type (PEnum (EValueType t)) = Some t"
| "p_value_type _ = None"

lemma p_string_opt_proto [simp]: "p_string_opt (opt_proto PString x) = x"
  by (cases x) simp_all

lemma p_transitivity_opt [simp]:
  "p_transitivity (opt_proto (\<lambda>v. PEnum (ETransitivity v)) x) = x"
  by (cases x) simp_all

lemma p_value_type_opt [simp]:
  "p_value_type (opt_proto (\<lambda>v. PEnum (EValueType v)) x) = x"
  by (cases x) simp_all

lemma p_opt_Some: "m \<noteq> PUndefined \<Longrightarrow> p_opt m = Some m"
  by (cases m) simp_all

lemma p_opt_proto [simp]:
  "x \<noteq> Some PUndefined \<Longrightarrow> p_opt (opt_proto (\<lambda>m. m) x) = x"
  by (cases x) (simp_all add: p_opt_Some)

end
