(* ===== verification/Request_Builder.thy ===== *)
theory Request_Builder
  imports Protocol
begin

text \<open>
  The request builders of \<open>common/rpc/RequestBuilder.ts\<close>, one definition for each exported or
  internal function, in the order of the file (a builder that uses a later one follows it). The name
  of a definition is the path of TypeScript namespaces followed by the function's name. Builders that decode a
  hexadecimal identifier can throw what \<open>hexStringToBytes\<close> throws. The driver's protocol version and
  \<open>uuid.parse\<close> come from packages outside the repository and are arguments of the builders that use
  them.
\<close>

section \<open>Namespace DatabaseManager\<close>

definition DatabaseManager_getReq :: "string \<Rightarrow> proto" where
  "DatabaseManager_getReq name =
     PMsg ''DatabaseManagerGetReq'' [(''name'', PString name)]"

definition DatabaseManager_createReq :: "string \<Rightarrow> proto" where
  "DatabaseManager_createReq name =
     PMsg ''DatabaseManagerCreateReq'' [(''name'', PString name)]"

definition DatabaseManager_containsReq :: "string \<Rightarrow> proto" where
  "DatabaseManager_containsReq name =
     PMsg ''DatabaseManagerContainsReq'' [(''name'', PString name)]"

definition DatabaseManager_allReq :: "proto" where
  "DatabaseManager_allReq =
     PMsg ''DatabaseManagerAllReq'' []"

section \<open>Namespace Database\<close>

definition Database_schemaReq :: "string \<Rightarrow> proto" where
  "Database_schemaReq name =
     PMsg ''DatabaseSchemaReq'' [(''name'', PString name)]"

definition Database_typeSchemaReq :: "string \<Rightarrow> proto" where
  "Database_typeSchemaReq name =
     PMsg ''DatabaseTypeSchemaReq'' [(''name'', PString name)]"

definition Database_ruleSchemaReq :: "string \<Rightarrow> proto" where
  "Database_ruleSchemaReq name =
     PMsg ''DatabaseRuleSchemaReq'' [(''name'', PString name)]"

definition Database_deleteReq :: "string \<Rightarrow> proto" where
  "Database_deleteReq name =
     PMsg ''DatabaseDeleteReq'' [(''name'', PString name)]"

section \<open>Namespace ServerManager\<close>

definition ServerManager_allReq :: "proto" where
  "ServerManager_allReq =
     PMsg ''ServerManagerAllReq'' []"

section \<open>Namespace UserManager\<close>

definition UserManager_containsReq :: "string \<Rightarrow> proto" where
  "UserManager_containsReq name =
     PMsg ''UserManagerContainsReq'' [(''username'', PString name)]"

definition UserManager_createReq :: "string \<Rightarrow> string \<Rightarrow> proto" where
  "UserManager_createReq name password =
     PMsg ''UserManagerCreateReq'' [(''username'', PString name),
       (''password'', PString password)]"

definition UserManager_deleteReq :: "string \<Rightarrow> proto" where
  "UserManager_deleteReq name =
     PMsg ''UserManagerDeleteReq'' [(''username'', PString name)]"

definition UserManager_allReq :: "proto" where
  "UserManager_allReq =
     PMsg ''UserManagerAllReq'' []"

definition UserManager_passwordSetReq :: "string \<Rightarrow> string \<Rightarrow> proto" where
  "UserManager_passwordSetReq name password =
     PMsg ''UserManagerPasswordSetReq'' [(''username'', PString name),
       (''password'', PString password)]"

definition UserManager_getReq :: "string \<Rightarrow> proto" where
  "UserManager_getReq name =
     PMsg ''UserManagerGetReq'' [(''username'', PString name)]"

section \<open>Namespace User\<close>

definition User_passwordUpdateReq :: "string \<Rightarrow> string \<Rightarrow> string \<Rightarrow> proto" where
  "User_passwordUpdateReq name passwordOld passwordNew =
     PMsg ''UserPasswordUpdateReq'' [(''username'', PString name),
       (''password_old'', PString passwordOld), (''password_new'', PString passwordNew)]"

definition User_tokenReq :: "string \<Rightarrow> proto" where
  "User_tokenReq username =
     PMsg ''UserTokenReq'' [(''username'', PString username)]"

section \<open>Namespace Connection\<close>

definition Connection_openReq :: "proto \<Rightarrow> proto" where
  "Connection_openReq version =
     PMsg ''ConnectionOpenReq'' [(''version'', version)]"

section \<open>Namespace Session\<close>

definition Session_openReq :: "string \<Rightarrow> session_type_proto \<Rightarrow> proto \<Rightarrow> proto" where
  "Session_openReq database typ options =
     PMsg ''SessionOpenReq'' [(''database'', PString database),
       (''type'', PEnum (ESessionType typ)), (''options'', options)]"

definition Session_closeReq :: "string \<Rightarrow> thrown + proto" where
  "Session_closeReq ident =
     map_sum id (\<lambda>bytes. PMsg ''SessionCloseReq'' [(''session_id'', PBytes bytes)])
       (hexStringToBytes ident)"

definition Session_pulseReq :: "string \<Rightarrow> thrown + proto" where
  "Session_pulseReq ident =
     map_sum id (\<lambda>bytes. PMsg ''SessionPulseReq'' [(''session_id'', PBytes bytes)])
       (hexStringToBytes ident)"

section \<open>Namespace Transaction\<close>

definition Transaction_clientReq :: "proto list \<Rightarrow> proto" where
  "Transaction_clientReq reqs =
     PMsg ''TransactionClient'' [(''reqs'', PList reqs)]"

definition Transaction_openReq :: "string \<Rightarrow> transaction_type_proto \<Rightarrow> proto \<Rightarrow> js_number \<Rightarrow> thrown + proto" where
  "Transaction_openReq sessionId typ options latencyMillis =
     map_sum id (\<lambda>bytes. PMsg ''TransactionReq'' [(''open_req'',
       PMsg ''TransactionOpenReq'' [(''session_id'', PBytes bytes),
       (''type'', PEnum (ETransactionType typ)), (''options'', options),
       (''network_latency_millis'', PNumber latencyMillis)])]) (hexStringToBytes sessionId)"

definition Transaction_commitReq :: "proto" where
  "Transaction_commitReq =
     PMsg ''TransactionReq'' [(''commit_req'', PMsg ''TransactionCommitReq'' [])]"

definition Transaction_rollbackReq :: "proto" where
  "Transaction_rollbackReq =
     PMsg ''TransactionReq'' [(''rollback_req'', PMsg ''TransactionRollbackReq'' [])]"

definition Transaction_streamReq :: "(string \<Rightarrow> byte list) \<Rightarrow> string \<Rightarrow> proto" where
  "Transaction_streamReq uuid_parse requestId =
     PMsg ''TransactionReq'' [(''req_id'', PBytes (uuid_parse requestId)), (''stream_req'',
       PMsg ''TransactionStreamReq'' [])]"

section \<open>Namespace LogicManager\<close>

definition LogicManager_logicManagerReq :: "proto \<Rightarrow> proto" where
  "LogicManager_logicManagerReq logicReq =
     PMsg ''TransactionReq'' [(''logic_manager_req'', logicReq)]"

definition LogicManager_putRuleReq :: "string \<Rightarrow> string \<Rightarrow> string \<Rightarrow> proto" where
  "LogicManager_putRuleReq label whenp thenp =
     LogicManager_logicManagerReq (PMsg ''LogicManagerReq'' [(''put_rule_req'',
       PMsg ''LogicManagerPutRuleReq'' [(''label'', PString label), (''when'', PString whenp),
       (''then'', PString thenp)])])"

definition LogicManager_getRuleReq :: "string \<Rightarrow> proto" where
  "LogicManager_getRuleReq label =
     LogicManager_logicManagerReq (PMsg ''LogicManagerReq'' [(''get_rule_req'',
       PMsg ''LogicManagerGetRuleReq'' [(''label'', PString label)])])"

definition LogicManager_getRulesReq :: "proto" where
  "LogicManager_getRulesReq =
     LogicManager_logicManagerReq (PMsg ''LogicManagerReq'' [(''get_rules_req'',
       PMsg ''LogicManagerGetRulesReq'' [])])"

section \<open>Namespace Rule\<close>

definition Rule_ruleReq :: "proto \<Rightarrow> proto" where
  "Rule_ruleReq request =
     PMsg ''TransactionReq'' [(''rule_req'', request)]"

definition Rule_setLabelReq :: "string \<Rightarrow> string \<Rightarrow> proto" where
  "Rule_setLabelReq currentLabel newLabel =
     Rule_ruleReq (PMsg ''RuleReq'' [(''label'', PString currentLabel), (''rule_set_label_req'',
       PMsg ''RuleSetLabelReq'' [(''label'', PString newLabel)])])"

definition Rule_deleteReq :: "string \<Rightarrow> proto" where
  "Rule_deleteReq label =
     Rule_ruleReq (PMsg ''RuleReq'' [(''label'', PString label), (''rule_delete_req'',
       PMsg ''RuleDeleteReq'' [])])"

section \<open>Namespace QueryManager\<close>

definition QueryManager_queryManagerReq :: "proto \<Rightarrow> proto \<Rightarrow> proto" where
  "QueryManager_queryManagerReq queryReq options =
     PMsg ''TransactionReq'' [(''query_manager_req'', proto_set ''options'' options queryReq)]"

definition QueryManager_defineReq :: "string \<Rightarrow> proto \<Rightarrow> proto" where
  "QueryManager_defineReq query options =
     QueryManager_queryManagerReq (PMsg ''QueryManagerReq'' [(''define_req'',
       PMsg ''QueryManagerDefineReq'' [(''query'', PString query)])]) options"

definition QueryManager_undefineReq :: "string \<Rightarrow> proto \<Rightarrow> proto" where
  "QueryManager_undefineReq query options =
     QueryManager_queryManagerReq (PMsg ''QueryManagerReq'' [(''undefine_req'',
       PMsg ''QueryManagerUndefineReq'' [(''query'', PString query)])]) options"

definition QueryManager_getReq :: "string \<Rightarrow> proto \<Rightarrow> proto" where
  "QueryManager_getReq query options =
     QueryManager_queryManagerReq (PMsg ''QueryManagerReq'' [(''get_req'',
       PMsg ''QueryManagerGetReq'' [(''query'', PString query)])]) options"

definition QueryManager_getAggregateReq :: "string \<Rightarrow> proto \<Rightarrow> proto" where
  "QueryManager_getAggregateReq query options =
     QueryManager_queryManagerReq (PMsg ''QueryManagerReq'' [(''get_aggregate_req'',
       PMsg ''QueryManagerGetAggregateReq'' [(''query'', PString query)])]) options"

definition QueryManager_getGroupReq :: "string \<Rightarrow> proto \<Rightarrow> proto" where
  "QueryManager_getGroupReq query options =
     QueryManager_queryManagerReq (PMsg ''QueryManagerReq'' [(''get_group_req'',
       PMsg ''QueryManagerGetGroupReq'' [(''query'', PString query)])]) options"

definition QueryManager_getGroupAggregateReq :: "string \<Rightarrow> proto \<Rightarrow> proto" where
  "QueryManager_getGroupAggregateReq query options =
     QueryManager_queryManagerReq (PMsg ''QueryManagerReq'' [(''get_group_aggregate_req'',
       PMsg ''QueryManagerGetGroupAggregateReq'' [(''query'', PString query)])]) options"

definition QueryManager_fetchReq :: "string \<Rightarrow> proto \<Rightarrow> proto" where
  "QueryManager_fetchReq query options =
     QueryManager_queryManagerReq (PMsg ''QueryManagerReq'' [(''fetch_req'',
       PMsg ''QueryManagerFetchReq'' [(''query'', PString query)])]) options"

definition QueryManager_insertReq :: "string \<Rightarrow> proto \<Rightarrow> proto" where
  "QueryManager_insertReq query options =
     QueryManager_queryManagerReq (PMsg ''QueryManagerReq'' [(''insert_req'',
       PMsg ''QueryManagerInsertReq'' [(''query'', PString query)])]) options"

definition QueryManager_deleteReq :: "string \<Rightarrow> proto \<Rightarrow> proto" where
  "QueryManager_deleteReq query options =
     QueryManager_queryManagerReq (PMsg ''QueryManagerReq'' [(''delete_req'',
       PMsg ''QueryManagerDeleteReq'' [(''query'', PString query)])]) options"

definition QueryManager_updateReq :: "string \<Rightarrow> proto \<Rightarrow> proto" where
  "QueryManager_updateReq query options =
     QueryManager_queryManagerReq (PMsg ''QueryManagerReq'' [(''update_req'',
       PMsg ''QueryManagerUpdateReq'' [(''query'', PString query)])]) options"

definition QueryManager_explainReq :: "js_number \<Rightarrow> proto \<Rightarrow> proto" where
  "QueryManager_explainReq ident options =
     QueryManager_queryManagerReq (PMsg ''QueryManagerReq'' [(''explain_req'',
       PMsg ''QueryManagerExplainReq'' [(''explainable_id'', PNumber ident)])]) options"

section \<open>Namespace ConceptManager\<close>

definition ConceptManager_conceptManagerReq :: "proto \<Rightarrow> proto" where
  "ConceptManager_conceptManagerReq req =
     PMsg ''TransactionReq'' [(''concept_manager_req'', req)]"

definition ConceptManager_putEntityTypeReq :: "string \<Rightarrow> proto" where
  "ConceptManager_putEntityTypeReq label =
     ConceptManager_conceptManagerReq (PMsg ''ConceptManagerReq'' [(''put_entity_type_req'',
       PMsg ''ConceptManagerPutEntityTypeReq'' [(''label'', PString label)])])"

definition ConceptManager_putRelationTypeReq :: "string \<Rightarrow> proto" where
  "ConceptManager_putRelationTypeReq label =
     ConceptManager_conceptManagerReq (PMsg ''ConceptManagerReq'' [(''put_relation_type_req'',
       PMsg ''ConceptManagerPutRelationTypeReq'' [(''label'', PString label)])])"

definition ConceptManager_putAttributeTypeReq :: "string \<Rightarrow> value_type_proto option \<Rightarrow> proto" where
  "ConceptManager_putAttributeTypeReq label valueType =
     ConceptManager_conceptManagerReq (PMsg ''ConceptManagerReq'' [(''put_attribute_type_req'',
       PMsg ''ConceptManagerPutAttributeTypeReq'' [(''label'', PString label),
       (''value_type'', opt_proto (\<lambda>v. PEnum (EValueType v)) valueType)])])"

definition ConceptManager_getEntityTypeReq :: "string \<Rightarrow> proto" where
  "ConceptManager_getEntityTypeReq label =
     ConceptManager_conceptManagerReq (PMsg ''ConceptManagerReq'' [(''get_entity_type_req'',
       PMsg ''ConceptManagerGetEntityTypeReq'' [(''label'', PString label)])])"

definition ConceptManager_getRelationTypeReq :: "string \<Rightarrow> proto" where
  "ConceptManager_getRelationTypeReq label =
     ConceptManager_conceptManagerReq (PMsg ''ConceptManagerReq'' [(''get_relation_type_req'',
       PMsg ''ConceptManagerGetRelationTypeReq'' [(''label'', PString label)])])"

definition ConceptManager_getAttributeTypeReq :: "string \<Rightarrow> proto" where
  "ConceptManager_getAttributeTypeReq label =
     ConceptManager_conceptManagerReq (PMsg ''ConceptManagerReq'' [(''get_attribute_type_req'',
       PMsg ''ConceptManagerGetAttributeTypeReq'' [(''label'', PString label)])])"

definition ConceptManager_getEntityReq :: "string \<Rightarrow> thrown + proto" where
  "ConceptManager_getEntityReq iid =
     map_sum id (\<lambda>bytes. ConceptManager_conceptManagerReq (PMsg ''ConceptManagerReq''
       [(''get_entity_req'', PMsg ''ConceptManagerGetEntityReq'' [(''iid'', PBytes bytes)])]))
       (hexStringToBytes iid)"

definition ConceptManager_getRelationReq :: "string \<Rightarrow> thrown + proto" where
  "ConceptManager_getRelationReq iid =
     map_sum id (\<lambda>bytes. ConceptManager_conceptManagerReq (PMsg ''ConceptManagerReq''
       [(''get_relation_req'', PMsg ''ConceptManagerGetRelationReq'' [(''iid'', PBytes bytes)])]))
       (hexStringToBytes iid)"

definition ConceptManager_getAttributeReq :: "string \<Rightarrow> thrown + proto" where
  "ConceptManager_getAttributeReq iid =
     map_sum id (\<lambda>bytes. ConceptManager_conceptManagerReq (PMsg ''ConceptManagerReq''
       [(''get_attribute_req'', PMsg ''ConceptManagerGetAttributeReq''
       [(''iid'', PBytes bytes)])])) (hexStringToBytes iid)"

definition ConceptManager_getSchemaExceptions :: "proto" where
  "ConceptManager_getSchemaExceptions =
     ConceptManager_conceptManagerReq (PMsg ''ConceptManagerReq'' [(''get_schema_exceptions_req'',
       PMsg ''ConceptManagerGetSchemaExceptionsReq'' [])])"

section \<open>Namespace Type\<close>

definition Type_RoleType_roleTypeReq :: "proto \<Rightarrow> proto" where
  "Type_RoleType_roleTypeReq req =
     PMsg ''TransactionReq'' [(''type_req'', PMsg ''TypeReq'' [(''role_type_req'', req)])]"

definition Type_RoleType_newReqBuilder :: "label \<Rightarrow> (string \<times> proto) list" where
  "Type_RoleType_newReqBuilder label =
     [(''label'', PString (label_name label)), (''scope'', opt_proto PString (label_scope label))]"

definition Type_RoleType_protoRoleType :: "label \<Rightarrow> proto" where
  "Type_RoleType_protoRoleType label =
     PMsg ''RoleType'' [(''scope'', opt_proto PString (label_scope label)),
       (''label'', PString (label_name label))]"

definition Type_RoleType_deleteReq :: "label \<Rightarrow> proto" where
  "Type_RoleType_deleteReq label =
     Type_RoleType_roleTypeReq (PMsg ''RoleTypeReq'' (Type_RoleType_newReqBuilder label @
       [(''role_type_delete_req'', PMsg ''RoleTypeDeleteReq'' [])]))"

definition Type_RoleType_setLabelReq :: "label \<Rightarrow> string \<Rightarrow> proto" where
  "Type_RoleType_setLabelReq label newLabel =
     Type_RoleType_roleTypeReq (PMsg ''RoleTypeReq'' (Type_RoleType_newReqBuilder label @
       [(''role_type_set_label_req'', PMsg ''RoleTypeSetLabelReq''
       [(''label'', PString newLabel)])]))"

definition Type_RoleType_getSupertypeReq :: "label \<Rightarrow> proto" where
  "Type_RoleType_getSupertypeReq label =
     Type_RoleType_roleTypeReq (PMsg ''RoleTypeReq'' (Type_RoleType_newReqBuilder label @
       [(''role_type_get_supertype_req'', PMsg ''RoleTypeGetSupertypeReq'' [])]))"

definition Type_RoleType_getSupertypesReq :: "label \<Rightarrow> proto" where
  "Type_RoleType_getSupertypesReq label =
     Type_RoleType_roleTypeReq (PMsg ''RoleTypeReq'' (Type_RoleType_newReqBuilder label @
       [(''role_type_get_supertypes_req'', PMsg ''RoleTypeGetSupertypesReq'' [])]))"

definition Type_RoleType_getSubtypesReq :: "label \<Rightarrow> transitivity_proto option \<Rightarrow> proto" where
  "Type_RoleType_getSubtypesReq label transitivity =
     Type_RoleType_roleTypeReq (PMsg ''RoleTypeReq'' (Type_RoleType_newReqBuilder label @
       [(''role_type_get_subtypes_req'', PMsg ''RoleTypeGetSubtypesReq''
       [(''transitivity'', opt_proto (\<lambda>v. PEnum (ETransitivity v)) transitivity)])]))"

definition Type_RoleType_getRelationTypesReq :: "label \<Rightarrow> proto" where
  "Type_RoleType_getRelationTypesReq label =
     Type_RoleType_roleTypeReq (PMsg ''RoleTypeReq'' (Type_RoleType_newReqBuilder label @
       [(''role_type_get_relation_types_req'', PMsg ''RoleTypeGetRelationTypesReq'' [])]))"

definition Type_RoleType_getPlayerTypesReq :: "label \<Rightarrow> transitivity_proto option \<Rightarrow> proto" where
  "Type_RoleType_getPlayerTypesReq label transitivity =
     Type_RoleType_roleTypeReq (PMsg ''RoleTypeReq'' (Type_RoleType_newReqBuilder label @
       [(''role_type_get_player_types_req'', PMsg ''RoleTypeGetPlayerTypesReq''
       [(''transitivity'', opt_proto (\<lambda>v. PEnum (ETransitivity v)) transitivity)])]))"

definition Type_RoleType_getRelationInstancesReq :: "label \<Rightarrow> transitivity_proto option \<Rightarrow> proto" where
  "Type_RoleType_getRelationInstancesReq label transitivity =
     Type_RoleType_roleTypeReq (PMsg ''RoleTypeReq'' (Type_RoleType_newReqBuilder label @
       [(''role_type_get_relation_instances_req'', PMsg ''RoleTypeGetRelationInstancesReq''
       [(''transitivity'', opt_proto (\<lambda>v. PEnum (ETransitivity v)) transitivity)])]))"

definition Type_RoleType_getPlayerInstancesReq :: "label \<Rightarrow> transitivity_proto option \<Rightarrow> proto" where
  "Type_RoleType_getPlayerInstancesReq label transitivity =
     Type_RoleType_roleTypeReq (PMsg ''RoleTypeReq'' (Type_RoleType_newReqBuilder label @
       [(''role_type_get_player_instances_req'', PMsg ''RoleTypeGetPlayerInstancesReq''
       [(''transitivity'', opt_proto (\<lambda>v. PEnum (ETransitivity v)) transitivity)])]))"

definition Type_thingTypeReq :: "proto \<Rightarrow> proto" where
  "Type_thingTypeReq req =
     PMsg ''TransactionReq'' [(''type_req'', PMsg ''TypeReq'' [(''thing_type_req'', req)])]"

definition Type_ThingType_deleteReq :: "label \<Rightarrow> proto" where
  "Type_ThingType_deleteReq label =
     Type_thingTypeReq (PMsg ''ThingTypeReq'' [(''label'', PString (label_name label)),
       (''thing_type_delete_req'', PMsg ''ThingTypeDeleteReq'' [])])"

definition Type_ThingType_setLabelReq :: "label \<Rightarrow> string \<Rightarrow> proto" where
  "Type_ThingType_setLabelReq label newLabel =
     Type_thingTypeReq (PMsg ''ThingTypeReq'' [(''label'', PString (label_name label)),
       (''thing_type_set_label_req'', PMsg ''ThingTypeSetLabelReq''
       [(''label'', PString newLabel)])])"

definition Type_ThingType_setAbstractReq :: "label \<Rightarrow> proto" where
  "Type_ThingType_setAbstractReq label =
     Type_thingTypeReq (PMsg ''ThingTypeReq'' [(''label'', PString (label_name label)),
       (''thing_type_set_abstract_req'', PMsg ''ThingTypeSetAbstractReq'' [])])"

definition Type_ThingType_unsetAbstractReq :: "label \<Rightarrow> proto" where
  "Type_ThingType_unsetAbstractReq label =
     Type_thingTypeReq (PMsg ''ThingTypeReq'' [(''label'', PString (label_name label)),
       (''thing_type_unset_abstract_req'', PMsg ''ThingTypeUnsetAbstractReq'' [])])"

definition Type_ThingType_getOwnsReq :: "label \<Rightarrow> value_type_proto option \<Rightarrow> proto list \<Rightarrow> transitivity_proto option \<Rightarrow> proto" where
  "Type_ThingType_getOwnsReq label value_type annotations transitivity =
     Type_thingTypeReq (PMsg ''ThingTypeReq'' [(''label'', PString (label_name label)),
       (''thing_type_get_owns_req'', PMsg ''ThingTypeGetOwnsReq''
       [(''value_type'', opt_proto (\<lambda>v. PEnum (EValueType v)) value_type),
       (''annotations'', PList annotations),
       (''transitivity'', opt_proto (\<lambda>v. PEnum (ETransitivity v)) transitivity)])])"

definition Type_ThingType_getOwnsOverriddenReq :: "label \<Rightarrow> proto \<Rightarrow> proto" where
  "Type_ThingType_getOwnsOverriddenReq label attributeType =
     Type_thingTypeReq (PMsg ''ThingTypeReq'' [(''label'', PString (label_name label)),
       (''thing_type_get_owns_overridden_req'', PMsg ''ThingTypeGetOwnsOverriddenReq''
       [(''attribute_type'', attributeType)])])"

definition Type_ThingType_setOwnsReq :: "label \<Rightarrow> proto \<Rightarrow> proto option \<Rightarrow> proto list \<Rightarrow> proto" where
  "Type_ThingType_setOwnsReq label attributeType overriddenType annotations =
     Type_thingTypeReq (PMsg ''ThingTypeReq'' [(''label'', PString (label_name label)),
       (''thing_type_set_owns_req'', PMsg ''ThingTypeSetOwnsReq''
       [(''attribute_type'', attributeType),
       (''overridden_type'', opt_proto (\<lambda>m. m) overriddenType),
       (''annotations'', PList annotations)])])"

definition Type_ThingType_unsetOwnsReq :: "label \<Rightarrow> proto \<Rightarrow> proto" where
  "Type_ThingType_unsetOwnsReq label attributeType =
     Type_thingTypeReq (PMsg ''ThingTypeReq'' [(''label'', PString (label_name label)),
       (''thing_type_unset_owns_req'', PMsg ''ThingTypeUnsetOwnsReq''
       [(''attribute_type'', attributeType)])])"

definition Type_ThingType_getPlaysReq :: "label \<Rightarrow> transitivity_proto option \<Rightarrow> proto" where
  "Type_ThingType_getPlaysReq label transitivity =
     Type_thingTypeReq (PMsg ''ThingTypeReq'' [(''label'', PString (label_name label)),
       (''thing_type_get_plays_req'', PMsg ''ThingTypeGetPlaysReq''
       [(''transitivity'', opt_proto (\<lambda>v. PEnum (ETransitivity v)) transitivity)])])"

definition Type_ThingType_getPlaysOverriddenReq :: "label \<Rightarrow> proto \<Rightarrow> proto" where
  "Type_ThingType_getPlaysOverriddenReq label roleType =
     Type_thingTypeReq (PMsg ''ThingTypeReq'' [(''label'', PString (label_name label)),
       (''thing_type_get_plays_overridden_req'', PMsg ''ThingTypeGetPlaysOverriddenReq''
       [(''role_type'', roleType)])])"

definition Type_ThingType_setPlaysReq :: "label \<Rightarrow> proto \<Rightarrow> proto option \<Rightarrow> proto" where
  "Type_ThingType_setPlaysReq label roleType overriddenType =
     Type_thingTypeReq (PMsg ''ThingTypeReq'' [(''label'', PString (label_name label)),
       (''thing_type_set_plays_req'', PMsg ''ThingTypeSetPlaysReq'' [(''role_type'', roleType),
       (''overridden_role_type'', opt_proto (\<lambda>m. m) overriddenType)])])"

definition Type_ThingType_unsetPlaysReq :: "label \<Rightarrow> proto \<Rightarrow> proto" where
  "Type_ThingType_unsetPlaysReq label roleType =
     Type_thingTypeReq (PMsg ''ThingTypeReq'' [(''label'', PString (label_name label)),
       (''thing_type_unset_plays_req'', PMsg ''ThingTypeUnsetPlaysReq''
       [(''role_type'', roleType)])])"

definition Type_ThingType_getSyntaxReq :: "label \<Rightarrow> proto" where
  "Type_ThingType_getSyntaxReq label =
     Type_thingTypeReq (PMsg ''ThingTypeReq'' [(''label'', PString (label_name label)),
       (''thing_type_get_syntax_req'', PMsg ''ThingTypeGetSyntaxReq'' [])])"

definition Type_EntityType_protoEntityType :: "label \<Rightarrow> proto" where
  "Type_EntityType_protoEntityType label =
     PMsg ''EntityType'' [(''label'', PString (label_name label))]"

definition Type_ThingType_protoThingTypeEntityType :: "label \<Rightarrow> proto" where
  "Type_ThingType_protoThingTypeEntityType label =
     PMsg ''ThingType'' [(''entity_type'', Type_EntityType_protoEntityType label)]"

definition Type_EntityType_createReq :: "label \<Rightarrow> proto" where
  "Type_EntityType_createReq label =
     Type_thingTypeReq (PMsg ''ThingTypeReq'' [(''label'', PString (label_name label)),
       (''entity_type_create_req'', PMsg ''EntityTypeCreateReq'' [])])"

definition Type_EntityType_getSupertypeReq :: "label \<Rightarrow> proto" where
  "Type_EntityType_getSupertypeReq label =
     Type_thingTypeReq (PMsg ''ThingTypeReq'' [(''label'', PString (label_name label)),
       (''entity_type_get_supertype_req'', PMsg ''EntityTypeGetSupertypeReq'' [])])"

definition Type_EntityType_setSupertypeReq :: "label \<Rightarrow> proto \<Rightarrow> proto" where
  "Type_EntityType_setSupertypeReq label supertype =
     Type_thingTypeReq (PMsg ''ThingTypeReq'' [(''label'', PString (label_name label)),
       (''entity_type_set_supertype_req'', PMsg ''EntityTypeSetSupertypeReq''
       [(''entity_type'', supertype)])])"

definition Type_EntityType_getSupertypesReq :: "label \<Rightarrow> proto" where
  "Type_EntityType_getSupertypesReq label =
     Type_thingTypeReq (PMsg ''ThingTypeReq'' [(''label'', PString (label_name label)),
       (''entity_type_get_supertypes_req'', PMsg ''EntityTypeGetSupertypesReq'' [])])"

definition Type_EntityType_getSubtypesReq :: "label \<Rightarrow> transitivity_proto option \<Rightarrow> proto" where
  "Type_EntityType_getSubtypesReq label transitivity =
     Type_thingTypeReq (PMsg ''ThingTypeReq'' [(''label'', PString (label_name label)),
       (''entity_type_get_subtypes_req'', PMsg ''EntityTypeGetSubtypesReq''
       [(''transitivity'', opt_proto (\<lambda>v. PEnum (ETransitivity v)) transitivity)])])"

definition Type_EntityType_getInstancesReq :: "label \<Rightarrow> transitivity_proto option \<Rightarrow> proto" where
  "Type_EntityType_getInstancesReq label transitivity =
     Type_thingTypeReq (PMsg ''ThingTypeReq'' [(''label'', PString (label_name label)),
       (''entity_type_get_instances_req'', PMsg ''EntityTypeGetInstancesReq''
       [(''transitivity'', opt_proto (\<lambda>v. PEnum (ETransitivity v)) transitivity)])])"

definition Type_RelationType_protoRelationType :: "label \<Rightarrow> proto" where
  "Type_RelationType_protoRelationType label =
     PMsg ''RelationType'' [(''label'', PString (label_name label))]"

definition Type_ThingType_protoThingTypeRelationType :: "label \<Rightarrow> proto" where
  "Type_ThingType_protoThingTypeRelationType label =
     PMsg ''ThingType'' [(''relation_type'', Type_RelationType_protoRelationType label)]"

definition Type_RelationType_createReq :: "label \<Rightarrow> proto" where
  "Type_RelationType_createReq label =
     Type_thingTypeReq (PMsg ''ThingTypeReq'' [(''label'', PString (label_name label)),
       (''relation_type_create_req'', PMsg ''RelationTypeCreateReq'' [])])"

definition Type_RelationType_getSupertypeReq :: "label \<Rightarrow> proto" where
  "Type_RelationType_getSupertypeReq label =
     Type_thingTypeReq (PMsg ''ThingTypeReq'' [(''label'', PString (label_name label)),
       (''relation_type_get_supertype_req'', PMsg ''RelationTypeGetSupertypeReq'' [])])"

definition Type_RelationType_setSupertypeReq :: "label \<Rightarrow> proto \<Rightarrow> proto" where
  "Type_RelationType_setSupertypeReq label supertype =
     Type_thingTypeReq (PMsg ''ThingTypeReq'' [(''label'', PString (label_name label)),
       (''relation_type_set_supertype_req'', PMsg ''RelationTypeSetSupertypeReq''
       [(''relation_type'', supertype)])])"

definition Type_RelationType_getSupertypesReq :: "label \<Rightarrow> proto" where
  "Type_RelationType_getSupertypesReq label =
     Type_thingTypeReq (PMsg ''ThingTypeReq'' [(''label'', PString (label_name label)),
       (''relation_type_get_supertypes_req'', PMsg ''RelationTypeGetSupertypesReq'' [])])"

definition Type_RelationType_getSubtypesReq :: "label \<Rightarrow> transitivity_proto option \<Rightarrow> proto" where
  "Type_RelationType_getSubtypesReq label transitivity =
     Type_thingTypeReq (PMsg ''ThingTypeReq'' [(''label'', PString (label_name label)),
       (''relation_type_get_subtypes_req'', PMsg ''RelationTypeGetSubtypesReq''
       [(''transitivity'', opt_proto (\<lambda>v. PEnum (ETransitivity v)) transitivity)])])"

definition Type_RelationType_getInstancesReq :: "label \<Rightarrow> transitivity_proto option \<Rightarrow> proto" where
  "Type_RelationType_getInstancesReq label transitivity =
     Type_thingTypeReq (PMsg ''ThingTypeReq'' [(''label'', PString (label_name label)),
       (''relation_type_get_instances_req'', PMsg ''RelationTypeGetInstancesReq''
       [(''transitivity'', opt_proto (\<lambda>v. PEnum (ETransitivity v)) transitivity)])])"

definition Type_RelationType_getRelatesReq :: "label \<Rightarrow> transitivity_proto option \<Rightarrow> proto" where
  "Type_RelationType_getRelatesReq label transitivity =
     Type_thingTypeReq (PMsg ''ThingTypeReq'' [(''label'', PString (label_name label)),
       (''relation_type_get_relates_req'', PMsg ''RelationTypeGetRelatesReq''
       [(''transitivity'', opt_proto (\<lambda>v. PEnum (ETransitivity v)) transitivity)])])"

definition Type_RelationType_getRelatesForRoleLabel :: "label \<Rightarrow> string \<Rightarrow> proto" where
  "Type_RelationType_getRelatesForRoleLabel label roleLabel =
     Type_thingTypeReq (PMsg ''ThingTypeReq'' [(''label'', PString (label_name label)),
       (''relation_type_get_relates_for_role_label_req'',
       PMsg ''RelationTypeGetRelatesForRoleLabelReq'' [(''label'', PString roleLabel)])])"

definition Type_RelationType_getRelatesOverriddenReq :: "label \<Rightarrow> string \<Rightarrow> proto" where
  "Type_RelationType_getRelatesOverriddenReq label roleLabel =
     Type_thingTypeReq (PMsg ''ThingTypeReq'' [(''label'', PString (label_name label)),
       (''relation_type_get_relates_overridden_req'', PMsg ''RelationTypeGetRelatesOverriddenReq''
       [(''label'', PString roleLabel)])])"

definition Type_RelationType_setRelatesReq :: "label \<Rightarrow> string \<Rightarrow> string option \<Rightarrow> proto" where
  "Type_RelationType_setRelatesReq label roleLabel overriddenLabel =
     Type_thingTypeReq (PMsg ''ThingTypeReq'' [(''label'', PString (label_name label)),
       (''relation_type_set_relates_req'', PMsg ''RelationTypeSetRelatesReq''
       [(''label'', PString roleLabel),
       (''overridden_label'', opt_proto PString overriddenLabel)])])"

definition Type_RelationType_unsetRelatesReq :: "label \<Rightarrow> string \<Rightarrow> proto" where
  "Type_RelationType_unsetRelatesReq label roleLabel =
     Type_thingTypeReq (PMsg ''ThingTypeReq'' [(''label'', PString (label_name label)),
       (''relation_type_unset_relates_req'', PMsg ''RelationTypeUnsetRelatesReq''
       [(''label'', PString roleLabel)])])"

definition Type_AttributeType_protoAttributeType :: "label \<Rightarrow> proto" where
  "Type_AttributeType_protoAttributeType label =
     PMsg ''AttributeType'' [(''label'', PString (label_name label))]"

definition Type_ThingType_protoThingTypeAttributeType :: "label \<Rightarrow> proto" where
  "Type_ThingType_protoThingTypeAttributeType label =
     PMsg ''ThingType'' [(''attribute_type'', Type_AttributeType_protoAttributeType label)]"

definition Type_AttributeType_putReq :: "label \<Rightarrow> proto \<Rightarrow> proto" where
  "Type_AttributeType_putReq label value =
     Type_thingTypeReq (PMsg ''ThingTypeReq'' [(''label'', PString (label_name label)),
       (''attribute_type_put_req'', PMsg ''AttributeTypePutReq'' [(''value'', value)])])"

definition Type_AttributeType_getReq :: "label \<Rightarrow> proto \<Rightarrow> proto" where
  "Type_AttributeType_getReq label value =
     Type_thingTypeReq (PMsg ''ThingTypeReq'' [(''label'', PString (label_name label)),
       (''attribute_type_get_req'', PMsg ''AttributeTypeGetReq'' [(''value'', value)])])"

definition Type_AttributeType_getSupertypeReq :: "label \<Rightarrow> proto" where
  "Type_AttributeType_getSupertypeReq label =
     Type_thingTypeReq (PMsg ''ThingTypeReq'' [(''label'', PString (label_name label)),
       (''attribute_type_get_supertype_req'', PMsg ''AttributeTypeGetSupertypeReq'' [])])"

definition Type_AttributeType_setSupertypeReq :: "label \<Rightarrow> proto \<Rightarrow> proto" where
  "Type_AttributeType_setSupertypeReq label supertype =
     Type_thingTypeReq (PMsg ''ThingTypeReq'' [(''label'', PString (label_name label)),
       (''attribute_type_set_supertype_req'', PMsg ''AttributeTypeSetSupertypeReq''
       [(''attribute_type'', supertype)])])"

definition Type_AttributeType_getSupertypesReq :: "label \<Rightarrow> proto" where
  "Type_AttributeType_getSupertypesReq label =
     Type_thingTypeReq (PMsg ''ThingTypeReq'' [(''label'', PString (label_name label)),
       (''attribute_type_get_supertypes_req'', PMsg ''AttributeTypeGetSupertypesReq'' [])])"

definition Type_AttributeType_getSubtypesReq :: "label \<Rightarrow> transitivity_proto option \<Rightarrow> value_type_proto option \<Rightarrow> proto" where
  "Type_AttributeType_getSubtypesReq label transitivity valueType =
     Type_thingTypeReq (PMsg ''ThingTypeReq'' [(''label'', PString (label_name label)),
       (''attribute_type_get_subtypes_req'', PMsg ''AttributeTypeGetSubtypesReq''
       [(''transitivity'', opt_proto (\<lambda>v. PEnum (ETransitivity v)) transitivity),
       (''value_type'', opt_proto (\<lambda>v. PEnum (EValueType v)) valueType)])])"

definition Type_AttributeType_getInstancesReq :: "label \<Rightarrow> transitivity_proto option \<Rightarrow> proto" where
  "Type_AttributeType_getInstancesReq label transitivity =
     Type_thingTypeReq (PMsg ''ThingTypeReq'' [(''label'', PString (label_name label)),
       (''attribute_type_get_instances_req'', PMsg ''AttributeTypeGetInstancesReq''
       [(''transitivity'', opt_proto (\<lambda>v. PEnum (ETransitivity v)) transitivity)])])"

definition Type_AttributeType_getRegexReq :: "label \<Rightarrow> proto" where
  "Type_AttributeType_getRegexReq label =
     Type_thingTypeReq (PMsg ''ThingTypeReq'' [(''label'', PString (label_name label)),
       (''attribute_type_get_regex_req'', PMsg ''AttributeTypeGetRegexReq'' [])])"

definition Type_AttributeType_setRegexReq :: "label \<Rightarrow> string \<Rightarrow> proto" where
  "Type_AttributeType_setRegexReq label regex =
     Type_thingTypeReq (PMsg ''ThingTypeReq'' [(''label'', PString (label_name label)),
       (''attribute_type_set_regex_req'', PMsg ''AttributeTypeSetRegexReq''
       [(''regex'', PString regex)])])"

definition Type_AttributeType_getOwnersReq :: "label \<Rightarrow> transitivity_proto option \<Rightarrow> proto list \<Rightarrow> proto" where
  "Type_AttributeType_getOwnersReq label transitivity annotations =
     Type_thingTypeReq (PMsg ''ThingTypeReq'' [(''label'', PString (label_name label)),
       (''attribute_type_get_owners_req'', PMsg ''AttributeTypeGetOwnersReq''
       [(''transitivity'', opt_proto (\<lambda>v. PEnum (ETransitivity v)) transitivity),
       (''annotations'', PList annotations)])])"

definition Type_Annotation_annotationKey :: "proto" where
  "Type_Annotation_annotationKey =
     PMsg ''TypeAnnotation'' [(''key'', PMsg ''TypeAnnotationKey'' [])]"

definition Type_Annotation_annotationUnique :: "proto" where
  "Type_Annotation_annotationUnique =
     PMsg ''TypeAnnotation'' [(''unique'', PMsg ''TypeAnnotationUnique'' [])]"

section \<open>Namespace Thing\<close>

definition Thing_thingReq :: "proto \<Rightarrow> proto" where
  "Thing_thingReq req =
     PMsg ''TransactionReq'' [(''thing_req'', req)]"

definition Thing_getHasReq :: "string \<Rightarrow> proto list \<Rightarrow> proto list \<Rightarrow> thrown + proto" where
  "Thing_getHasReq iid attributeTypes annotations =
     map_sum id (\<lambda>bytes. Thing_thingReq (PMsg ''ThingReq'' [(''iid'', PBytes bytes),
       (''thing_get_has_req'', PMsg ''ThingGetHasReq'' [(''annotations'', PList annotations),
       (''attribute_types'', PList attributeTypes)])])) (hexStringToBytes iid)"

definition Thing_setHasReq :: "string \<Rightarrow> proto \<Rightarrow> thrown + proto" where
  "Thing_setHasReq iid attribute =
     map_sum id (\<lambda>bytes. Thing_thingReq (PMsg ''ThingReq'' [(''iid'', PBytes bytes),
       (''thing_set_has_req'', PMsg ''ThingSetHasReq'' [(''attribute'', attribute)])]))
       (hexStringToBytes iid)"

definition Thing_unsetHasReq :: "string \<Rightarrow> proto \<Rightarrow> thrown + proto" where
  "Thing_unsetHasReq iid attribute =
     map_sum id (\<lambda>bytes. Thing_thingReq (PMsg ''ThingReq'' [(''iid'', PBytes bytes),
       (''thing_unset_has_req'', PMsg ''ThingUnsetHasReq'' [(''attribute'', attribute)])]))
       (hexStringToBytes iid)"

definition Thing_getPlayingReq :: "string \<Rightarrow> thrown + proto" where
  "Thing_getPlayingReq iid =
     map_sum id (\<lambda>bytes. Thing_thingReq (PMsg ''ThingReq'' [(''iid'', PBytes bytes),
       (''thing_get_playing_req'', PMsg ''ThingGetPlayingReq'' [])])) (hexStringToBytes iid)"

definition Thing_getRelationsReq :: "string \<Rightarrow> proto list \<Rightarrow> thrown + proto" where
  "Thing_getRelationsReq iid roleTypes =
     map_sum id (\<lambda>bytes. Thing_thingReq (PMsg ''ThingReq'' [(''iid'', PBytes bytes),
       (''thing_get_relations_req'', PMsg ''ThingGetRelationsReq''
       [(''role_types'', PList roleTypes)])])) (hexStringToBytes iid)"

definition Thing_deleteReq :: "string \<Rightarrow> thrown + proto" where
  "Thing_deleteReq iid =
     map_sum id (\<lambda>bytes. Thing_thingReq (PMsg ''ThingReq'' [(''iid'', PBytes bytes),
       (''thing_delete_req'', PMsg ''ThingDeleteReq'' [])])) (hexStringToBytes iid)"

definition Thing_Entity_protoEntity :: "string \<Rightarrow> thrown + proto" where
  "Thing_Entity_protoEntity iid =
     map_sum id (\<lambda>bytes. PMsg ''Entity'' [(''iid'', PBytes bytes)]) (hexStringToBytes iid)"

definition Thing_protoThingEntity :: "string \<Rightarrow> thrown + proto" where
  "Thing_protoThingEntity iid =
     map_sum id (\<lambda>message. PMsg ''Thing''
       [(''entity'', message)]) (Thing_Entity_protoEntity iid)"

definition Thing_Relation_protoRelation :: "string \<Rightarrow> thrown + proto" where
  "Thing_Relation_protoRelation iid =
     map_sum id (\<lambda>bytes. PMsg ''Relation'' [(''iid'', PBytes bytes)])
       (hexStringToBytes iid)"

definition Thing_protoThingRelation :: "string \<Rightarrow> thrown + proto" where
  "Thing_protoThingRelation iid =
     map_sum id (\<lambda>message. PMsg ''Thing''
       [(''relation'', message)]) (Thing_Relation_protoRelation iid)"

definition Thing_Relation_protoRolePlayer :: "proto \<Rightarrow> proto \<Rightarrow> proto" where
  "Thing_Relation_protoRolePlayer roleType player =
     PMsg ''RelationRolePlayer'' [(''role_type'', roleType), (''player'', player)]"

definition Thing_Relation_addRolePlayerReq :: "string \<Rightarrow> proto \<Rightarrow> proto \<Rightarrow> thrown + proto" where
  "Thing_Relation_addRolePlayerReq iid roleType player =
     map_sum id (\<lambda>bytes. Thing_thingReq (PMsg ''ThingReq'' [(''iid'', PBytes bytes),
       (''relation_add_role_player_req'', PMsg ''RelationAddRolePlayerReq''
       [(''role_player'', Thing_Relation_protoRolePlayer roleType player)])]))
       (hexStringToBytes iid)"

definition Thing_Relation_removeRolePlayerReq :: "string \<Rightarrow> proto \<Rightarrow> proto \<Rightarrow> thrown + proto" where
  "Thing_Relation_removeRolePlayerReq iid roleType player =
     map_sum id (\<lambda>bytes. Thing_thingReq (PMsg ''ThingReq'' [(''iid'', PBytes bytes),
       (''relation_remove_role_player_req'', PMsg ''RelationRemoveRolePlayerReq''
       [(''role_player'', Thing_Relation_protoRolePlayer roleType player)])]))
       (hexStringToBytes iid)"

definition Thing_Relation_getPlayersByRoleTypeReq :: "string \<Rightarrow> proto list \<Rightarrow> thrown + proto" where
  "Thing_Relation_getPlayersByRoleTypeReq iid roleTypes =
     map_sum id (\<lambda>bytes. Thing_thingReq (PMsg ''ThingReq'' [(''iid'', PBytes bytes),
       (''relation_get_players_by_role_type_req'', PMsg ''RelationGetPlayersByRoleTypeReq''
       [(''role_types'', PList roleTypes)])])) (hexStringToBytes iid)"

definition Thing_Relation_getRolePlayersReq :: "string \<Rightarrow> thrown + proto" where
  "Thing_Relation_getRolePlayersReq iid =
     map_sum id (\<lambda>bytes. Thing_thingReq (PMsg ''ThingReq'' [(''iid'', PBytes bytes),
       (''relation_get_role_players_req'', PMsg ''RelationGetRolePlayersReq'' [])]))
       (hexStringToBytes iid)"

definition Thing_Relation_getRelatingReq :: "string \<Rightarrow> thrown + proto" where
  "Thing_Relation_getRelatingReq iid =
     map_sum id (\<lambda>bytes. Thing_thingReq (PMsg ''ThingReq'' [(''iid'', PBytes bytes),
       (''relation_get_relating_req'', PMsg ''RelationGetRelatingReq'' [])]))
       (hexStringToBytes iid)"

definition Thing_Attribute_protoAttribute :: "string \<Rightarrow> thrown + proto" where
  "Thing_Attribute_protoAttribute iid =
     map_sum id (\<lambda>bytes. PMsg ''Attribute'' [(''iid'', PBytes bytes)])
       (hexStringToBytes iid)"

definition Thing_protoThingAttribute :: "string \<Rightarrow> thrown + proto" where
  "Thing_protoThingAttribute iid =
     map_sum id (\<lambda>message. PMsg ''Thing''
       [(''attribute'', message)]) (Thing_Attribute_protoAttribute iid)"

definition Thing_Attribute_getOwnersReq :: "string \<Rightarrow> proto option \<Rightarrow> thrown + proto" where
  "Thing_Attribute_getOwnersReq iid ownerType =
     map_sum id (\<lambda>bytes. Thing_thingReq (PMsg ''ThingReq'' [(''iid'', PBytes bytes),
       (''attribute_get_owners_req'', PMsg ''AttributeGetOwnersReq''
       [(''thing_type'', opt_proto (\<lambda>m. m) ownerType)])])) (hexStringToBytes iid)"

section \<open>Values\<close>

text \<open>
  The casts of the source are erased at run time: the value goes into the field as it is, except
  that a date-time must be a \<open>Date\<close>, since its time value is read.
\<close>

definition Value_protoValue :: "value_type_proto option \<Rightarrow> js_value \<Rightarrow> thrown + proto" where
  "Value_protoValue valueType value =
     (case valueType of
        Some VT_BOOLEAN \<Rightarrow> Inr (PMsg ''Value'' [(''boolean'', PValue value)])
      | Some VT_LONG \<Rightarrow> Inr (PMsg ''Value'' [(''long'', PValue value)])
      | Some VT_DOUBLE \<Rightarrow> Inr (PMsg ''Value'' [(''double'', PValue value)])
      | Some VT_STRING \<Rightarrow> Inr (PMsg ''Value'' [(''string'', PValue value)])
      | Some VT_DATETIME \<Rightarrow>
          (case value of
             JDate t \<Rightarrow> Inr (PMsg ''Value'' [(''date_time'', PNumber t)])
           | _ \<Rightarrow> Inl (NativeError ''TypeError'' ''value.getTime is not a function'' None))
      | _ \<Rightarrow> Inl (throw_message BAD_VALUE_TYPE []))"

end
