(* ===== verification/Request_Decoding.thy ===== *)
theory Request_Decoding
  imports Request_Builder
begin

text \<open>
  What a reader of the wire gets back from the request builders. Each family of builders has a type of
  commands, the function that maps a command to the call of its builder, and a reader that finds the
  alternative of the \<open>oneof\<close> a message carries and reads its fields. The readers take the builders back:
  no two commands of the driver are ever the same message, and every argument of a command arrives in
  the field that its alternative reserves for it. Identifiers are given as the bytes the server issued
  and printed as the driver prints them; thing types are given by name, since only role types have scopes.
\<close>

fun p_message :: "proto \<Rightarrow> (string \<times> (string \<times> proto) list) option" where
  "p_message (PMsg c fs) = Some (c, fs)"
| "p_message _ = None"

lemma p_message_opt [simp]:
  "p_message (opt_proto (\<lambda>m. m) (map_option (\<lambda>(c, fs). PMsg c fs) x)) = x"
  by (cases x) auto

lemma label_scoped_eta [simp]: "label_scoped (label_scope l) (label_name l) = l"
  by (simp add: label_scoped_def)

lemma label_name_of [simp]: "label_name (label_of n) = n"
  by (simp add: label_of_def)

section \<open>Commands: logic\<close>

datatype logic_command =
    C_LogicManager_putRule string string string
  | C_LogicManager_getRule string
  | C_LogicManager_getRules
  | C_Rule_setLabel string string
  | C_Rule_delete string

fun logic_request :: "logic_command \<Rightarrow> proto" where
  "logic_request (C_LogicManager_putRule v0 v1 v2) = LogicManager_putRuleReq v0 v1 v2"
| "logic_request (C_LogicManager_getRule v0) = LogicManager_getRuleReq v0"
| "logic_request C_LogicManager_getRules = LogicManager_getRulesReq"
| "logic_request (C_Rule_setLabel v0 v1) = Rule_setLabelReq v0 v1"
| "logic_request (C_Rule_delete v0) = Rule_deleteReq v0"

definition logic_decode :: "proto \<Rightarrow> logic_command option" where
  "logic_decode m =
     (case proto_oneof [''label''] m of
        None \<Rightarrow> None
      | Some (k, x) \<Rightarrow>
          if k = ''put_rule_req'' then
            Some (C_LogicManager_putRule (p_string (proto_get ''label'' x)) (p_string (proto_get ''when'' x)) (p_string (proto_get ''then'' x)))
          else if k = ''get_rule_req'' then
            Some (C_LogicManager_getRule (p_string (proto_get ''label'' x)))
          else if k = ''get_rules_req'' then Some C_LogicManager_getRules
          else if k = ''rule_set_label_req'' then
            Some (C_Rule_setLabel (p_string (proto_get ''label'' m)) (p_string (proto_get ''label'' x)))
          else if k = ''rule_delete_req'' then
            Some (C_Rule_delete (p_string (proto_get ''label'' m)))
          else None)"

lemmas logic_request_defs =
  LogicManager_putRuleReq_def LogicManager_getRuleReq_def LogicManager_getRulesReq_def
  Rule_setLabelReq_def Rule_deleteReq_def

section \<open>Commands: query\<close>

datatype query_command =
    C_QueryManager_define string proto
  | C_QueryManager_undefine string proto
  | C_QueryManager_get string proto
  | C_QueryManager_getAggregate string proto
  | C_QueryManager_getGroup string proto
  | C_QueryManager_getGroupAggregate string proto
  | C_QueryManager_fetch string proto
  | C_QueryManager_insert string proto
  | C_QueryManager_delete string proto
  | C_QueryManager_update string proto
  | C_QueryManager_explain js_number proto

fun query_request :: "query_command \<Rightarrow> proto" where
  "query_request (C_QueryManager_define v0 v1) = QueryManager_defineReq v0 v1"
| "query_request (C_QueryManager_undefine v0 v1) = QueryManager_undefineReq v0 v1"
| "query_request (C_QueryManager_get v0 v1) = QueryManager_getReq v0 v1"
| "query_request (C_QueryManager_getAggregate v0 v1) = QueryManager_getAggregateReq v0 v1"
| "query_request (C_QueryManager_getGroup v0 v1) = QueryManager_getGroupReq v0 v1"
| "query_request (C_QueryManager_getGroupAggregate v0 v1) =
     QueryManager_getGroupAggregateReq v0 v1"
| "query_request (C_QueryManager_fetch v0 v1) = QueryManager_fetchReq v0 v1"
| "query_request (C_QueryManager_insert v0 v1) = QueryManager_insertReq v0 v1"
| "query_request (C_QueryManager_delete v0 v1) = QueryManager_deleteReq v0 v1"
| "query_request (C_QueryManager_update v0 v1) = QueryManager_updateReq v0 v1"
| "query_request (C_QueryManager_explain v0 v1) = QueryManager_explainReq v0 v1"

definition query_decode :: "proto \<Rightarrow> query_command option" where
  "query_decode m =
     (case proto_oneof [''options''] m of
        None \<Rightarrow> None
      | Some (k, x) \<Rightarrow>
          if k = ''define_req'' then
            Some (C_QueryManager_define (p_string (proto_get ''query'' x)) (proto_get ''options'' m))
          else if k = ''undefine_req'' then
            Some (C_QueryManager_undefine (p_string (proto_get ''query'' x)) (proto_get ''options'' m))
          else if k = ''get_req'' then
            Some (C_QueryManager_get (p_string (proto_get ''query'' x)) (proto_get ''options'' m))
          else if k = ''get_aggregate_req'' then
            Some (C_QueryManager_getAggregate (p_string (proto_get ''query'' x)) (proto_get ''options'' m))
          else if k = ''get_group_req'' then
            Some (C_QueryManager_getGroup (p_string (proto_get ''query'' x)) (proto_get ''options'' m))
          else if k = ''get_group_aggregate_req'' then
            Some (C_QueryManager_getGroupAggregate (p_string (proto_get ''query'' x)) (proto_get ''options'' m))
          else if k = ''fetch_req'' then
            Some (C_QueryManager_fetch (p_string (proto_get ''query'' x)) (proto_get ''options'' m))
          else if k = ''insert_req'' then
            Some (C_QueryManager_insert (p_string (proto_get ''query'' x)) (proto_get ''options'' m))
          else if k = ''delete_req'' then
            Some (C_QueryManager_delete (p_string (proto_get ''query'' x)) (proto_get ''options'' m))
          else if k = ''update_req'' then
            Some (C_QueryManager_update (p_string (proto_get ''query'' x)) (proto_get ''options'' m))
          else if k = ''explain_req'' then
            Some (C_QueryManager_explain (p_number (proto_get ''explainable_id'' x)) (proto_get ''options'' m))
          else None)"

lemmas query_request_defs =
  QueryManager_defineReq_def QueryManager_undefineReq_def QueryManager_getReq_def
  QueryManager_getAggregateReq_def QueryManager_getGroupReq_def
  QueryManager_getGroupAggregateReq_def QueryManager_fetchReq_def QueryManager_insertReq_def
  QueryManager_deleteReq_def QueryManager_updateReq_def QueryManager_explainReq_def

section \<open>Commands: concept\<close>

datatype concept_command =
    C_ConceptManager_putEntityType string
  | C_ConceptManager_putRelationType string
  | C_ConceptManager_putAttributeType string "value_type_proto option"
  | C_ConceptManager_getEntityType string
  | C_ConceptManager_getRelationType string
  | C_ConceptManager_getAttributeType string
  | C_ConceptManager_getEntity "byte list"
  | C_ConceptManager_getRelation "byte list"
  | C_ConceptManager_getAttribute "byte list"
  | C_ConceptManager_getSchemaExceptions

fun concept_request :: "concept_command \<Rightarrow> thrown + proto" where
  "concept_request (C_ConceptManager_putEntityType v0) =
     Inr (ConceptManager_putEntityTypeReq v0)"
| "concept_request (C_ConceptManager_putRelationType v0) =
     Inr (ConceptManager_putRelationTypeReq v0)"
| "concept_request (C_ConceptManager_putAttributeType v0 v1) =
     Inr (ConceptManager_putAttributeTypeReq v0 v1)"
| "concept_request (C_ConceptManager_getEntityType v0) =
     Inr (ConceptManager_getEntityTypeReq v0)"
| "concept_request (C_ConceptManager_getRelationType v0) =
     Inr (ConceptManager_getRelationTypeReq v0)"
| "concept_request (C_ConceptManager_getAttributeType v0) =
     Inr (ConceptManager_getAttributeTypeReq v0)"
| "concept_request (C_ConceptManager_getEntity v0) =
     ConceptManager_getEntityReq (bytesToHexString v0)"
| "concept_request (C_ConceptManager_getRelation v0) =
     ConceptManager_getRelationReq (bytesToHexString v0)"
| "concept_request (C_ConceptManager_getAttribute v0) =
     ConceptManager_getAttributeReq (bytesToHexString v0)"
| "concept_request C_ConceptManager_getSchemaExceptions =
     Inr ConceptManager_getSchemaExceptions"

definition concept_decode :: "proto \<Rightarrow> concept_command option" where
  "concept_decode m =
     (case proto_oneof [] m of
        None \<Rightarrow> None
      | Some (k, x) \<Rightarrow>
          if k = ''put_entity_type_req'' then
            Some (C_ConceptManager_putEntityType (p_string (proto_get ''label'' x)))
          else if k = ''put_relation_type_req'' then
            Some (C_ConceptManager_putRelationType (p_string (proto_get ''label'' x)))
          else if k = ''put_attribute_type_req'' then
            Some (C_ConceptManager_putAttributeType (p_string (proto_get ''label'' x)) (p_value_type (proto_get ''value_type'' x)))
          else if k = ''get_entity_type_req'' then
            Some (C_ConceptManager_getEntityType (p_string (proto_get ''label'' x)))
          else if k = ''get_relation_type_req'' then
            Some (C_ConceptManager_getRelationType (p_string (proto_get ''label'' x)))
          else if k = ''get_attribute_type_req'' then
            Some (C_ConceptManager_getAttributeType (p_string (proto_get ''label'' x)))
          else if k = ''get_entity_req'' then
            Some (C_ConceptManager_getEntity (p_bytes (proto_get ''iid'' x)))
          else if k = ''get_relation_req'' then
            Some (C_ConceptManager_getRelation (p_bytes (proto_get ''iid'' x)))
          else if k = ''get_attribute_req'' then
            Some (C_ConceptManager_getAttribute (p_bytes (proto_get ''iid'' x)))
          else if k = ''get_schema_exceptions_req'' then Some C_ConceptManager_getSchemaExceptions
          else None)"

lemmas concept_request_defs =
  ConceptManager_putEntityTypeReq_def ConceptManager_putRelationTypeReq_def
  ConceptManager_putAttributeTypeReq_def ConceptManager_getEntityTypeReq_def
  ConceptManager_getRelationTypeReq_def ConceptManager_getAttributeTypeReq_def
  ConceptManager_getEntityReq_def ConceptManager_getRelationReq_def
  ConceptManager_getAttributeReq_def ConceptManager_getSchemaExceptions_def

section \<open>Commands: role type\<close>

datatype role_type_command =
    C_Type_RoleType_delete label
  | C_Type_RoleType_setLabel label string
  | C_Type_RoleType_getSupertype label
  | C_Type_RoleType_getSupertypes label
  | C_Type_RoleType_getSubtypes label "transitivity_proto option"
  | C_Type_RoleType_getRelationTypes label
  | C_Type_RoleType_getPlayerTypes label "transitivity_proto option"
  | C_Type_RoleType_getRelationInstances label "transitivity_proto option"
  | C_Type_RoleType_getPlayerInstances label "transitivity_proto option"

fun role_type_request :: "role_type_command \<Rightarrow> proto" where
  "role_type_request (C_Type_RoleType_delete v0) = Type_RoleType_deleteReq v0"
| "role_type_request (C_Type_RoleType_setLabel v0 v1) = Type_RoleType_setLabelReq v0 v1"
| "role_type_request (C_Type_RoleType_getSupertype v0) = Type_RoleType_getSupertypeReq v0"
| "role_type_request (C_Type_RoleType_getSupertypes v0) = Type_RoleType_getSupertypesReq v0"
| "role_type_request (C_Type_RoleType_getSubtypes v0 v1) = Type_RoleType_getSubtypesReq v0 v1"
| "role_type_request (C_Type_RoleType_getRelationTypes v0) =
     Type_RoleType_getRelationTypesReq v0"
| "role_type_request (C_Type_RoleType_getPlayerTypes v0 v1) =
     Type_RoleType_getPlayerTypesReq v0 v1"
| "role_type_request (C_Type_RoleType_getRelationInstances v0 v1) =
     Type_RoleType_getRelationInstancesReq v0 v1"
| "role_type_request (C_Type_RoleType_getPlayerInstances v0 v1) =
     Type_RoleType_getPlayerInstancesReq v0 v1"

definition role_type_decode :: "proto \<Rightarrow> role_type_command option" where
  "role_type_decode m =
     (case proto_oneof [''label'', ''scope''] m of
        None \<Rightarrow> None
      | Some (k, x) \<Rightarrow>
          if k = ''role_type_delete_req'' then
            Some (C_Type_RoleType_delete (label_scoped (p_string_opt (proto_get ''scope'' m)) (p_string (proto_get ''label'' m))))
          else if k = ''role_type_set_label_req'' then
            Some (C_Type_RoleType_setLabel (label_scoped (p_string_opt (proto_get ''scope'' m)) (p_string (proto_get ''label'' m))) (p_string (proto_get ''label'' x)))
          else if k = ''role_type_get_supertype_req'' then
            Some (C_Type_RoleType_getSupertype (label_scoped (p_string_opt (proto_get ''scope'' m)) (p_string (proto_get ''label'' m))))
          else if k = ''role_type_get_supertypes_req'' then
            Some (C_Type_RoleType_getSupertypes (label_scoped (p_string_opt (proto_get ''scope'' m)) (p_string (proto_get ''label'' m))))
          else if k = ''role_type_get_subtypes_req'' then
            Some (C_Type_RoleType_getSubtypes (label_scoped (p_string_opt (proto_get ''scope'' m)) (p_string (proto_get ''label'' m))) (p_transitivity (proto_get ''transitivity'' x)))
          else if k = ''role_type_get_relation_types_req'' then
            Some (C_Type_RoleType_getRelationTypes (label_scoped (p_string_opt (proto_get ''scope'' m)) (p_string (proto_get ''label'' m))))
          else if k = ''role_type_get_player_types_req'' then
            Some (C_Type_RoleType_getPlayerTypes (label_scoped (p_string_opt (proto_get ''scope'' m)) (p_string (proto_get ''label'' m))) (p_transitivity (proto_get ''transitivity'' x)))
          else if k = ''role_type_get_relation_instances_req'' then
            Some (C_Type_RoleType_getRelationInstances (label_scoped (p_string_opt (proto_get ''scope'' m)) (p_string (proto_get ''label'' m))) (p_transitivity (proto_get ''transitivity'' x)))
          else if k = ''role_type_get_player_instances_req'' then
            Some (C_Type_RoleType_getPlayerInstances (label_scoped (p_string_opt (proto_get ''scope'' m)) (p_string (proto_get ''label'' m))) (p_transitivity (proto_get ''transitivity'' x)))
          else None)"

lemmas role_type_request_defs =
  Type_RoleType_deleteReq_def Type_RoleType_setLabelReq_def Type_RoleType_getSupertypeReq_def
  Type_RoleType_getSupertypesReq_def Type_RoleType_getSubtypesReq_def
  Type_RoleType_getRelationTypesReq_def Type_RoleType_getPlayerTypesReq_def
  Type_RoleType_getRelationInstancesReq_def Type_RoleType_getPlayerInstancesReq_def

section \<open>Commands: thing type\<close>

datatype thing_type_command =
    C_Type_ThingType_delete string
  | C_Type_ThingType_setLabel string string
  | C_Type_ThingType_setAbstract string
  | C_Type_ThingType_unsetAbstract string
  | C_Type_ThingType_getOwns string "value_type_proto option" "proto list" "transitivity_proto option"
  | C_Type_ThingType_getOwnsOverridden string proto
  | C_Type_ThingType_setOwns string proto "(string \<times> (string \<times> proto) list) option" "proto list"
  | C_Type_ThingType_unsetOwns string proto
  | C_Type_ThingType_getPlays string "transitivity_proto option"
  | C_Type_ThingType_getPlaysOverridden string proto
  | C_Type_ThingType_setPlays string proto "(string \<times> (string \<times> proto) list) option"
  | C_Type_ThingType_unsetPlays string proto
  | C_Type_ThingType_getSyntax string

fun thing_type_request :: "thing_type_command \<Rightarrow> proto" where
  "thing_type_request (C_Type_ThingType_delete v0) = Type_ThingType_deleteReq (label_of v0)"
| "thing_type_request (C_Type_ThingType_setLabel v0 v1) =
     Type_ThingType_setLabelReq (label_of v0) v1"
| "thing_type_request (C_Type_ThingType_setAbstract v0) =
     Type_ThingType_setAbstractReq (label_of v0)"
| "thing_type_request (C_Type_ThingType_unsetAbstract v0) =
     Type_ThingType_unsetAbstractReq (label_of v0)"
| "thing_type_request (C_Type_ThingType_getOwns v0 v1 v2 v3) =
     Type_ThingType_getOwnsReq (label_of v0) v1 v2 v3"
| "thing_type_request (C_Type_ThingType_getOwnsOverridden v0 v1) =
     Type_ThingType_getOwnsOverriddenReq (label_of v0) v1"
| "thing_type_request (C_Type_ThingType_setOwns v0 v1 v2 v3) =
     Type_ThingType_setOwnsReq (label_of v0) v1 (map_option (\<lambda>(c, fs). PMsg c fs) v2) v3"
| "thing_type_request (C_Type_ThingType_unsetOwns v0 v1) =
     Type_ThingType_unsetOwnsReq (label_of v0) v1"
| "thing_type_request (C_Type_ThingType_getPlays v0 v1) =
     Type_ThingType_getPlaysReq (label_of v0) v1"
| "thing_type_request (C_Type_ThingType_getPlaysOverridden v0 v1) =
     Type_ThingType_getPlaysOverriddenReq (label_of v0) v1"
| "thing_type_request (C_Type_ThingType_setPlays v0 v1 v2) =
     Type_ThingType_setPlaysReq (label_of v0) v1 (map_option (\<lambda>(c, fs). PMsg c fs) v2)"
| "thing_type_request (C_Type_ThingType_unsetPlays v0 v1) =
     Type_ThingType_unsetPlaysReq (label_of v0) v1"
| "thing_type_request (C_Type_ThingType_getSyntax v0) =
     Type_ThingType_getSyntaxReq (label_of v0)"

definition thing_type_decode :: "proto \<Rightarrow> thing_type_command option" where
  "thing_type_decode m =
     (case proto_oneof [''label''] m of
        None \<Rightarrow> None
      | Some (k, x) \<Rightarrow>
          if k = ''thing_type_delete_req'' then
            Some (C_Type_ThingType_delete (p_string (proto_get ''label'' m)))
          else if k = ''thing_type_set_label_req'' then
            Some (C_Type_ThingType_setLabel (p_string (proto_get ''label'' m)) (p_string (proto_get ''label'' x)))
          else if k = ''thing_type_set_abstract_req'' then
            Some (C_Type_ThingType_setAbstract (p_string (proto_get ''label'' m)))
          else if k = ''thing_type_unset_abstract_req'' then
            Some (C_Type_ThingType_unsetAbstract (p_string (proto_get ''label'' m)))
          else if k = ''thing_type_get_owns_req'' then
            Some (C_Type_ThingType_getOwns (p_string (proto_get ''label'' m)) (p_value_type (proto_get ''value_type'' x)) (p_list (proto_get ''annotations'' x)) (p_transitivity (proto_get ''transitivity'' x)))
          else if k = ''thing_type_get_owns_overridden_req'' then
            Some (C_Type_ThingType_getOwnsOverridden (p_string (proto_get ''label'' m)) (proto_get ''attribute_type'' x))
          else if k = ''thing_type_set_owns_req'' then
            Some (C_Type_ThingType_setOwns (p_string (proto_get ''label'' m)) (proto_get ''attribute_type'' x) (p_message (proto_get ''overridden_type'' x)) (p_list (proto_get ''annotations'' x)))
          else if k = ''thing_type_unset_owns_req'' then
            Some (C_Type_ThingType_unsetOwns (p_string (proto_get ''label'' m)) (proto_get ''attribute_type'' x))
          else if k = ''thing_type_get_plays_req'' then
            Some (C_Type_ThingType_getPlays (p_string (proto_get ''label'' m)) (p_transitivity (proto_get ''transitivity'' x)))
          else if k = ''thing_type_get_plays_overridden_req'' then
            Some (C_Type_ThingType_getPlaysOverridden (p_string (proto_get ''label'' m)) (proto_get ''role_type'' x))
          else if k = ''thing_type_set_plays_req'' then
            Some (C_Type_ThingType_setPlays (p_string (proto_get ''label'' m)) (proto_get ''role_type'' x) (p_message (proto_get ''overridden_role_type'' x)))
          else if k = ''thing_type_unset_plays_req'' then
            Some (C_Type_ThingType_unsetPlays (p_string (proto_get ''label'' m)) (proto_get ''role_type'' x))
          else if k = ''thing_type_get_syntax_req'' then
            Some (C_Type_ThingType_getSyntax (p_string (proto_get ''label'' m)))
          else None)"

lemmas thing_type_request_defs =
  Type_ThingType_deleteReq_def Type_ThingType_setLabelReq_def Type_ThingType_setAbstractReq_def
  Type_ThingType_unsetAbstractReq_def Type_ThingType_getOwnsReq_def
  Type_ThingType_getOwnsOverriddenReq_def Type_ThingType_setOwnsReq_def
  Type_ThingType_unsetOwnsReq_def Type_ThingType_getPlaysReq_def
  Type_ThingType_getPlaysOverriddenReq_def Type_ThingType_setPlaysReq_def
  Type_ThingType_unsetPlaysReq_def Type_ThingType_getSyntaxReq_def

section \<open>Commands: entity type\<close>

datatype entity_type_command =
    C_Type_EntityType_create string
  | C_Type_EntityType_getSupertype string
  | C_Type_EntityType_setSupertype string proto
  | C_Type_EntityType_getSupertypes string
  | C_Type_EntityType_getSubtypes string "transitivity_proto option"
  | C_Type_EntityType_getInstances string "transitivity_proto option"

fun entity_type_request :: "entity_type_command \<Rightarrow> proto" where
  "entity_type_request (C_Type_EntityType_create v0) = Type_EntityType_createReq (label_of v0)"
| "entity_type_request (C_Type_EntityType_getSupertype v0) =
     Type_EntityType_getSupertypeReq (label_of v0)"
| "entity_type_request (C_Type_EntityType_setSupertype v0 v1) =
     Type_EntityType_setSupertypeReq (label_of v0) v1"
| "entity_type_request (C_Type_EntityType_getSupertypes v0) =
     Type_EntityType_getSupertypesReq (label_of v0)"
| "entity_type_request (C_Type_EntityType_getSubtypes v0 v1) =
     Type_EntityType_getSubtypesReq (label_of v0) v1"
| "entity_type_request (C_Type_EntityType_getInstances v0 v1) =
     Type_EntityType_getInstancesReq (label_of v0) v1"

definition entity_type_decode :: "proto \<Rightarrow> entity_type_command option" where
  "entity_type_decode m =
     (case proto_oneof [''label''] m of
        None \<Rightarrow> None
      | Some (k, x) \<Rightarrow>
          if k = ''entity_type_create_req'' then
            Some (C_Type_EntityType_create (p_string (proto_get ''label'' m)))
          else if k = ''entity_type_get_supertype_req'' then
            Some (C_Type_EntityType_getSupertype (p_string (proto_get ''label'' m)))
          else if k = ''entity_type_set_supertype_req'' then
            Some (C_Type_EntityType_setSupertype (p_string (proto_get ''label'' m)) (proto_get ''entity_type'' x))
          else if k = ''entity_type_get_supertypes_req'' then
            Some (C_Type_EntityType_getSupertypes (p_string (proto_get ''label'' m)))
          else if k = ''entity_type_get_subtypes_req'' then
            Some (C_Type_EntityType_getSubtypes (p_string (proto_get ''label'' m)) (p_transitivity (proto_get ''transitivity'' x)))
          else if k = ''entity_type_get_instances_req'' then
            Some (C_Type_EntityType_getInstances (p_string (proto_get ''label'' m)) (p_transitivity (proto_get ''transitivity'' x)))
          else None)"

lemmas entity_type_request_defs =
  Type_EntityType_createReq_def Type_EntityType_getSupertypeReq_def
  Type_EntityType_setSupertypeReq_def Type_EntityType_getSupertypesReq_def
  Type_EntityType_getSubtypesReq_def Type_EntityType_getInstancesReq_def

section \<open>Commands: relation type\<close>

datatype relation_type_command =
    C_Type_RelationType_create string
  | C_Type_RelationType_getSupertype string
  | C_Type_RelationType_setSupertype string proto
  | C_Type_RelationType_getSupertypes string
  | C_Type_RelationType_getSubtypes string "transitivity_proto option"
  | C_Type_RelationType_getInstances string "transitivity_proto option"
  | C_Type_RelationType_getRelates string "transitivity_proto option"
  | C_Type_RelationType_getRelatesForRoleLabel string string
  | C_Type_RelationType_getRelatesOverridden string string
  | C_Type_RelationType_setRelates string string "string option"
  | C_Type_RelationType_unsetRelates string string

fun relation_type_request :: "relation_type_command \<Rightarrow> proto" where
  "relation_type_request (C_Type_RelationType_create v0) =
     Type_RelationType_createReq (label_of v0)"
| "relation_type_request (C_Type_RelationType_getSupertype v0) =
     Type_RelationType_getSupertypeReq (label_of v0)"
| "relation_type_request (C_Type_RelationType_setSupertype v0 v1) =
     Type_RelationType_setSupertypeReq (label_of v0) v1"
| "relation_type_request (C_Type_RelationType_getSupertypes v0) =
     Type_RelationType_getSupertypesReq (label_of v0)"
| "relation_type_request (C_Type_RelationType_getSubtypes v0 v1) =
     Type_RelationType_getSubtypesReq (label_of v0) v1"
| "relation_type_request (C_Type_RelationType_getInstances v0 v1) =
     Type_RelationType_getInstancesReq (label_of v0) v1"
| "relation_type_request (C_Type_RelationType_getRelates v0 v1) =
     Type_RelationType_getRelatesReq (label_of v0) v1"
| "relation_type_request (C_Type_RelationType_getRelatesForRoleLabel v0 v1) =
     Type_RelationType_getRelatesForRoleLabel (label_of v0) v1"
| "relation_type_request (C_Type_RelationType_getRelatesOverridden v0 v1) =
     Type_RelationType_getRelatesOverriddenReq (label_of v0) v1"
| "relation_type_request (C_Type_RelationType_setRelates v0 v1 v2) =
     Type_RelationType_setRelatesReq (label_of v0) v1 v2"
| "relation_type_request (C_Type_RelationType_unsetRelates v0 v1) =
     Type_RelationType_unsetRelatesReq (label_of v0) v1"

definition relation_type_decode :: "proto \<Rightarrow> relation_type_command option" where
  "relation_type_decode m =
     (case proto_oneof [''label''] m of
        None \<Rightarrow> None
      | Some (k, x) \<Rightarrow>
          if k = ''relation_type_create_req'' then
            Some (C_Type_RelationType_create (p_string (proto_get ''label'' m)))
          else if k = ''relation_type_get_supertype_req'' then
            Some (C_Type_RelationType_getSupertype (p_string (proto_get ''label'' m)))
          else if k = ''relation_type_set_supertype_req'' then
            Some (C_Type_RelationType_setSupertype (p_string (proto_get ''label'' m)) (proto_get ''relation_type'' x))
          else if k = ''relation_type_get_supertypes_req'' then
            Some (C_Type_RelationType_getSupertypes (p_string (proto_get ''label'' m)))
          else if k = ''relation_type_get_subtypes_req'' then
            Some (C_Type_RelationType_getSubtypes (p_string (proto_get ''label'' m)) (p_transitivity (proto_get ''transitivity'' x)))
          else if k = ''relation_type_get_instances_req'' then
            Some (C_Type_RelationType_getInstances (p_string (proto_get ''label'' m)) (p_transitivity (proto_get ''transitivity'' x)))
          else if k = ''relation_type_get_relates_req'' then
            Some (C_Type_RelationType_getRelates (p_string (proto_get ''label'' m)) (p_transitivity (proto_get ''transitivity'' x)))
          else if k = ''relation_type_get_relates_for_role_label_req'' then
            Some (C_Type_RelationType_getRelatesForRoleLabel (p_string (proto_get ''label'' m)) (p_string (proto_get ''label'' x)))
          else if k = ''relation_type_get_relates_overridden_req'' then
            Some (C_Type_RelationType_getRelatesOverridden (p_string (proto_get ''label'' m)) (p_string (proto_get ''label'' x)))
          else if k = ''relation_type_set_relates_req'' then
            Some (C_Type_RelationType_setRelates (p_string (proto_get ''label'' m)) (p_string (proto_get ''label'' x)) (p_string_opt (proto_get ''overridden_label'' x)))
          else if k = ''relation_type_unset_relates_req'' then
            Some (C_Type_RelationType_unsetRelates (p_string (proto_get ''label'' m)) (p_string (proto_get ''label'' x)))
          else None)"

lemmas relation_type_request_defs =
  Type_RelationType_createReq_def Type_RelationType_getSupertypeReq_def
  Type_RelationType_setSupertypeReq_def Type_RelationType_getSupertypesReq_def
  Type_RelationType_getSubtypesReq_def Type_RelationType_getInstancesReq_def
  Type_RelationType_getRelatesReq_def Type_RelationType_getRelatesForRoleLabel_def
  Type_RelationType_getRelatesOverriddenReq_def Type_RelationType_setRelatesReq_def
  Type_RelationType_unsetRelatesReq_def

section \<open>Commands: attribute type\<close>

datatype attribute_type_command =
    C_Type_AttributeType_put string proto
  | C_Type_AttributeType_get string proto
  | C_Type_AttributeType_getSupertype string
  | C_Type_AttributeType_setSupertype string proto
  | C_Type_AttributeType_getSupertypes string
  | C_Type_AttributeType_getSubtypes string "transitivity_proto option" "value_type_proto option"
  | C_Type_AttributeType_getInstances string "transitivity_proto option"
  | C_Type_AttributeType_getRegex string
  | C_Type_AttributeType_setRegex string string
  | C_Type_AttributeType_getOwners string "transitivity_proto option" "proto list"

fun attribute_type_request :: "attribute_type_command \<Rightarrow> proto" where
  "attribute_type_request (C_Type_AttributeType_put v0 v1) =
     Type_AttributeType_putReq (label_of v0) v1"
| "attribute_type_request (C_Type_AttributeType_get v0 v1) =
     Type_AttributeType_getReq (label_of v0) v1"
| "attribute_type_request (C_Type_AttributeType_getSupertype v0) =
     Type_AttributeType_getSupertypeReq (label_of v0)"
| "attribute_type_request (C_Type_AttributeType_setSupertype v0 v1) =
     Type_AttributeType_setSupertypeReq (label_of v0) v1"
| "attribute_type_request (C_Type_AttributeType_getSupertypes v0) =
     Type_AttributeType_getSupertypesReq (label_of v0)"
| "attribute_type_request (C_Type_AttributeType_getSubtypes v0 v1 v2) =
     Type_AttributeType_getSubtypesReq (label_of v0) v1 v2"
| "attribute_type_request (C_Type_AttributeType_getInstances v0 v1) =
     Type_AttributeType_getInstancesReq (label_of v0) v1"
| "attribute_type_request (C_Type_AttributeType_getRegex v0) =
     Type_AttributeType_getRegexReq (label_of v0)"
| "attribute_type_request (C_Type_AttributeType_setRegex v0 v1) =
     Type_AttributeType_setRegexReq (label_of v0) v1"
| "attribute_type_request (C_Type_AttributeType_getOwners v0 v1 v2) =
     Type_AttributeType_getOwnersReq (label_of v0) v1 v2"

definition attribute_type_decode :: "proto \<Rightarrow> attribute_type_command option" where
  "attribute_type_decode m =
     (case proto_oneof [''label''] m of
        None \<Rightarrow> None
      | Some (k, x) \<Rightarrow>
          if k = ''attribute_type_put_req'' then
            Some (C_Type_AttributeType_put (p_string (proto_get ''label'' m)) (proto_get ''value'' x))
          else if k = ''attribute_type_get_req'' then
            Some (C_Type_AttributeType_get (p_string (proto_get ''label'' m)) (proto_get ''value'' x))
          else if k = ''attribute_type_get_supertype_req'' then
            Some (C_Type_AttributeType_getSupertype (p_string (proto_get ''label'' m)))
          else if k = ''attribute_type_set_supertype_req'' then
            Some (C_Type_AttributeType_setSupertype (p_string (proto_get ''label'' m)) (proto_get ''attribute_type'' x))
          else if k = ''attribute_type_get_supertypes_req'' then
            Some (C_Type_AttributeType_getSupertypes (p_string (proto_get ''label'' m)))
          else if k = ''attribute_type_get_subtypes_req'' then
            Some (C_Type_AttributeType_getSubtypes (p_string (proto_get ''label'' m)) (p_transitivity (proto_get ''transitivity'' x)) (p_value_type (proto_get ''value_type'' x)))
          else if k = ''attribute_type_get_instances_req'' then
            Some (C_Type_AttributeType_getInstances (p_string (proto_get ''label'' m)) (p_transitivity (proto_get ''transitivity'' x)))
          else if k = ''attribute_type_get_regex_req'' then
            Some (C_Type_AttributeType_getRegex (p_string (proto_get ''label'' m)))
          else if k = ''attribute_type_set_regex_req'' then
            Some (C_Type_AttributeType_setRegex (p_string (proto_get ''label'' m)) (p_string (proto_get ''regex'' x)))
          else if k = ''attribute_type_get_owners_req'' then
            Some (C_Type_AttributeType_getOwners (p_string (proto_get ''label'' m)) (p_transitivity (proto_get ''transitivity'' x)) (p_list (proto_get ''annotations'' x)))
          else None)"

lemmas attribute_type_request_defs =
  Type_AttributeType_putReq_def Type_AttributeType_getReq_def
  Type_AttributeType_getSupertypeReq_def Type_AttributeType_setSupertypeReq_def
  Type_AttributeType_getSupertypesReq_def Type_AttributeType_getSubtypesReq_def
  Type_AttributeType_getInstancesReq_def Type_AttributeType_getRegexReq_def
  Type_AttributeType_setRegexReq_def Type_AttributeType_getOwnersReq_def

section \<open>Commands: thing\<close>

datatype thing_command =
    C_Thing_getHas "byte list" "proto list" "proto list"
  | C_Thing_setHas "byte list" proto
  | C_Thing_unsetHas "byte list" proto
  | C_Thing_getPlaying "byte list"
  | C_Thing_getRelations "byte list" "proto list"
  | C_Thing_delete "byte list"
  | C_Thing_Relation_addRolePlayer "byte list" proto proto
  | C_Thing_Relation_removeRolePlayer "byte list" proto proto
  | C_Thing_Relation_getPlayersByRoleType "byte list" "proto list"
  | C_Thing_Relation_getRolePlayers "byte list"
  | C_Thing_Relation_getRelating "byte list"
  | C_Thing_Attribute_getOwners "byte list" "(string \<times> (string \<times> proto) list) option"

fun thing_request :: "thing_command \<Rightarrow> thrown + proto" where
  "thing_request (C_Thing_getHas v0 v1 v2) = Thing_getHasReq (bytesToHexString v0) v1 v2"
| "thing_request (C_Thing_setHas v0 v1) = Thing_setHasReq (bytesToHexString v0) v1"
| "thing_request (C_Thing_unsetHas v0 v1) = Thing_unsetHasReq (bytesToHexString v0) v1"
| "thing_request (C_Thing_getPlaying v0) = Thing_getPlayingReq (bytesToHexString v0)"
| "thing_request (C_Thing_getRelations v0 v1) = Thing_getRelationsReq (bytesToHexString v0) v1"
| "thing_request (C_Thing_delete v0) = Thing_deleteReq (bytesToHexString v0)"
| "thing_request (C_Thing_Relation_addRolePlayer v0 v1 v2) =
     Thing_Relation_addRolePlayerReq (bytesToHexString v0) v1 v2"
| "thing_request (C_Thing_Relation_removeRolePlayer v0 v1 v2) =
     Thing_Relation_removeRolePlayerReq (bytesToHexString v0) v1 v2"
| "thing_request (C_Thing_Relation_getPlayersByRoleType v0 v1) =
     Thing_Relation_getPlayersByRoleTypeReq (bytesToHexString v0) v1"
| "thing_request (C_Thing_Relation_getRolePlayers v0) =
     Thing_Relation_getRolePlayersReq (bytesToHexString v0)"
| "thing_request (C_Thing_Relation_getRelating v0) =
     Thing_Relation_getRelatingReq (bytesToHexString v0)"
| "thing_request (C_Thing_Attribute_getOwners v0 v1) =
     Thing_Attribute_getOwnersReq (bytesToHexString v0) (map_option (\<lambda>(c, fs). PMsg c fs) v1)"

definition thing_decode :: "proto \<Rightarrow> thing_command option" where
  "thing_decode m =
     (case proto_oneof [''iid''] m of
        None \<Rightarrow> None
      | Some (k, x) \<Rightarrow>
          if k = ''thing_get_has_req'' then
            Some (C_Thing_getHas (p_bytes (proto_get ''iid'' m)) (p_list (proto_get ''attribute_types'' x)) (p_list (proto_get ''annotations'' x)))
          else if k = ''thing_set_has_req'' then
            Some (C_Thing_setHas (p_bytes (proto_get ''iid'' m)) (proto_get ''attribute'' x))
          else if k = ''thing_unset_has_req'' then
            Some (C_Thing_unsetHas (p_bytes (proto_get ''iid'' m)) (proto_get ''attribute'' x))
          else if k = ''thing_get_playing_req'' then
            Some (C_Thing_getPlaying (p_bytes (proto_get ''iid'' m)))
          else if k = ''thing_get_relations_req'' then
            Some (C_Thing_getRelations (p_bytes (proto_get ''iid'' m)) (p_list (proto_get ''role_types'' x)))
          else if k = ''thing_delete_req'' then
            Some (C_Thing_delete (p_bytes (proto_get ''iid'' m)))
          else if k = ''relation_add_role_player_req'' then
            Some (C_Thing_Relation_addRolePlayer (p_bytes (proto_get ''iid'' m)) (proto_get ''role_type'' (proto_get ''role_player'' x)) (proto_get ''player'' (proto_get ''role_player'' x)))
          else if k = ''relation_remove_role_player_req'' then
            Some (C_Thing_Relation_removeRolePlayer (p_bytes (proto_get ''iid'' m)) (proto_get ''role_type'' (proto_get ''role_player'' x)) (proto_get ''player'' (proto_get ''role_player'' x)))
          else if k = ''relation_get_players_by_role_type_req'' then
            Some (C_Thing_Relation_getPlayersByRoleType (p_bytes (proto_get ''iid'' m)) (p_list (proto_get ''role_types'' x)))
          else if k = ''relation_get_role_players_req'' then
            Some (C_Thing_Relation_getRolePlayers (p_bytes (proto_get ''iid'' m)))
          else if k = ''relation_get_relating_req'' then
            Some (C_Thing_Relation_getRelating (p_bytes (proto_get ''iid'' m)))
          else if k = ''attribute_get_owners_req'' then
            Some (C_Thing_Attribute_getOwners (p_bytes (proto_get ''iid'' m)) (p_message (proto_get ''thing_type'' x)))
          else None)"

lemmas thing_request_defs =
  Thing_getHasReq_def Thing_setHasReq_def Thing_unsetHasReq_def Thing_getPlayingReq_def
  Thing_getRelationsReq_def Thing_deleteReq_def Thing_Relation_addRolePlayerReq_def
  Thing_Relation_removeRolePlayerReq_def Thing_Relation_getPlayersByRoleTypeReq_def
  Thing_Relation_getRolePlayersReq_def Thing_Relation_getRelatingReq_def
  Thing_Attribute_getOwnersReq_def

section \<open>Each reader takes its builders back\<close>

lemma logic_request_decode:
  "\<exists>k m. logic_request c = PMsg ''TransactionReq'' [(k, m)] \<and> k \<in> {''logic_manager_req'', ''rule_req''}
     \<and> logic_decode m = Some c"
  by (cases c) (simp_all add: logic_decode_def logic_request_defs LogicManager_logicManagerReq_def
    Rule_ruleReq_def proto_oneof_def)

lemma query_request_decode:
  "\<exists>m. query_request c = PMsg ''TransactionReq'' [(''query_manager_req'', m)] \<and> query_decode m = Some c"
  by (cases c) (simp_all add: query_decode_def query_request_defs QueryManager_queryManagerReq_def proto_oneof_def)

lemma concept_request_decode:
  "\<exists>m. concept_request c = Inr (PMsg ''TransactionReq'' [(''concept_manager_req'', m)]) \<and> concept_decode m = Some c"
  by (cases c) (simp_all add: concept_decode_def concept_request_defs ConceptManager_conceptManagerReq_def proto_oneof_def)

lemma role_type_request_decode:
  "\<exists>m. role_type_request c = PMsg ''TransactionReq'' [(''type_req'', PMsg ''TypeReq'' [(''role_type_req'', m)])] \<and> role_type_decode m = Some c"
  by (cases c) (simp_all add: role_type_decode_def role_type_request_defs Type_RoleType_roleTypeReq_def Type_RoleType_newReqBuilder_def proto_oneof_def)

lemma thing_request_decode:
  "\<exists>m. thing_request c = Inr (PMsg ''TransactionReq'' [(''thing_req'', m)]) \<and> thing_decode m = Some c"
  by (cases c) (simp_all add: thing_decode_def thing_request_defs Thing_thingReq_def Thing_Relation_protoRolePlayer_def proto_oneof_def)

lemma thing_type_request_decode:
  "\<exists>m. thing_type_request c = PMsg ''TransactionReq'' [(''type_req'', PMsg ''TypeReq'' [(''thing_type_req'', m)])]
     \<and> thing_type_decode m = Some c"
  by (cases c) (simp_all add: thing_type_decode_def thing_type_request_defs Type_thingTypeReq_def proto_oneof_def)

lemma entity_type_request_decode:
  "\<exists>m. entity_type_request c = PMsg ''TransactionReq'' [(''type_req'', PMsg ''TypeReq'' [(''thing_type_req'', m)])]
     \<and> entity_type_decode m = Some c \<and> thing_type_decode m = None"
  by (cases c) (simp_all add: thing_type_decode_def entity_type_decode_def entity_type_request_defs Type_thingTypeReq_def proto_oneof_def)

lemma relation_type_request_decode:
  "\<exists>m. relation_type_request c = PMsg ''TransactionReq'' [(''type_req'', PMsg ''TypeReq'' [(''thing_type_req'', m)])]
     \<and> relation_type_decode m = Some c \<and> thing_type_decode m = None \<and> entity_type_decode m = None"
  by (cases c) (simp_all add: thing_type_decode_def entity_type_decode_def relation_type_decode_def relation_type_request_defs Type_thingTypeReq_def proto_oneof_def)

lemma attribute_type_request_decode:
  "\<exists>m. attribute_type_request c = PMsg ''TransactionReq'' [(''type_req'', PMsg ''TypeReq'' [(''thing_type_req'', m)])]
     \<and> attribute_type_decode m = Some c \<and> thing_type_decode m = None \<and> entity_type_decode m = None \<and> relation_type_decode m = None"
  by (cases c) (simp_all add: thing_type_decode_def entity_type_decode_def relation_type_decode_def attribute_type_decode_def attribute_type_request_defs Type_thingTypeReq_def proto_oneof_def)

section \<open>All commands of a transaction\<close>

datatype command =
    Commit
  | Rollback
  | Logic logic_command
  | Query query_command
  | ConceptMgr concept_command
  | RoleTypeCmd role_type_command
  | ThingTypeCmd thing_type_command
  | EntityTypeCmd entity_type_command
  | RelationTypeCmd relation_type_command
  | AttributeTypeCmd attribute_type_command
  | ThingCmd thing_command

fun command_request :: "command \<Rightarrow> thrown + proto" where
  "command_request Commit = Inr Transaction_commitReq"
| "command_request Rollback = Inr Transaction_rollbackReq"
| "command_request (Logic c) = Inr (logic_request c)"
| "command_request (Query c) = Inr (query_request c)"
| "command_request (ConceptMgr c) = concept_request c"
| "command_request (RoleTypeCmd c) = Inr (role_type_request c)"
| "command_request (ThingTypeCmd c) = Inr (thing_type_request c)"
| "command_request (EntityTypeCmd c) = Inr (entity_type_request c)"
| "command_request (RelationTypeCmd c) = Inr (relation_type_request c)"
| "command_request (AttributeTypeCmd c) = Inr (attribute_type_request c)"
| "command_request (ThingCmd c) = thing_request c"

definition thing_types_decode :: "proto \<Rightarrow> command option" where
  "thing_types_decode m =
     (case thing_type_decode m of
        Some c \<Rightarrow> Some (ThingTypeCmd c)
      | None \<Rightarrow>
        (case entity_type_decode m of
           Some c \<Rightarrow> Some (EntityTypeCmd c)
         | None \<Rightarrow>
           (case relation_type_decode m of
              Some c \<Rightarrow> Some (RelationTypeCmd c)
            | None \<Rightarrow> map_option AttributeTypeCmd (attribute_type_decode m))))"

definition decode_request :: "proto \<Rightarrow> command option" where
  "decode_request r =
     (case proto_oneof [''req_id''] r of
        None \<Rightarrow> None
      | Some (k, m) \<Rightarrow>
          if k = ''commit_req'' then Some Commit
          else if k = ''rollback_req'' then Some Rollback
          else if k = ''logic_manager_req'' \<or> k = ''rule_req'' then map_option Logic (logic_decode m)
          else if k = ''query_manager_req'' then map_option Query (query_decode m)
          else if k = ''concept_manager_req'' then map_option ConceptMgr (concept_decode m)
          else if k = ''thing_req'' then map_option ThingCmd (thing_decode m)
          else if k = ''type_req'' then
            (case proto_oneof [] m of
               None \<Rightarrow> None
             | Some (j, x) \<Rightarrow>
                 if j = ''role_type_req'' then map_option RoleTypeCmd (role_type_decode x)
                 else if j = ''thing_type_req'' then thing_types_decode x
                 else None)
          else None)"

text \<open>
  Every request of a transaction is a \<open>TransactionReq\<close> with one alternative, which the reader maps
  back to the command.
\<close>

lemma decode_request_simps:
  "decode_request (PMsg c [(''logic_manager_req'', m)]) = map_option Logic (logic_decode m)"
  "decode_request (PMsg c [(''rule_req'', m)]) = map_option Logic (logic_decode m)"
  "decode_request (PMsg c [(''query_manager_req'', m)]) = map_option Query (query_decode m)"
  "decode_request (PMsg c [(''concept_manager_req'', m)]) = map_option ConceptMgr (concept_decode m)"
  "decode_request (PMsg c [(''thing_req'', m)]) = map_option ThingCmd (thing_decode m)"
  "decode_request (PMsg c [(''type_req'', PMsg d [(''role_type_req'', m)])]) =
     map_option RoleTypeCmd (role_type_decode m)"
  "decode_request (PMsg c [(''type_req'', PMsg d [(''thing_type_req'', m)])]) = thing_types_decode m"
  by (simp_all add: decode_request_def proto_oneof_def)

lemma command_request_decode:
  "\<exists>k m. command_request c = Inr (PMsg ''TransactionReq'' [(k, m)]) \<and> k \<noteq> ''req_id''
     \<and> decode_request (PMsg ''TransactionReq'' [(k, m)]) = Some c"
proof (cases c)
  case (Logic d)
  then show ?thesis using logic_request_decode [of d] by (fastforce simp: decode_request_simps)
next
  case (Query d)
  then show ?thesis using query_request_decode [of d] by (force simp: decode_request_simps)
next
  case (ConceptMgr d)
  then show ?thesis using concept_request_decode [of d] by (force simp: decode_request_simps)
next
  case (RoleTypeCmd d)
  then show ?thesis using role_type_request_decode [of d] by (force simp: decode_request_simps)
next
  case (ThingTypeCmd d)
  then show ?thesis using thing_type_request_decode [of d]
    by (force simp: decode_request_simps thing_types_decode_def)
next
  case (EntityTypeCmd d)
  then show ?thesis using entity_type_request_decode [of d]
    by (force simp: decode_request_simps thing_types_decode_def)
next
  case (RelationTypeCmd d)
  then show ?thesis using relation_type_request_decode [of d]
    by (force simp: decode_request_simps thing_types_decode_def)
next
  case (AttributeTypeCmd d)
  then show ?thesis using attribute_type_request_decode [of d]
    by (force simp: decode_request_simps thing_types_decode_def)
next
  case (ThingCmd d)
  then show ?thesis using thing_request_decode [of d] by (force simp: decode_request_simps)
qed (simp_all add: decode_request_def proto_oneof_def Transaction_commitReq_def Transaction_rollbackReq_def)

text \<open>
  C10. Request building loses nothing and never confuses two commands: building the request of any command of
  a transaction succeeds, and the message, as built and also after the request id is set on it, is read
  back as exactly that command with all its arguments.
\<close>

theorem request_roundtrip:
  "\<exists>m. command_request c = Inr m \<and> decode_request m = Some c
     \<and> decode_request (proto_set ''req_id'' (PBytes rid) m) = Some c"
proof -
  obtain k m where b: "command_request c = Inr (PMsg ''TransactionReq'' [(k, m)])"
    and k: "k \<noteq> ''req_id''" and d: "decode_request (PMsg ''TransactionReq'' [(k, m)]) = Some c"
    using command_request_decode by blast
  have "proto_oneof [''req_id''] (PMsg ''TransactionReq'' [(k, m), (''req_id'', PBytes rid)])
      = proto_oneof [''req_id''] (PMsg ''TransactionReq'' [(k, m)])"
    using k by (simp add: proto_oneof_def)
  then have "decode_request (proto_set ''req_id'' (PBytes rid) (PMsg ''TransactionReq'' [(k, m)])) = Some c"
    using d k by (simp add: decode_request_def)
  with b d show ?thesis by blast
qed

end
