(* ===== verification/Stub_Model.thy ===== *)
theory Stub_Model
  imports Request_Builder
begin

text \<open>
  The RPC stubs of \<open>common/rpc/TypeDBStub.ts\<close> and \<open>connection/TypeDBStubImpl.ts\<close> and the credentials of
  \<open>api/connection/TypeDBCredential.ts\<close>. A stub is an object with an access token that changes; stubs live in
  a store and are named by numbers. The gRPC client is outside the repository: \<open>env_rpc\<close> is what a unary
  call does to the rest of the world, given the address, the method, the metadata of the call and the
  request. The record \<open>env\<close> also has the file system, the passing of time and the protocol version.
  What is printed to the console is left out.

  States are records that later theories extend, so that every operation of a stub is also an operation of
  a driver.
\<close>

section \<open>The world outside\<close>

type_synonym metadata = "(string \<times> string) list"

record 'w env =
  env_rpc :: "string \<Rightarrow> string \<Rightarrow> metadata \<Rightarrow> proto \<Rightarrow> 'w \<Rightarrow> (service_error + proto) \<times> 'w"
  env_sleep :: "nat \<Rightarrow> 'w \<Rightarrow> 'w"
  env_readFile :: "string \<Rightarrow> thrown + string"
  env_version :: proto

section \<open>Credentials\<close>

record credential =
  cr_username :: string
  cr_password :: string
  cr_tlsRootCAPath :: "string option"

definition credential_new :: "(string \<Rightarrow> bool) \<Rightarrow> string \<Rightarrow> string \<Rightarrow> string option \<Rightarrow> thrown + credential" where
  "credential_new existsSync username password tlsRootCAPath =
     (case tlsRootCAPath of
        Some path \<Rightarrow>
          if \<not> existsSync path then Inl (throw_message CLOUD_INVALID_ROOT_CA_PATH [path])
          else Inr \<lparr>cr_username = username, cr_password = password, cr_tlsRootCAPath = Some path\<rparr>
      | None \<Rightarrow> Inr \<lparr>cr_username = username, cr_password = password, cr_tlsRootCAPath = None\<rparr>)"

section \<open>Stubs\<close>

text \<open>The channel: plain, or encrypted with a root certificate if one is given.\<close>

datatype channel = Insecure | Ssl "string option"

record stub =
  st_address :: string
  st_credential :: "credential option"
  st_channel :: channel
  st_token :: "string option"
  st_closed :: bool

record 'w net =
  net_stubs :: "nat \<Rightarrow> stub"
  net_count :: nat
  net_world :: 'w

type_synonym ('w, 'z, 'a) net_io = "(('w, 'z) net_scheme, thrown, 'a) io"

definition createChannelCredentials :: "'w env \<Rightarrow> credential \<Rightarrow> thrown + channel" where
  "createChannelCredentials env c =
     (case cr_tlsRootCAPath c of
        Some path \<Rightarrow> map_sum id (\<lambda>rootCert. Ssl (Some rootCert)) (env_readFile env path)
      | None \<Rightarrow> Inr (Ssl None))"

definition stub_new :: "'w env \<Rightarrow> string \<Rightarrow> credential option \<Rightarrow> ('w, 'z, nat) net_io" where
  "stub_new env address credential s =
     (case (case credential of Some c \<Rightarrow> createChannelCredentials env c | None \<Rightarrow> Inr Insecure) of
        Inl e \<Rightarrow> (Inl e, s)
      | Inr ch \<Rightarrow>
          (Inr (net_count s),
           s\<lparr>net_stubs := (net_stubs s)(net_count s :=
                \<lparr>st_address = address, st_credential = credential, st_channel = ch, st_token = None,
                 st_closed = False\<rparr>),
             net_count := Suc (net_count s)\<rparr>))"

text \<open>The metadata generator: the user name, with the password until there is a token.\<close>

definition createCallCredentials :: "stub \<Rightarrow> metadata" where
  "createCallCredentials st =
     (case st_credential st of
        None \<Rightarrow> []
      | Some c \<Rightarrow>
          (''username'', cr_username c) #
          (case st_token st of
             None \<Rightarrow> [(''password'', cr_password c)]
           | Some token \<Rightarrow> [(''token'', token)]))"

text \<open>A unary call whose callback rejects with the gRPC error itself, and one that wraps it.\<close>

definition call_raw :: "'w env \<Rightarrow> nat \<Rightarrow> string \<Rightarrow> proto \<Rightarrow> (proto \<Rightarrow> 'a) \<Rightarrow> ('w, 'z, 'a) net_io" where
  "call_raw env i method req f s =
     (case env_rpc env (st_address (net_stubs s i)) method (createCallCredentials (net_stubs s i)) req (net_world s) of
        (Inl err, w) \<Rightarrow> (Inl (GrpcError err), s\<lparr>net_world := w\<rparr>)
      | (Inr res, w) \<Rightarrow> (Inr (f res), s\<lparr>net_world := w\<rparr>))"

definition call_wrapped :: "'w env \<Rightarrow> nat \<Rightarrow> string \<Rightarrow> proto \<Rightarrow> (proto \<Rightarrow> 'a) \<Rightarrow> ('w, 'z, 'a) net_io" where
  "call_wrapped env i method req f =
     io_catch (call_raw env i method req f) (\<lambda>err. io_throw (typedb_driver_error (ArgError err)))"

definition userToken :: "'w env \<Rightarrow> nat \<Rightarrow> proto \<Rightarrow> ('w, 'z, string) net_io" where
  "userToken env i req = call_raw env i ''user_token'' req (\<lambda>res. p_string (proto_get ''token'' res))"

definition set_token :: "nat \<Rightarrow> string option \<Rightarrow> ('w, 'z, unit) net_io" where
  "set_token i t = io_update (\<lambda>s. s\<lparr>net_stubs := (net_stubs s)(i := (net_stubs s i)\<lparr>st_token := t\<rparr>)\<rparr>)"

definition mayRenewToken :: "'w env \<Rightarrow> nat \<Rightarrow> ('w, 'z, 'a) net_io \<Rightarrow> ('w, 'z, 'a) net_io" where
  "mayRenewToken env i fn =
     io_catch fn (\<lambda>e.
       io_bind (io_gets (\<lambda>s. st_credential (net_stubs s i))) (\<lambda>credential.
       case credential of
         None \<Rightarrow> io_throw e
       | Some c \<Rightarrow>
           if has_template CLOUD_TOKEN_CREDENTIAL_INVALID e then
             io_bind (set_token i None) (\<lambda>_.
             io_bind (userToken env i (User_tokenReq (cr_username c))) (\<lambda>token.
             io_bind (set_token i (Some token)) (\<lambda>_.
             io_catch fn (\<lambda>e2.
               if isServiceError e2 then io_throw (typedb_driver_error (ArgError e2)) else io_throw e2))))
           else io_throw e))"

definition connectionOpen :: "'w env \<Rightarrow> nat \<Rightarrow> proto \<Rightarrow> ('w, 'z, unit) net_io" where
  "connectionOpen env i req = mayRenewToken env i (call_wrapped env i ''connection_open'' req (\<lambda>_. ()))"

definition serversAll :: "'w env \<Rightarrow> nat \<Rightarrow> proto \<Rightarrow> ('w, 'z, proto) net_io" where
  "serversAll env i req = mayRenewToken env i (call_wrapped env i ''servers_all'' req (\<lambda>res. res))"

definition databasesCreate :: "'w env \<Rightarrow> nat \<Rightarrow> proto \<Rightarrow> ('w, 'z, unit) net_io" where
  "databasesCreate env i req = mayRenewToken env i (call_wrapped env i ''databases_create'' req (\<lambda>_. ()))"

definition databasesContains :: "'w env \<Rightarrow> nat \<Rightarrow> proto \<Rightarrow> ('w, 'z, bool) net_io" where
  "databasesContains env i req = mayRenewToken env i (call_wrapped env i ''databases_contains'' req (\<lambda>res. p_bool (proto_get ''contains'' res)))"

definition databasesGet :: "'w env \<Rightarrow> nat \<Rightarrow> proto \<Rightarrow> ('w, 'z, proto) net_io" where
  "databasesGet env i req = mayRenewToken env i (call_wrapped env i ''databases_get'' req (\<lambda>res. res))"

definition databasesAll :: "'w env \<Rightarrow> nat \<Rightarrow> proto \<Rightarrow> ('w, 'z, proto) net_io" where
  "databasesAll env i req = mayRenewToken env i (call_wrapped env i ''databases_all'' req (\<lambda>res. res))"

definition databaseDelete :: "'w env \<Rightarrow> nat \<Rightarrow> proto \<Rightarrow> ('w, 'z, unit) net_io" where
  "databaseDelete env i req = mayRenewToken env i (call_raw env i ''database_delete'' req (\<lambda>_. ()))"

definition databaseSchema :: "'w env \<Rightarrow> nat \<Rightarrow> proto \<Rightarrow> ('w, 'z, string) net_io" where
  "databaseSchema env i req = mayRenewToken env i (call_raw env i ''database_schema'' req (\<lambda>res. p_string (proto_get ''schema'' res)))"

definition databaseTypeSchema :: "'w env \<Rightarrow> nat \<Rightarrow> proto \<Rightarrow> ('w, 'z, string) net_io" where
  "databaseTypeSchema env i req = mayRenewToken env i (call_raw env i ''database_type_schema'' req (\<lambda>res. p_string (proto_get ''schema'' res)))"

definition databaseRuleSchema :: "'w env \<Rightarrow> nat \<Rightarrow> proto \<Rightarrow> ('w, 'z, string) net_io" where
  "databaseRuleSchema env i req = mayRenewToken env i (call_raw env i ''database_rule_schema'' req (\<lambda>res. p_string (proto_get ''schema'' res)))"

definition sessionOpen :: "'w env \<Rightarrow> nat \<Rightarrow> proto \<Rightarrow> ('w, 'z, proto) net_io" where
  "sessionOpen env i req = call_wrapped env i ''session_open'' req (\<lambda>res. res)"

definition sessionPulse :: "'w env \<Rightarrow> nat \<Rightarrow> proto \<Rightarrow> ('w, 'z, bool) net_io" where
  "sessionPulse env i req = call_raw env i ''session_pulse'' req (\<lambda>res. p_bool (proto_get ''alive'' res))"

definition usersAll :: "'w env \<Rightarrow> nat \<Rightarrow> proto \<Rightarrow> ('w, 'z, proto) net_io" where
  "usersAll env i req = mayRenewToken env i (call_wrapped env i ''users_all'' req (\<lambda>res. res))"

definition usersContains :: "'w env \<Rightarrow> nat \<Rightarrow> proto \<Rightarrow> ('w, 'z, bool) net_io" where
  "usersContains env i req = mayRenewToken env i (call_wrapped env i ''users_contains'' req (\<lambda>res. p_bool (proto_get ''contains'' res)))"

definition usersCreate :: "'w env \<Rightarrow> nat \<Rightarrow> proto \<Rightarrow> ('w, 'z, unit) net_io" where
  "usersCreate env i req = mayRenewToken env i (call_wrapped env i ''users_create'' req (\<lambda>_. ()))"

definition usersDelete :: "'w env \<Rightarrow> nat \<Rightarrow> proto \<Rightarrow> ('w, 'z, unit) net_io" where
  "usersDelete env i req = mayRenewToken env i (call_wrapped env i ''users_delete'' req (\<lambda>_. ()))"

definition usersPasswordSet :: "'w env \<Rightarrow> nat \<Rightarrow> proto \<Rightarrow> ('w, 'z, unit) net_io" where
  "usersPasswordSet env i req = mayRenewToken env i (call_wrapped env i ''users_password_set'' req (\<lambda>_. ()))"

definition usersGet :: "'w env \<Rightarrow> nat \<Rightarrow> proto \<Rightarrow> ('w, 'z, proto) net_io" where
  "usersGet env i req = mayRenewToken env i (call_wrapped env i ''users_get'' req (\<lambda>res. res))"

definition userPasswordUpdate :: "'w env \<Rightarrow> nat \<Rightarrow> proto \<Rightarrow> ('w, 'z, unit) net_io" where
  "userPasswordUpdate env i req = mayRenewToken env i (call_wrapped env i ''user_password_update'' req (\<lambda>_. ()))"

text \<open>Closing a session never fails: an error is printed and the promise resolves.\<close>

definition sessionClose :: "'w env \<Rightarrow> nat \<Rightarrow> proto \<Rightarrow> ('w, 'z, unit) net_io" where
  "sessionClose env i req =
     io_catch (call_raw env i ''session_close'' req (\<lambda>_. ())) (\<lambda>_. io_return ())"

definition stub_open :: "'w env \<Rightarrow> nat \<Rightarrow> ('w, 'z, unit) net_io" where
  "stub_open env i =
     io_catch
       (io_bind (connectionOpen env i (Connection_openReq (env_version env))) (\<lambda>_.
        io_bind (io_gets (\<lambda>s. st_credential (net_stubs s i))) (\<lambda>credential.
        case credential of
          None \<Rightarrow> io_return ()
        | Some c \<Rightarrow>
            io_bind (userToken env i (User_tokenReq (cr_username c))) (\<lambda>token. set_token i (Some token)))))
       (\<lambda>e. if \<not> isServiceError e then io_throw e else io_return ())"

definition stub_close :: "nat \<Rightarrow> ('w, 'z, unit) net_io" where
  "stub_close i = io_update (\<lambda>s. s\<lparr>net_stubs := (net_stubs s)(i := (net_stubs s i)\<lparr>st_closed := True\<rparr>)\<rparr>)"

section \<open>Lemmas\<close>

lemma call_raw_service_error:
  "call_raw env i m req f s = (Inl e, s') \<Longrightarrow> \<exists>se. e = GrpcError se"
  by (auto simp: call_raw_def split: prod.splits sum.splits)

lemma mayRenewToken_raw: "mayRenewToken env i (call_raw env i m req f) s = call_raw env i m req f s"
proof (cases "call_raw env i m req f s")
  case (Pair r s')
  then show ?thesis
    using call_raw_service_error [of env i m req f s]
    by (cases r) (auto simp: mayRenewToken_def io_simps split: option.split)
qed

lemma mayRenewToken_core:
  assumes "st_credential (net_stubs s i) = None"
    and "\<And>r s'. fn s = (r, s') \<Longrightarrow> st_credential (net_stubs s' i) = st_credential (net_stubs s i)"
  shows "mayRenewToken env i fn s = fn s"
proof (cases "fn s")
  case (Pair r s')
  then show ?thesis
    using assms by (cases r) (auto simp: mayRenewToken_def io_simps)
qed

lemma net_stubs_call_raw: "call_raw env i m req f s = (r, s') \<Longrightarrow> net_stubs s' = net_stubs s"
  by (auto simp: call_raw_def split: prod.splits sum.splits)

lemma net_stubs_call_wrapped: "call_wrapped env i m req f s = (r, s') \<Longrightarrow> net_stubs s' = net_stubs s"
  by (auto simp: call_wrapped_def io_simps split: prod.splits sum.splits dest: net_stubs_call_raw)

section \<open>Properties\<close>


definition demo_error :: service_error where
  "demo_error = \<lparr>se_code = UNAUTHENTICATED, se_details = ''[CLS08]'', se_message = ''[CLS08]''\<rparr>"

definition demo_env :: "nat env" where
  "demo_env =
     \<lparr>env_rpc = (\<lambda>a m md req w.
        if m = ''user_token'' then (Inr (PMsg ''UserTokenRes'' [(''token'', PString ''new'')]), w + 1)
        else if (''token'', ''new'') \<in> set md then (Inr (PMsg m []), w + 1)
        else (Inl demo_error, w + 1)),
      env_sleep = (\<lambda>_ w. w), env_readFile = (\<lambda>_. Inr []), env_version = PUndefined\<rparr>"

definition demo_net :: "nat net" where
  "demo_net =
     \<lparr>net_stubs = (\<lambda>_. \<lparr>st_address = ''host:1'',
        st_credential = Some \<lparr>cr_username = ''u'', cr_password = ''p'', cr_tlsRootCAPath = None\<rparr>,
        st_channel = Ssl None, st_token = Some ''old'', st_closed = False\<rparr>),
      net_count = 1, net_world = 0\<rparr>"


text \<open>
  Four operations never renew the token: deleting a database and reading its schemas reject with the gRPC error itself,
  which carries no message template, so that in every state they make exactly one call and pass its
  error on, even when the token has expired.
\<close>

lemma database_calls_never_renew:
  "databaseDelete env i req s = call_raw env i ''database_delete'' req (\<lambda>_. ()) s \<and>
   databaseSchema env i req s = call_raw env i ''database_schema'' req (\<lambda>res. p_string (proto_get ''schema'' res)) s \<and>
   databaseTypeSchema env i req s =
     call_raw env i ''database_type_schema'' req (\<lambda>res. p_string (proto_get ''schema'' res)) s \<and>
   databaseRuleSchema env i req s =
     call_raw env i ''database_rule_schema'' req (\<lambda>res. p_string (proto_get ''schema'' res)) s"
  by (simp add: databaseDelete_def databaseSchema_def databaseTypeSchema_def databaseRuleSchema_def
      mayRenewToken_raw)

text \<open>
  Opening a stub with credentials hides a failed login: when the server accepts the connection but
  refuses the token request, \<open>open\<close> succeeds and leaves the stub without a token; an error of
  the connection itself is thrown.
\<close>

lemma stub_open_hides_login_failure:
  assumes "connectionOpen env i (Connection_openReq (env_version env)) s = (r, sc)"
    and "st_credential (net_stubs sc i) = Some c"
    and "userToken env i (User_tokenReq (cr_username c)) sc = (Inl (GrpcError se), sd)"
  shows "stub_open env i s =
    (case r of
       Inr _ \<Rightarrow> (Inr (), sd)
     | Inl e \<Rightarrow> if isServiceError e then (Inr (), sc) else (Inl e, sc))"
  using assms by (cases r) (auto simp: stub_open_def io_simps)

lemma stub_open_hides_login_failure_example:
  "stub_open (demo_env\<lparr>env_rpc := (\<lambda>a m md req w.
     if m = ''user_token'' then (Inl demo_error, w + 1) else (Inr (PMsg m []), w + 1))\<rparr>) 0
     (demo_net\<lparr>net_stubs := (\<lambda>i. (net_stubs demo_net i)\<lparr>st_token := None\<rparr>)\<rparr>) =
   (Inr (), demo_net\<lparr>net_stubs := (\<lambda>i. (net_stubs demo_net i)\<lparr>st_token := None\<rparr>), net_world := 2\<rparr>)"
proof -
  let ?env = "demo_env\<lparr>env_rpc := (\<lambda>a m md req w.
     if m = ''user_token'' then (Inl demo_error, w + 1) else (Inr (PMsg m []), w + 1))\<rparr>"
  let ?s = "demo_net\<lparr>net_stubs := (\<lambda>i. (net_stubs demo_net i)\<lparr>st_token := None\<rparr>)\<rparr>"
  show ?thesis
    using stub_open_hides_login_failure [where env = ?env and i = 0 and s = ?s and r = "Inr ()"
        and sc = "?s\<lparr>net_world := 1\<rparr>" and sd = "?s\<lparr>net_world := 2\<rparr>" and se = demo_error
        and c = "\<lparr>cr_username = ''u'', cr_password = ''p'', cr_tlsRootCAPath = None\<rparr>"]
    by (simp add: connectionOpen_def mayRenewToken_def call_wrapped_def call_raw_def userToken_def io_simps
        demo_env_def demo_net_def)
qed

end
