(* ===== verification/Replica_Failover.thy ===== *)
theory Replica_Failover
  imports Stub_Model
begin

text \<open>
  Databases, their replicas and the retry loops, \<open>connection/TypeDBDatabaseImpl.ts\<close> and
  \<open>connection/TypeDBDatabaseManagerImpl.ts\<close>. The state of a connection extends the store of stubs by the
  map of server drivers, the store of database objects and the cache of databases by name. A task that a
  retry loop runs is any asynchronous function of a server driver and a database at a server; looking up an
  unknown address gives \<open>undefined\<close>, here \<open>None\<close>, and using it raises the runtime's \<open>TypeError\<close>.

  The two loops have the bounds of the source: ten attempts at the primary replica and ten attempts to find one.
  Waiting for an election is the passing of time in the world.
\<close>

section \<open>State\<close>

record server_driver =
  sd_address :: string
  sd_stub :: nat
  sd_transmitter :: nat

record server_database =
  sdb_name :: string
  sdb_driver :: "server_driver option"

record replica =
  rep_server :: string
  rep_database :: server_database
  rep_term :: int
  rep_isPrimary :: bool
  rep_isPreferred :: bool

record database =
  db_name :: string
  db_replicas :: "replica list"

record 'w conn = "'w net" +
  cn_serverDrivers :: "(string, server_driver) jmap"
  cn_databases :: "nat \<Rightarrow> database"
  cn_database_count :: nat
  cn_database_cache :: "(string, nat) jmap"

type_synonym ('w, 'z, 'a) conn_io = "(('w, 'z) conn_scheme, thrown, 'a) io"

type_synonym ('w, 'z, 'a) task = "server_driver option \<Rightarrow> server_database \<Rightarrow> ('w, 'z, 'a) conn_io"

definition PRIMARY_REPLICA_TASK_MAX_RETRIES :: nat where
  "PRIMARY_REPLICA_TASK_MAX_RETRIES = 10"

definition FETCH_REPLICAS_MAX_RETRIES :: nat where
  "FETCH_REPLICAS_MAX_RETRIES = 10"

definition WAIT_FOR_PRIMARY_REPLICA_SELECTION_MS :: nat where
  "WAIT_FOR_PRIMARY_REPLICA_SELECTION_MS = 2000"

section \<open>Replicas\<close>

fun p_int :: "proto \<Rightarrow> int" where
  "p_int (PValue (JNumber (Num q))) = \<lfloor>q\<rfloor>"
| "p_int _ = 0"

definition replica_of :: "proto \<Rightarrow> server_database \<Rightarrow> replica" where
  "replica_of r database =
     \<lparr>rep_server = p_string (proto_get ''address'' r), rep_database = database,
      rep_term = p_int (proto_get ''term'' r), rep_isPrimary = p_bool (proto_get ''primary'' r),
      rep_isPreferred = p_bool (proto_get ''preferred'' r)\<rparr>"

definition replicas_of :: "string \<Rightarrow> (string, server_driver) jmap \<Rightarrow> proto list \<Rightarrow> replica list" where
  "replicas_of name drivers protos =
     map (\<lambda>p. replica_of p
       \<lparr>sdb_name = name, sdb_driver = jmap_get drivers (p_string (proto_get ''address'' p))\<rparr>) protos"

definition replica_toString :: "replica \<Rightarrow> string" where
  "replica_toString r =
     rep_server r @ ''/'' @ sdb_name (rep_database r) @ '':'' @ (if rep_isPrimary r then ''P'' else ''S'')
       @ '':'' @ string_of_int (rep_term r)"

definition primaryReplica :: "database \<Rightarrow> replica option" where
  "primaryReplica d =
     (case filter rep_isPrimary (db_replicas d) of
        [] \<Rightarrow> None
      | r # rs \<Rightarrow> Some (foldl (\<lambda>current nxt. if rep_term nxt > rep_term current then nxt else current) r rs))"

definition preferredReplica :: "database \<Rightarrow> replica option" where
  "preferredReplica d =
     (case find rep_isPreferred (db_replicas d) of
        Some r \<Rightarrow> Some r
      | None \<Rightarrow> (case db_replicas d of [] \<Rightarrow> None | r # _ \<Rightarrow> Some r))"

section \<open>Creating and fetching databases\<close>

definition database_new :: "string \<Rightarrow> replica list \<Rightarrow> ('w, 'z, nat) conn_io" where
  "database_new name replicas s =
     (let i = cn_database_count s
      in (Inr i,
          s\<lparr>cn_databases := (cn_databases s)(i := \<lparr>db_name = name, db_replicas = replicas\<rparr>),
            cn_database_count := Suc i,
            cn_database_cache := jmap_set name i (cn_database_cache s)\<rparr>))"

text \<open>The replicas of a response; a response without a database is \<open>undefined.replicas\<close>.\<close>

definition read_replicas :: "string \<Rightarrow> proto \<Rightarrow> ('w, 'z, replica list) conn_io" where
  "read_replicas name res s =
     (case proto_get ''database'' res of
        PUndefined \<Rightarrow> (Inl (type_error ''replicas''), s)
      | database \<Rightarrow> (Inr (replicas_of name (cn_serverDrivers s) (p_list (proto_get ''replicas'' database))), s))"

fun fetchReplicas_from :: "'w env \<Rightarrow> string \<Rightarrow> server_driver list \<Rightarrow> ('w, 'z, replica list) conn_io" where
  "fetchReplicas_from env name [] = io_throw (throw_message UNABLE_TO_CONNECT [])"
| "fetchReplicas_from env name (d # ds) =
     io_catch
       (io_bind (databasesGet env (sd_stub d) (DatabaseManager_getReq name)) (read_replicas name))
       (\<lambda>err.
          if \<not> is_driver_error err then io_throw err
          else if has_template DATABASE_DOES_NOT_EXIST err \<or> has_template UNABLE_TO_CONNECT err
          then fetchReplicas_from env name ds
          else io_throw err)"

definition fetchReplicas :: "'w env \<Rightarrow> string \<Rightarrow> ('w, 'z, replica list) conn_io" where
  "fetchReplicas env name =
     io_bind (io_gets (\<lambda>s. jmap_values (cn_serverDrivers s))) (fetchReplicas_from env name)"

definition database_get :: "'w env \<Rightarrow> string \<Rightarrow> ('w, 'z, nat) conn_io" where
  "database_get env name = io_bind (fetchReplicas env name) (database_new name)"

definition database_of :: "proto \<Rightarrow> ('w, 'z, nat) conn_io" where
  "database_of protoDB s =
     (let name = p_string (proto_get ''name'' protoDB)
      in database_new name
           (replicas_of name (cn_serverDrivers s) (p_list (proto_get ''replicas'' protoDB))) s)"

section \<open>Running a task with retries\<close>

fun runOnReplicas :: "('w, 'z, 'a) task \<Rightarrow> replica list \<Rightarrow> ('w, 'z, 'a) conn_io" where
  "runOnReplicas task [] = io_throw (throw_message UNABLE_TO_CONNECT [])"
| "runOnReplicas task (r # rs) =
     io_catch
       (io_bind (io_gets (\<lambda>s. jmap_get (cn_serverDrivers s) (rep_server r))) (\<lambda>d. task d (rep_database r)))
       (\<lambda>e. if has_template UNABLE_TO_CONNECT e then runOnReplicas task rs else io_throw e)"

definition runOnAnyReplica :: "nat \<Rightarrow> ('w, 'z, 'a) task \<Rightarrow> ('w, 'z, 'a) conn_io" where
  "runOnAnyReplica i task =
     io_bind (io_gets (\<lambda>s. db_replicas (cn_databases s i))) (runOnReplicas task)"

definition waitForPrimaryReplicaSelection :: "'w env \<Rightarrow> ('w, 'z, unit) conn_io" where
  "waitForPrimaryReplicaSelection env =
     io_update (\<lambda>s. s\<lparr>net_world := env_sleep env WAIT_FOR_PRIMARY_REPLICA_SELECTION_MS (net_world s)\<rparr>)"

definition set_replicas :: "nat \<Rightarrow> replica list \<Rightarrow> ('w, 'z, unit) conn_io" where
  "set_replicas i rs =
     io_update (\<lambda>s. s\<lparr>cn_databases := (cn_databases s)(i := (cn_databases s i)\<lparr>db_replicas := rs\<rparr>)\<rparr>)"

fun seekPrimaryReplica_tries :: "nat \<Rightarrow> 'w env \<Rightarrow> nat \<Rightarrow> ('w, 'z, replica) conn_io" where
  "seekPrimaryReplica_tries 0 env i = io_throw (throw_message UNABLE_TO_CONNECT [])"
| "seekPrimaryReplica_tries (Suc n) env i =
     io_bind (io_gets (\<lambda>s. db_name (cn_databases s i))) (\<lambda>name.
     io_bind (fetchReplicas env name) (\<lambda>rs.
     io_bind (set_replicas i rs) (\<lambda>_.
     io_bind (io_gets (\<lambda>s. primaryReplica (cn_databases s i))) (\<lambda>primary.
     case primary of
       Some r \<Rightarrow> io_return r
     | None \<Rightarrow>
         io_bind (waitForPrimaryReplicaSelection env) (\<lambda>_. seekPrimaryReplica_tries n env i)))))"

definition seekPrimaryReplica :: "'w env \<Rightarrow> nat \<Rightarrow> ('w, 'z, replica) conn_io" where
  "seekPrimaryReplica env i = seekPrimaryReplica_tries FETCH_REPLICAS_MAX_RETRIES env i"

text \<open>One attempt: \<open>task(this._driver.serverDrivers.get(this.primaryReplica.server), ...)\<close>.\<close>

definition attemptOnPrimary :: "nat \<Rightarrow> ('w, 'z, 'a) task \<Rightarrow> ('w, 'z, 'a) conn_io" where
  "attemptOnPrimary i task s =
     (case primaryReplica (cn_databases s i) of
        None \<Rightarrow> (Inl (type_error ''server''), s)
      | Some r \<Rightarrow> task (jmap_get (cn_serverDrivers s) (rep_server r)) (rep_database r) s)"

definition retryable :: "thrown \<Rightarrow> bool" where
  "retryable e \<longleftrightarrow> has_template UNABLE_TO_CONNECT e \<or> has_template CLOUD_REPLICA_NOT_PRIMARY e"

fun runOnPrimaryReplica_tries :: "nat \<Rightarrow> 'w env \<Rightarrow> nat \<Rightarrow> ('w, 'z, 'a) task \<Rightarrow> ('w, 'z, 'a) conn_io" where
  "runOnPrimaryReplica_tries 0 env i task = io_throw (throw_message UNABLE_TO_CONNECT [])"
| "runOnPrimaryReplica_tries (Suc n) env i task =
     io_catch (attemptOnPrimary i task)
       (\<lambda>e.
          if retryable e then
            io_bind (waitForPrimaryReplicaSelection env) (\<lambda>_.
            io_bind (seekPrimaryReplica env i) (\<lambda>_. runOnPrimaryReplica_tries n env i task))
          else io_throw e)"

definition runOnPrimaryReplica :: "'w env \<Rightarrow> nat \<Rightarrow> ('w, 'z, 'a) task \<Rightarrow> ('w, 'z, 'a) conn_io" where
  "runOnPrimaryReplica env i task =
     io_bind (io_gets (\<lambda>s. primaryReplica (cn_databases s i))) (\<lambda>primary.
     io_bind
       (case primary of
          None \<Rightarrow> io_bind (seekPrimaryReplica env i) (\<lambda>_. io_return ())
        | Some _ \<Rightarrow> io_return ())
       (\<lambda>_. runOnPrimaryReplica_tries PRIMARY_REPLICA_TASK_MAX_RETRIES env i task))"

definition runFailsafe :: "'w env \<Rightarrow> nat \<Rightarrow> ('w, 'z, 'a) task \<Rightarrow> ('w, 'z, 'a) conn_io" where
  "runFailsafe env i task =
     io_catch (runOnAnyReplica i task)
       (\<lambda>e. if has_template CLOUD_REPLICA_NOT_PRIMARY e then runOnPrimaryReplica env i task else io_throw e)"

section \<open>Operations of a database\<close>

definition with_stub :: "server_driver option \<Rightarrow> (nat \<Rightarrow> ('w, 'z, 'a) conn_io) \<Rightarrow> ('w, 'z, 'a) conn_io" where
  "with_stub d f = (case d of None \<Rightarrow> io_throw (type_error ''stub'') | Some sd \<Rightarrow> f (sd_stub sd))"

definition sdb_delete :: "'w env \<Rightarrow> server_database \<Rightarrow> ('w, 'z, unit) conn_io" where
  "sdb_delete env db = with_stub (sdb_driver db) (\<lambda>st. databaseDelete env st (Database_deleteReq (sdb_name db)))"

definition sdb_schema :: "'w env \<Rightarrow> server_database \<Rightarrow> ('w, 'z, string) conn_io" where
  "sdb_schema env db = with_stub (sdb_driver db) (\<lambda>st. databaseSchema env st (Database_schemaReq (sdb_name db)))"

definition sdb_typeSchema :: "'w env \<Rightarrow> server_database \<Rightarrow> ('w, 'z, string) conn_io" where
  "sdb_typeSchema env db =
     with_stub (sdb_driver db) (\<lambda>st. databaseTypeSchema env st (Database_typeSchemaReq (sdb_name db)))"

definition sdb_ruleSchema :: "'w env \<Rightarrow> server_database \<Rightarrow> ('w, 'z, string) conn_io" where
  "sdb_ruleSchema env db =
     with_stub (sdb_driver db) (\<lambda>st. databaseRuleSchema env st (Database_ruleSchemaReq (sdb_name db)))"

definition database_delete :: "'w env \<Rightarrow> nat \<Rightarrow> ('w, 'z, unit) conn_io" where
  "database_delete env i = runOnPrimaryReplica env i (\<lambda>_ db. sdb_delete env db)"

definition database_schema :: "'w env \<Rightarrow> nat \<Rightarrow> ('w, 'z, string) conn_io" where
  "database_schema env i = runFailsafe env i (\<lambda>_ db. sdb_schema env db)"

definition database_typeSchema :: "'w env \<Rightarrow> nat \<Rightarrow> ('w, 'z, string) conn_io" where
  "database_typeSchema env i = runFailsafe env i (\<lambda>_ db. sdb_typeSchema env db)"

definition database_ruleSchema :: "'w env \<Rightarrow> nat \<Rightarrow> ('w, 'z, string) conn_io" where
  "database_ruleSchema env i = runFailsafe env i (\<lambda>_ db. sdb_ruleSchema env db)"

section \<open>The database manager\<close>

text \<open>The line a failed server adds to the error text.\<close>

definition failure_line :: "server_driver \<Rightarrow> thrown \<Rightarrow> string" where
  "failure_line d e = ''- '' @ sd_address d @ '': '' @ error_toString e @ newline"

fun dbm_runFailsafe_from :: "'w env \<Rightarrow> string \<Rightarrow> (server_driver option \<Rightarrow> ('w, 'z, 'a) conn_io) \<Rightarrow> string
    \<Rightarrow> server_driver list \<Rightarrow> ('w, 'z, 'a) conn_io" where
  "dbm_runFailsafe_from env name task errors [] = io_throw (throw_message CLOUD_ALL_NODES_FAILED [errors])"
| "dbm_runFailsafe_from env name task errors (d # ds) =
     io_catch (task (Some d))
       (\<lambda>e.
          if has_template CLOUD_REPLICA_NOT_PRIMARY e then
            io_bind (database_get env name) (\<lambda>i. runOnPrimaryReplica env i (\<lambda>d _. task d))
          else dbm_runFailsafe_from env name task (errors @ failure_line d e) ds)"

definition dbm_runFailsafe :: "'w env \<Rightarrow> string \<Rightarrow> (server_driver option \<Rightarrow> ('w, 'z, 'a) conn_io)
    \<Rightarrow> ('w, 'z, 'a) conn_io" where
  "dbm_runFailsafe env name task =
     io_bind (io_gets (\<lambda>s. jmap_values (cn_serverDrivers s))) (dbm_runFailsafe_from env name task [])"

definition dbm_contains :: "'w env \<Rightarrow> string \<Rightarrow> ('w, 'z, bool) conn_io" where
  "dbm_contains env name =
     dbm_runFailsafe env name (\<lambda>d. with_stub d (\<lambda>st. databasesContains env st (DatabaseManager_containsReq name)))"

definition dbm_create :: "'w env \<Rightarrow> string \<Rightarrow> ('w, 'z, unit) conn_io" where
  "dbm_create env name =
     dbm_runFailsafe env name (\<lambda>d. with_stub d (\<lambda>st. databasesCreate env st (DatabaseManager_createReq name)))"

text \<open>
  The cache is a plain JavaScript object, and \<open>name in cache\<close> also finds the members every object inherits
  from \<open>Object.prototype\<close>. A lookup then yields that member instead of a database.
\<close>

definition object_prototype_members :: "string list" where
  "object_prototype_members =
     [''constructor'', ''__defineGetter__'', ''__defineSetter__'', ''hasOwnProperty'', ''__lookupGetter__'',
      ''__lookupSetter__'', ''isPrototypeOf'', ''propertyIsEnumerable'', ''toString'', ''valueOf'',
      ''__proto__'', ''toLocaleString'']"

datatype cached = CachedDatabase nat | InheritedMember string

definition cache_lookup :: "string \<Rightarrow> (string, nat) jmap \<Rightarrow> cached option" where
  "cache_lookup name cache =
     (case jmap_get cache name of
        Some i \<Rightarrow> Some (CachedDatabase i)
      | None \<Rightarrow> if name \<in> set object_prototype_members then Some (InheritedMember name) else None)"

definition dbm_get :: "'w env \<Rightarrow> string \<Rightarrow> ('w, 'z, cached) conn_io" where
  "dbm_get env name =
     io_bind (dbm_contains env name) (\<lambda>b.
     if \<not> b then io_throw (throw_message DATABASE_DOES_NOT_EXIST [name])
     else
       io_bind (io_gets (\<lambda>s. cache_lookup name (cn_database_cache s))) (\<lambda>hit.
       case hit of
         Some c \<Rightarrow> io_return c
       | None \<Rightarrow> io_bind (database_get env name) (\<lambda>i. io_return (CachedDatabase i))))"

fun databases_of :: "proto list \<Rightarrow> ('w, 'z, nat list) conn_io" where
  "databases_of [] = io_return []"
| "databases_of (p # ps) =
     io_bind (database_of p) (\<lambda>i. io_bind (databases_of ps) (\<lambda>is. io_return (i # is)))"

fun dbm_all_from :: "'w env \<Rightarrow> string \<Rightarrow> server_driver list \<Rightarrow> ('w, 'z, nat list) conn_io" where
  "dbm_all_from env errors [] = io_throw (throw_message CLOUD_ALL_NODES_FAILED [errors])"
| "dbm_all_from env errors (d # ds) =
     io_catch
       (io_bind (databasesAll env (sd_stub d) DatabaseManager_allReq) (\<lambda>dbs.
        databases_of (p_list (proto_get ''databases'' dbs))))
       (\<lambda>e. dbm_all_from env (errors @ failure_line d e) ds)"

definition dbm_all :: "'w env \<Rightarrow> ('w, 'z, nat list) conn_io" where
  "dbm_all env = io_bind (io_gets (\<lambda>s. jmap_values (cn_serverDrivers s))) (dbm_all_from env [])"

section \<open>Lemmas\<close>

lemma foldl_max_term:
  fixes rs :: "replica list"
  defines "f \<equiv> \<lambda>current nxt. if rep_term nxt > rep_term current then nxt else current"
  shows "foldl f r rs \<in> set (r # rs)" "\<forall>x \<in> set (r # rs). rep_term x \<le> rep_term (foldl f r rs)"
  unfolding f_def
proof (induction rs arbitrary: r)
  case (Cons x rs)
  {
    case 1
    from Cons(1) [of "if rep_term x > rep_term r then x else r"] show ?case by auto
  next
    case 2
    from Cons(2) [of "if rep_term x > rep_term r then x else r"] show ?case
      by (auto split: if_splits)
  }
qed simp_all

text \<open>
  Triples for state-and-exception code: started in a state that satisfies \<open>P\<close>, it returns a result and a state that satisfy \<open>Q\<close>, or
  throws in a state that satisfies \<open>E\<close>.
\<close>

definition triple :: "('s \<Rightarrow> bool) \<Rightarrow> ('s, 'e, 'a) io \<Rightarrow> ('a \<Rightarrow> 's \<Rightarrow> bool) \<Rightarrow> ('s \<Rightarrow> bool) \<Rightarrow> bool" where
  "triple P m Q E \<longleftrightarrow> (\<forall>s. P s \<longrightarrow> (case m s of (Inl _, s') \<Rightarrow> E s' | (Inr x, s') \<Rightarrow> Q x s'))"

abbreviation preserves :: "('s \<Rightarrow> bool) \<Rightarrow> ('s, 'e, 'a) io \<Rightarrow> bool" where
  "preserves P m \<equiv> triple P m (\<lambda>_. P) P"

named_theorems triple_intros \<open>rules for triples\<close>

lemma tripleI:
  assumes "\<And>s e s'. P s \<Longrightarrow> m s = (Inl e, s') \<Longrightarrow> E s'" "\<And>s x s'. P s \<Longrightarrow> m s = (Inr x, s') \<Longrightarrow> Q x s'"
  shows "triple P m Q E"
  unfolding triple_def using assms by (simp split: prod.split sum.split)

lemma triple_throws: "triple P m Q E \<Longrightarrow> P s \<Longrightarrow> m s = (Inl e, s') \<Longrightarrow> E s'"
  unfolding triple_def by force

lemma triple_returns: "triple P m Q E \<Longrightarrow> P s \<Longrightarrow> m s = (Inr x, s') \<Longrightarrow> Q x s'"
  unfolding triple_def by force

lemma preservesD: "preserves P m \<Longrightarrow> P s \<Longrightarrow> m s = (r, s') \<Longrightarrow> P s'"
  by (cases r) (auto dest: triple_throws triple_returns)

lemma preserves_iff: "preserves P m \<longleftrightarrow> (\<forall>s. P s \<longrightarrow> P (snd (m s)))"
proof
  show "preserves P m \<Longrightarrow> \<forall>s. P s \<longrightarrow> P (snd (m s))" by (metis preservesD prod.collapse)
  assume *: "\<forall>s. P s \<longrightarrow> P (snd (m s))"
  show "preserves P m"
    by (rule tripleI) (use * in \<open>metis snd_conv\<close>)+
qed

lemma triple_bind:
  assumes m: "triple P m R E" and k: "\<And>x. triple (R x) (k x) Q E"
  shows "triple P (io_bind m k) Q E"
proof (rule tripleI)
  fix s e s' assume "P s" "io_bind m k s = (Inl e, s')"
  then show "E s'"
    by (auto simp: io_bind_def split: prod.splits sum.splits intro: triple_throws [OF m] triple_throws [OF k] triple_returns [OF m])
next
  fix s x s' assume "P s" "io_bind m k s = (Inr x, s')"
  then show "Q x s'"
    by (auto simp: io_bind_def split: prod.splits sum.splits intro: triple_returns [OF k] triple_returns [OF m])
qed

lemma triple_catch:
  assumes m: "triple P m Q F" and h: "\<And>e. triple F (h e) Q E"
  shows "triple P (io_catch m h) Q E"
proof (rule tripleI)
  fix s e s' assume "P s" "io_catch m h s = (Inl e, s')"
  then show "E s'"
    by (auto simp: io_catch_def split: prod.splits sum.splits intro: triple_throws [OF m] triple_throws [OF h])
next
  fix s x s' assume "P s" "io_catch m h s = (Inr x, s')"
  then show "Q x s'"
    by (auto simp: io_catch_def split: prod.splits sum.splits intro: triple_throws [OF m] triple_returns [OF h] triple_returns [OF m])
qed

lemma preserves_basic [triple_intros]:
  "preserves P (io_throw e)" "preserves P (io_gets f)" "preserves P (io_lift r)" "preserves P (io_return x)"
  by (simp_all add: preserves_iff io_simps)

lemma triple_bind_invariant [triple_intros]:
  "preserves P m \<Longrightarrow> (\<And>x. triple P (k x) Q P) \<Longrightarrow> triple P (io_bind m k) Q P"
  by (rule triple_bind)

lemma triple_catch_invariant [triple_intros]:
  "triple P m Q P \<Longrightarrow> (\<And>e. triple P (h e) Q P) \<Longrightarrow> triple P (io_catch m h) Q P"
  by (rule triple_catch)

lemma triple_cases [triple_intros]:
  "triple P m Q E \<Longrightarrow> triple P m' Q E \<Longrightarrow> triple P (if b then m else m') Q E"
  "triple P m Q E \<Longrightarrow> (\<And>x. triple P (k x) Q E) \<Longrightarrow> triple P (case y of None \<Rightarrow> m | Some x \<Rightarrow> k x) Q E"
  by (auto split: option.split)

lemma triple_weaken:
  assumes "triple P m Q E" "\<And>s. P' s \<Longrightarrow> P s" "\<And>x s. Q x s \<Longrightarrow> Q' x s" "\<And>s. E s \<Longrightarrow> E' s"
  shows "triple P' m Q' E'"
  by (rule tripleI) (use assms in \<open>blast dest: triple_throws triple_returns\<close>)+

lemma triple_throw: "(\<And>s. P s \<Longrightarrow> E s) \<Longrightarrow> triple P (io_throw e) Q E"
  by (simp add: triple_def io_simps)

lemma triple_return: "(\<And>s. P s \<Longrightarrow> Q x s) \<Longrightarrow> triple P (io_return x) Q E"
  by (simp add: triple_def io_simps)

lemma triple_gets: "(\<And>s. P s \<Longrightarrow> Q (f s) s) \<Longrightarrow> triple P (io_gets f) Q E"
  by (simp add: triple_def io_simps)

lemma triple_update: "(\<And>s. P s \<Longrightarrow> Q () (f s)) \<Longrightarrow> triple P (io_update f) Q E"
  by (simp add: triple_def io_simps)

text \<open>
  A predicate that the connection layer cannot change: it does not depend on the network, the stubs and the databases. Such a predicate is
  kept by every operation of the layer, and what a retry loop does to it is what the task does that it runs.
\<close>

locale stable =
  fixes P :: "('w, 'z) conn_scheme \<Rightarrow> bool"
  assumes stable_net: "P (s\<lparr>net_world := w\<rparr>) = P s" "P (s\<lparr>net_stubs := st\<rparr>) = P s"
    and stable_databases: "P (s\<lparr>cn_databases := dbs\<rparr>) = P s"
    and stable_created: "P (s\<lparr>cn_databases := dbs, cn_database_count := n, cn_database_cache := c\<rparr>) = P s"
begin

lemma stable_call [triple_intros]: "preserves P (call_raw env i m req f)" "preserves P (set_token i t)"
  by (auto simp: triple_def call_raw_def set_token_def io_simps stable_net split: prod.split sum.split)

lemma stable_call_wrapped [triple_intros]: "preserves P (call_wrapped env i m req f)"
  unfolding call_wrapped_def by (intro triple_intros)

lemma stable_mayRenewToken [triple_intros]: "preserves P m \<Longrightarrow> preserves P (mayRenewToken env i m)"
  unfolding mayRenewToken_def userToken_def by (intro triple_intros)

lemma stable_fetchReplicas [triple_intros]: "preserves P (fetchReplicas env name)"
proof -
  have "preserves P (read_replicas name res)" for name res
    by (simp add: preserves_iff read_replicas_def split: proto.split)
  then have "preserves P (fetchReplicas_from env name ds)" for ds
    by (induction ds) (auto simp: databasesGet_def intro!: triple_intros)
  then show ?thesis unfolding fetchReplicas_def by (intro triple_intros)
qed

lemma stable_database_get [triple_intros]: "preserves P (database_get env name)"
proof -
  have "preserves P (database_new name rs)" for rs
    by (simp add: preserves_iff database_new_def Let_def stable_created)
  then show ?thesis unfolding database_get_def by (intro triple_intros)
qed

lemma stable_wait [triple_intros]: "preserves P (waitForPrimaryReplicaSelection env)"
  by (simp add: preserves_iff waitForPrimaryReplicaSelection_def io_simps stable_net)

lemma stable_seek [triple_intros]: "preserves P (seekPrimaryReplica env i)"
proof -
  have set: "preserves P (set_replicas i rs)" for rs
    by (simp add: preserves_iff set_replicas_def io_simps stable_databases)
  have "preserves P (seekPrimaryReplica_tries n env i)" for n
    by (induction n) (auto intro!: triple_intros set)
  then show ?thesis by (simp add: seekPrimaryReplica_def)
qed

lemma stable_runOnAnyReplica [triple_intros]:
  assumes "\<And>d db. triple P (task d db) Q P"
  shows "triple P (runOnAnyReplica i task) Q P"
proof -
  have "triple P (runOnReplicas task rs) Q P" for rs
    by (induction rs) (auto intro!: triple_intros triple_throw assms)
  then show ?thesis unfolding runOnAnyReplica_def by (intro triple_intros)
qed

lemma stable_runOnPrimaryReplica [triple_intros]:
  assumes "\<And>d db. triple P (task d db) Q P"
  shows "triple P (runOnPrimaryReplica env i task) Q P"
proof -
  have "triple P (attemptOnPrimary i task) Q P"
    using assms by (simp add: triple_def attemptOnPrimary_def split: option.split)
  then have "triple P (runOnPrimaryReplica_tries n env i task) Q P" for n
    by (induction n) (auto intro!: triple_intros triple_throw)
  then show ?thesis unfolding runOnPrimaryReplica_def by (intro triple_intros)
qed

lemma stable_runFailsafe [triple_intros]:
  "(\<And>d db. triple P (task d db) Q P) \<Longrightarrow> triple P (runFailsafe env i task) Q P"
  unfolding runFailsafe_def by (intro triple_intros triple_throw)

lemma stable_dbm_runFailsafe:
  assumes "\<And>d. triple P (task d) Q P"
  shows "triple P (dbm_runFailsafe env name task) Q P"
proof -
  have "triple P (dbm_runFailsafe_from env name task errors ds) Q P" for errors ds
    by (induction ds arbitrary: errors) (auto intro!: triple_intros triple_throw assms)
  then show ?thesis unfolding dbm_runFailsafe_def by (intro triple_intros)
qed

lemma stable_dbm_get [triple_intros]: "preserves P (dbm_get env name)"
proof -
  have "preserves P (dbm_contains env name)"
    unfolding dbm_contains_def with_stub_def databasesContains_def
    by (intro stable_dbm_runFailsafe triple_intros)
  then show ?thesis unfolding dbm_get_def by (intro triple_intros)
qed

end

text \<open>
  A projection of the state that the connection layer does not touch: each of its values is a predicate of that kind. Whatever a retry loop
  does, such a component changes only by the task it runs.
\<close>

definition keeps :: "('s \<Rightarrow> 'p) \<Rightarrow> ('s, 'e, 'a) io \<Rightarrow> bool" where
  "keeps proj m \<longleftrightarrow> (\<forall>s. proj (snd (m s)) = proj s)"

named_theorems keeps_intros \<open>operations that keep a projection of the state\<close>

lemma keepsD: "keeps proj m \<Longrightarrow> m s = (r, s') \<Longrightarrow> proj s' = proj s"
  unfolding keeps_def by (metis snd_conv)

lemma keeps_iff: "keeps proj m \<longleftrightarrow> (\<forall>c. preserves (\<lambda>s. proj s = c) m)"
  by (simp add: keeps_def preserves_iff)

lemma keeps_bind [keeps_intros]:
  "keeps proj m \<Longrightarrow> (\<And>x. keeps proj (k x)) \<Longrightarrow> keeps proj (io_bind m k)"
  unfolding keeps_iff by (auto intro!: triple_intros)

lemma keeps_combinators [keeps_intros]:
  "keeps proj (io_return x)" "keeps proj (io_throw e)" "keeps proj (io_gets f)" "keeps proj (io_lift r)"
  "keeps proj m \<Longrightarrow> (\<And>e. keeps proj (h e)) \<Longrightarrow> keeps proj (io_catch m h)"
  unfolding keeps_iff by (auto intro!: triple_intros)

lemma keeps_cases [keeps_intros]:
  "keeps proj m \<Longrightarrow> keeps proj m' \<Longrightarrow> keeps proj (if b then m else m')"
  "keeps proj m \<Longrightarrow> (\<And>x. keeps proj (k x)) \<Longrightarrow> keeps proj (case y of None \<Rightarrow> m | Some x \<Rightarrow> k x)"
  by (auto split: option.split)

lemma keeps_update: "(\<And>s. proj (f s) = proj s) \<Longrightarrow> keeps proj (io_update f)"
  by (simp add: keeps_def io_simps)

lemma keeps_preserves: "keeps proj m \<Longrightarrow> (\<And>s. P s \<longleftrightarrow> R (proj s)) \<Longrightarrow> preserves P m"
  by (simp add: keeps_def preserves_iff)

locale frame =
  fixes proj :: "('w, 'z) conn_scheme \<Rightarrow> 'p"
  assumes frame_net: "proj (s\<lparr>net_world := w\<rparr>) = proj s" "proj (s\<lparr>net_stubs := st\<rparr>) = proj s"
    and frame_databases: "proj (s\<lparr>cn_databases := dbs\<rparr>) = proj s"
    and frame_created: "proj (s\<lparr>cn_databases := dbs, cn_database_count := n, cn_database_cache := c\<rparr>) = proj s"

sublocale frame \<subseteq> at_value: stable "\<lambda>s. proj s = c" for c
  by unfold_locales (simp_all add: frame_net frame_databases frame_created)

context frame
begin

lemma keeps_call [keeps_intros]: "keeps proj (call_raw env i m req f)" "keeps proj (set_token i t)"
  by (simp_all add: keeps_iff at_value.stable_call)

lemma keeps_call_wrapped [keeps_intros]: "keeps proj (call_wrapped env i m req f)"
  by (simp add: keeps_iff at_value.stable_call_wrapped)

lemma keeps_mayRenewToken [keeps_intros]: "keeps proj m \<Longrightarrow> keeps proj (mayRenewToken env i m)"
  by (simp add: keeps_iff at_value.stable_mayRenewToken)

lemma keeps_fetchReplicas [keeps_intros]: "keeps proj (fetchReplicas env name)"
  by (simp add: keeps_iff at_value.stable_fetchReplicas)

lemma keeps_database_get [keeps_intros]: "keeps proj (database_get env name)"
  by (simp add: keeps_iff at_value.stable_database_get)

lemma keeps_wait [keeps_intros]: "keeps proj (waitForPrimaryReplicaSelection env)"
  by (simp add: keeps_iff at_value.stable_wait)

lemma keeps_seek [keeps_intros]: "keeps proj (seekPrimaryReplica env i)"
  by (simp add: keeps_iff at_value.stable_seek)

lemma keeps_runFailsafe [keeps_intros]:
  "(\<And>d db. keeps proj (task d db)) \<Longrightarrow> keeps proj (runFailsafe env i task)"
  by (simp add: keeps_iff at_value.stable_runFailsafe)

lemma keeps_runOnPrimaryReplica [keeps_intros]:
  "(\<And>d db. keeps proj (task d db)) \<Longrightarrow> keeps proj (runOnPrimaryReplica env i task)"
  by (simp add: keeps_iff at_value.stable_runOnPrimaryReplica)

lemma keeps_dbm_get [keeps_intros]: "keeps proj (dbm_get env name)"
  by (simp add: keeps_iff at_value.stable_dbm_get)

end

interpretation extension: frame conn.more
  by unfold_locales simp_all

section \<open>Properties\<close>

text \<open>
  C24. The primary replica is the one with the highest term: among several replicas that claim to be primary, as after
  an election, the driver takes one whose term no other claim exceeds, and it has a primary exactly when some
  replica claims to be one.
\<close>

theorem primary_has_highest_term:
  "case primaryReplica d of
     None \<Rightarrow> filter rep_isPrimary (db_replicas d) = []
   | Some r \<Rightarrow> r \<in> set (db_replicas d) \<and> rep_isPrimary r \<and>
       Max (rep_term ` set (filter rep_isPrimary (db_replicas d))) = rep_term r"
proof (cases "filter rep_isPrimary (db_replicas d)")
  case (Cons r rs)
  let ?m = "foldl (\<lambda>current nxt. if rep_term nxt > rep_term current then nxt else current) r rs"
  have m: "?m \<in> set (r # rs)" "\<forall>x \<in> set (r # rs). rep_term x \<le> rep_term ?m"
    by (rule foldl_max_term)+
  then have "Max (rep_term ` set (r # rs)) = rep_term ?m"
    by (intro Max_eqI) auto
  moreover have "?m \<in> set (db_replicas d)" "rep_isPrimary ?m"
    using m(1) unfolding Cons [symmetric] by simp_all
  ultimately show ?thesis using Cons by (simp add: primaryReplica_def)
qed (simp add: primaryReplica_def)

text \<open>The state after a task has been unable to connect to each of some replicas in turn.\<close>

fun unreachable_through :: "('w, 'z, 'a) task \<Rightarrow> replica list \<Rightarrow> ('w, 'z) conn_scheme \<Rightarrow> ('w, 'z) conn_scheme option" where
  "unreachable_through task [] s = Some s"
| "unreachable_through task (r # rs) s =
     (case task (jmap_get (cn_serverDrivers s) (rep_server r)) (rep_database r) s of
        (Inl e, s') \<Rightarrow> if has_template UNABLE_TO_CONNECT e then unreachable_through task rs s' else None
      | (Inr _, _) \<Rightarrow> None)"

lemma runOnReplicas_unreachable:
  "unreachable_through task pre s = Some s' \<Longrightarrow>
   runOnReplicas task (pre @ post) s = runOnReplicas task post s'"
  by (induction task pre s rule: unreachable_through.induct)
    (auto simp: io_simps split: prod.splits sum.splits if_splits)

text \<open>
  A task on any replica is run on the first one that can be reached: the replicas are tried in order, those
  the driver cannot connect to are skipped, and the outcome at the first other replica, a result or
  another error, is the outcome; no replica behind it is tried. When none can be reached the error carries no template.
\<close>

lemma any_replica_first_reachable:
  assumes "db_replicas (cn_databases s i) = pre @ post"
    and "unreachable_through task pre s = Some s'"
  shows "runOnAnyReplica i task s =
    (case post of
       [] \<Rightarrow> (Inl (throw_message UNABLE_TO_CONNECT []), s')
     | r # _ \<Rightarrow>
         (case task (jmap_get (cn_serverDrivers s') (rep_server r)) (rep_database r) s' of
            (Inl e, s'') \<Rightarrow> if has_template UNABLE_TO_CONNECT e then runOnReplicas task (tl post) s'' else (Inl e, s'')
          | (Inr x, s'') \<Rightarrow> (Inr x, s'')))"
  using assms runOnReplicas_unreachable [OF assms(2), of post]
  by (cases post) (auto simp: runOnAnyReplica_def io_simps split: prod.split sum.split)

definition demo_replica :: "string \<Rightarrow> int \<Rightarrow> bool \<Rightarrow> replica" where
  "demo_replica server n p =
     \<lparr>rep_server = server, rep_database = \<lparr>sdb_name = ''db'', sdb_driver = None\<rparr>, rep_term = n,
      rep_isPrimary = p, rep_isPreferred = False\<rparr>"

definition demo_conn :: "nat \<Rightarrow> (nat, nat) conn_scheme" where
  "demo_conn n =
     \<lparr>net_stubs = net_stubs demo_net, net_count = 1, net_world = 0, cn_serverDrivers = [],
      cn_databases = (\<lambda>_. \<lparr>db_name = ''db'', db_replicas = [demo_replica ''a'' 1 False, demo_replica ''b'' 2 True]\<rparr>),
      cn_database_count = 1, cn_database_cache = [], \<dots> = n\<rparr>"

definition demo_task :: "(nat, nat, bool) task" where
  "demo_task d db s =
     (if conn.more s = 0 then (Inl (throw_template UNABLE_TO_CONNECT), demo_conn 1) else (Inr True, demo_conn 2))"

lemma any_replica_first_reachable_example:
  "runOnAnyReplica 0 demo_task (demo_conn 0) = (Inr True, demo_conn 2)"
proof -
  have "unreachable_through demo_task [demo_replica ''a'' 1 False] (demo_conn 0) = Some (demo_conn 1)"
    by (simp add: demo_task_def demo_conn_def has_template_def)
  from any_replica_first_reachable [OF _ this, of 0 "[demo_replica ''b'' 2 True]"] show ?thesis
    by (simp add: demo_task_def demo_conn_def)
qed

text \<open>
  C25. Retrying on the primary replica is bounded: however the cluster behaves, a task is started at most ten
  times. Here the task counts its starts in an extension of the state that the driver does not use.
\<close>

theorem primary_retries_bounded:
  fixes task :: "('w, nat, 'a) task"
  assumes "\<And>d db s. conn.more (snd (task d db s)) = Suc (conn.more s)"
  shows "conn.more (snd (runOnPrimaryReplica env i task s)) \<le> conn.more s + PRIMARY_REPLICA_TASK_MAX_RETRIES"
proof -
  have attempt: "conn.more (snd (attemptOnPrimary i task s)) \<le> Suc (conn.more s)" for s
    using assms by (simp add: attemptOnPrimary_def split: option.split)
  have tries: "conn.more (snd (runOnPrimaryReplica_tries n env i task s)) \<le> conn.more s + n" for n s
  proof (induction n arbitrary: s)
    case (Suc n)
    obtain r s' where a: "attemptOnPrimary i task s = (r, s')" by fastforce
    obtain r2 s2 where w: "waitForPrimaryReplicaSelection env s' = (r2, s2)" by fastforce
    obtain r3 s3 where k: "seekPrimaryReplica env i s2 = (r3, s3)" by fastforce
    have "conn.more s3 = conn.more s2" "conn.more s2 = conn.more s'"
      using keepsD [OF extension.keeps_seek k] keepsD [OF extension.keeps_wait w] by simp_all
    then show ?case
      using attempt [of s] a w k Suc.IH [of s3]
      by (auto simp: io_simps split: sum.splits)
  qed (simp add: io_simps)
  show ?thesis
  proof (cases "primaryReplica (cn_databases s i)")
    case None
    obtain r s' where k: "seekPrimaryReplica env i s = (r, s')" by fastforce
    with keepsD [OF extension.keeps_seek k] tries [of _ s'] None show ?thesis
      by (auto simp: runOnPrimaryReplica_def io_simps split: sum.splits)
  next
    case (Some r)
    with tries [of _ s] show ?thesis by (simp add: runOnPrimaryReplica_def io_simps)
  qed
qed

theorem primary_retries_bounded_witness:
  "conn.more (snd (runOnPrimaryReplica demo_env 0
     (\<lambda>d db s. (Inl (throw_template UNABLE_TO_CONNECT) :: thrown + unit, s\<lparr>conn.more := Suc (conn.more s)\<rparr>))
     (demo_conn 0))) \<le> 10"
  using primary_retries_bounded [of "\<lambda>d db s. (Inl (throw_template UNABLE_TO_CONNECT) :: thrown + unit,
     s\<lparr>conn.more := Suc (conn.more s)\<rparr>)" demo_env 0 "demo_conn 0"]
  by (simp add: PRIMARY_REPLICA_TASK_MAX_RETRIES_def demo_conn_def)

text \<open>
  C17. A change of primary is followed: when the task fails at the known primary because the server is down or no longer
  the primary, and after waiting the servers name replicas with a primary, the task is run again at that primary, the
  one with the highest term, and its success there is the result.
\<close>

theorem primary_failover_followed:
  assumes "attemptOnPrimary i task s = (Inl e, sa)" and "retryable e"
    and "primaryReplica (cn_databases s i) = Some r"
    and "waitForPrimaryReplicaSelection env sa = (Inr (), sb)"
    and "fetchReplicas env (db_name (cn_databases sb i)) sb = (Inr rs, sc)"
    and "primaryReplica \<lparr>db_name = db_name (cn_databases sc i), db_replicas = rs\<rparr> = Some r'"
    and "sd = sc\<lparr>cn_databases := (cn_databases sc)(i := (cn_databases sc i)\<lparr>db_replicas := rs\<rparr>)\<rparr>"
    and "task (jmap_get (cn_serverDrivers sd) (rep_server r')) (rep_database r') sd = (Inr x, se)"
  shows "runOnPrimaryReplica env i task s = (Inr x, se)"
proof -
  have found: "primaryReplica ((cn_databases sc i)\<lparr>db_replicas := rs\<rparr>) = Some r'"
    using assms(6) by (simp add: primaryReplica_def)
  then have prim: "primaryReplica (cn_databases sd i) = Some r'" by (simp add: assms(7))
  have ten: "FETCH_REPLICAS_MAX_RETRIES = Suc 9" "PRIMARY_REPLICA_TASK_MAX_RETRIES = Suc (Suc 8)"
    by (simp_all add: FETCH_REPLICAS_MAX_RETRIES_def PRIMARY_REPLICA_TASK_MAX_RETRIES_def)
  have "seekPrimaryReplica env i sb = (Inr r', sd)"
    using assms(5) found unfolding seekPrimaryReplica_def ten seekPrimaryReplica_tries.simps
    by (simp add: io_simps set_replicas_def assms(7))
  moreover have "attemptOnPrimary i task sd = (Inr x, se)"
    using prim assms(8) by (simp add: attemptOnPrimary_def)
  ultimately show ?thesis
    using assms(1-4) unfolding runOnPrimaryReplica_def ten runOnPrimaryReplica_tries.simps
    by (simp add: io_simps)
qed

definition demo_cluster_env :: "nat env" where
  "demo_cluster_env = demo_env\<lparr>env_rpc := (\<lambda>a m md req w.
     (Inr (PMsg m [(''database'', PMsg ''DatabaseReplicas'' [(''replicas'',
        PList [PMsg ''Replica'' [(''address'', PString ''b''), (''primary'', PBool True), (''term'', PNumber (Num 2))]])])]),
      w + 1))\<rparr>"

definition demo_server :: "string \<Rightarrow> server_driver" where
  "demo_server a = \<lparr>sd_address = a, sd_stub = 0, sd_transmitter = 0\<rparr>"

definition demo_cluster :: "(nat, nat) conn_scheme" where
  "demo_cluster = (demo_conn 0)\<lparr>cn_serverDrivers := [(''b'', demo_server ''b'')],
     cn_databases := (\<lambda>_. \<lparr>db_name = ''db'', db_replicas = [demo_replica ''a'' 1 True]\<rparr>)\<rparr>"

definition demo_failing_task :: "(nat, nat, bool) task" where
  "demo_failing_task d db s =
     (case d of None \<Rightarrow> (Inl (throw_template CLOUD_REPLICA_NOT_PRIMARY), s) | Some _ \<Rightarrow> (Inr True, s))"

theorem primary_failover_followed_witness:
  "fst (runOnPrimaryReplica demo_cluster_env 0 demo_failing_task demo_cluster) = Inr True"
proof -
  let ?r = "\<lparr>rep_server = ''b'', rep_database = \<lparr>sdb_name = ''db'', sdb_driver = Some (demo_server ''b'')\<rparr>,
    rep_term = 2, rep_isPrimary = True, rep_isPreferred = False\<rparr>"
  let ?s = "demo_cluster\<lparr>net_world := 1\<rparr>"
  let ?t = "?s\<lparr>cn_databases := (cn_databases ?s)(0 := (cn_databases ?s 0)\<lparr>db_replicas := [?r]\<rparr>)\<rparr>"
  have "primaryReplica (cn_databases demo_cluster 0) = Some (demo_replica ''a'' 1 True)"
    by (simp add: demo_cluster_def demo_conn_def demo_replica_def primaryReplica_def)
  moreover from this have "attemptOnPrimary 0 demo_failing_task demo_cluster =
      (Inl (throw_template CLOUD_REPLICA_NOT_PRIMARY), demo_cluster)"
    by (simp add: attemptOnPrimary_def demo_failing_task_def demo_replica_def demo_cluster_def)
  moreover have "fetchReplicas demo_cluster_env (db_name (cn_databases demo_cluster 0)) demo_cluster = (Inr [?r], ?s)"
    by (simp add: fetchReplicas_def databasesGet_def mayRenewToken_def call_wrapped_def call_raw_def io_simps
        read_replicas_def replicas_of_def replica_of_def demo_cluster_env_def demo_cluster_def demo_server_def
        demo_conn_def demo_env_def)
  ultimately have "runOnPrimaryReplica demo_cluster_env 0 demo_failing_task demo_cluster = (Inr True, ?t)"
    by (intro primary_failover_followed [where e = "throw_template CLOUD_REPLICA_NOT_PRIMARY" and sa = demo_cluster
          and sb = demo_cluster and sc = ?s and sd = ?t and rs = "[?r]" and r' = ?r and r = "demo_replica ''a'' 1 True"])
      (simp_all add: retryable_def has_template_def waitForPrimaryReplicaSelection_def io_simps primaryReplica_def
        demo_failing_task_def, simp_all add: demo_cluster_env_def demo_env_def demo_cluster_def)
  then show ?thesis by simp
qed

text \<open>The errors of the servers when a task fails at each of them in turn, none of them because the server is not the primary one.\<close>

fun failures_through :: "(server_driver option \<Rightarrow> ('w, 'z, 'a) conn_io) \<Rightarrow> server_driver list \<Rightarrow> ('w, 'z) conn_scheme
    \<Rightarrow> ((server_driver \<times> thrown) list \<times> ('w, 'z) conn_scheme) option" where
  "failures_through task [] s = Some ([], s)"
| "failures_through task (d # ds) s =
     (case task (Some d) s of
        (Inl e, s') \<Rightarrow>
          if has_template CLOUD_REPLICA_NOT_PRIMARY e then None
          else map_option (\<lambda>(es, s''). ((d, e) # es, s'')) (failures_through task ds s')
      | (Inr _, _) \<Rightarrow> None)"

lemma runFailsafe_from_failures:
  "failures_through task ds s = Some (es, s') \<Longrightarrow>
   dbm_runFailsafe_from env name task errors ds s =
     (Inl (throw_message CLOUD_ALL_NODES_FAILED [errors @ concat (map (\<lambda>(d, e). failure_line d e) es)]), s') \<and> map fst es = ds"
  by (induction task ds s arbitrary: errors es rule: failures_through.induct)
    (auto simp: io_simps split: prod.splits sum.splits if_splits)

text \<open>
  C26. When every server fails, the error of the database manager names every one of them: for a task that fails at each server of
  the driver, one after the other and each in the state that the one before left behind, and at none of them with the error that the server is not
  the primary replica, the outcome is that error whose text has one line for each server, in the order of the driver's table, with
  the address of the server and the error it gave; no server is left out. (After an error that the server is not the primary replica the
  manager turns to the primary replica instead.)
\<close>

theorem all_nodes_failed_names_servers:
  assumes "failures_through task (jmap_values (cn_serverDrivers s)) s = Some (es, s')"
  shows "dbm_runFailsafe env name task s =
      (Inl (throw_message CLOUD_ALL_NODES_FAILED
         [concat (map (\<lambda>(d, e). ''- '' @ sd_address d @ '': '' @ error_toString e @ newline) es)]), s') \<and>
    map fst es = jmap_values (cn_serverDrivers s)"
  using runFailsafe_from_failures [OF assms, of env name "[]"]
  by (simp add: dbm_runFailsafe_def io_simps failure_line_def)

theorem all_nodes_failed_names_servers_witness:
  "let a = \<lparr>sd_address = ''a'', sd_stub = 0, sd_transmitter = 0\<rparr>; b = \<lparr>sd_address = ''b'', sd_stub = 0, sd_transmitter = 1\<rparr>;
       s = (demo_conn 0)\<lparr>cn_serverDrivers := [(''a'', a), (''b'', b)]\<rparr>;
       err = \<lparr>se_code = UNAVAILABLE, se_details = ''down'', se_message = ''down''\<rparr>;
       env = demo_env\<lparr>env_rpc := \<lambda>_ _ _ _ w. (Inl err, Suc w)\<rparr>;
       line = (\<lambda>d. ''- '' @ sd_address d @ '': '' @ error_toString (typedb_driver_error (ArgError (GrpcError err))) @ newline) in
   dbm_create env ''db'' s = (Inl (throw_message CLOUD_ALL_NODES_FAILED [line a @ line b]), s\<lparr>net_world := 2\<rparr>)"
proof -
  let ?a = "\<lparr>sd_address = ''a'', sd_stub = 0, sd_transmitter = 0\<rparr>" and ?b = "\<lparr>sd_address = ''b'', sd_stub = 0, sd_transmitter = 1\<rparr>"
  let ?s = "(demo_conn 0)\<lparr>cn_serverDrivers := [(''a'', ?a), (''b'', ?b)]\<rparr>"
  let ?err = "\<lparr>se_code = UNAVAILABLE, se_details = ''down'', se_message = ''down''\<rparr>"
  let ?env = "demo_env\<lparr>env_rpc := \<lambda>_ _ _ _ w. (Inl ?err, Suc w)\<rparr>"
  let ?e = "typedb_driver_error (ArgError (GrpcError ?err))"
  let ?task = "\<lambda>d. with_stub d (\<lambda>st. databasesCreate ?env st (DatabaseManager_createReq ''db''))"
  have templates: "\<not> has_template CLOUD_TOKEN_CREDENTIAL_INVALID ?e" "\<not> has_template CLOUD_REPLICA_NOT_PRIMARY ?e"
    by (simp_all add: has_template_def)
  have "failures_through ?task (jmap_values (cn_serverDrivers ?s)) ?s = Some ([(?a, ?e), (?b, ?e)], ?s\<lparr>net_world := 2\<rparr>)"
    by (simp add: with_stub_def databasesCreate_def mayRenewToken_def call_wrapped_def call_raw_def io_simps templates
        demo_conn_def demo_net_def demo_env_def numeral_2_eq_2 del: typedb_driver_error.simps)
  from all_nodes_failed_names_servers [OF this, of ?env "''db''"] show ?thesis
    by (simp add: dbm_create_def Let_def del: typedb_driver_error.simps)
qed

text \<open>
  Reading a schema never fails over: whatever error the first replica's server gives, it is thrown as it is, and
  no other replica is tried, although the same task with a wrapped error would go on to the next one.
\<close>

lemma schema_never_fails_over:
  assumes "db_replicas (cn_databases s i) = r # rs"
    and "sdb_driver (rep_database r) = Some d"
    and "call_raw env (sd_stub d) ''database_schema'' (Database_schemaReq (sdb_name (rep_database r)))
           (\<lambda>res. p_string (proto_get ''schema'' res)) s = (Inl e, s')"
  shows "database_schema env i s = (Inl e, s')"
proof -
  have "\<not> has_template t e" for t
    using call_raw_service_error [OF assms(3)] by auto
  then show ?thesis
    using assms
    by (simp add: database_schema_def runFailsafe_def runOnAnyReplica_def sdb_schema_def with_stub_def
        databaseSchema_def mayRenewToken_raw io_simps)
qed

lemma schema_never_fails_over_example:
  "let d = \<lparr>sd_address = ''a'', sd_stub = 0, sd_transmitter = 0\<rparr>;
       s = (demo_conn 0)\<lparr>cn_databases := (\<lambda>_. \<lparr>db_name = ''db'', db_replicas =
             [(demo_replica ''a'' 1 True)\<lparr>rep_database := \<lparr>sdb_name = ''db'', sdb_driver = Some d\<rparr>\<rparr>,
              demo_replica ''b'' 2 True]\<rparr>)\<rparr>
   in database_schema demo_env 0 s = (Inl (GrpcError demo_error), s\<lparr>net_world := 1\<rparr>)"
  unfolding Let_def
  by (rule schema_never_fails_over [where d = "\<lparr>sd_address = ''a'', sd_stub = 0, sd_transmitter = 0\<rparr>"
        and r = "(demo_replica ''a'' 1 True)\<lparr>rep_database := \<lparr>sdb_name = ''db'',
          sdb_driver = Some \<lparr>sd_address = ''a'', sd_stub = 0, sd_transmitter = 0\<rparr>\<rparr>\<rparr>"
        and rs = "[demo_replica ''b'' 2 True]"])
    (simp_all add: call_raw_def demo_conn_def demo_replica_def demo_env_def demo_net_def createCallCredentials_def)

text \<open>
  A database whose name is a member of every JavaScript object is never found: although the servers have it, the manager returns
  the inherited member instead of a database, unless a database of that name has been cached before.
\<close>

lemma database_named_like_member:
  assumes "dbm_contains env name s = (Inr True, s')"
    and "name \<in> set object_prototype_members"
    and "jmap_get (cn_database_cache s') name = None"
  shows "dbm_get env name s = (Inr (InheritedMember name), s')"
  using assms by (simp add: dbm_get_def cache_lookup_def io_simps)

definition demo_core_env :: "nat env" where
  "demo_core_env = demo_env\<lparr>env_rpc := (\<lambda>a m md req w. (Inr (PMsg m [(''contains'', PBool True)]), w))\<rparr>"

lemma database_named_like_member_example:
  "let s = (demo_conn 0)\<lparr>cn_serverDrivers := [(''a'', \<lparr>sd_address = ''a'', sd_stub = 0, sd_transmitter = 0\<rparr>)]\<rparr>
   in dbm_get demo_core_env ''constructor'' s = (Inr (InheritedMember ''constructor''), s)"
  unfolding Let_def
  by (rule database_named_like_member)
    (simp_all add: dbm_contains_def dbm_runFailsafe_def with_stub_def databasesContains_def mayRenewToken_def
      call_wrapped_def call_raw_def io_simps demo_conn_def demo_core_env_def demo_env_def object_prototype_members_def)

end
