(* ===== verification/Options_Model.thy ===== *)
theory Options_Model
  imports Request_Builder
begin

text \<open>
  The options of \<open>api/connection/TypeDBOptions.ts\<close> and the session and transaction types of
  \<open>api/connection/TypeDBSession.ts\<close> and \<open>api/connection/TypeDBTransaction.ts\<close>. An option that was never
  set is \<open>undefined\<close>, here \<open>None\<close>. The constructor assigns the properties of an object literal one
  after the other through the setters, so it is a list of assignments. How JavaScript prints a number is a
  parameter of the setters that mention the number in an error.
\<close>

section \<open>Session and transaction types\<close>

datatype session_type = DATA | SCHEMA

fun session_type_toProto :: "session_type \<Rightarrow> session_type_proto" where
  "session_type_toProto DATA = S_DATA"
| "session_type_toProto SCHEMA = S_SCHEMA"

definition isData :: "session_type \<Rightarrow> bool" where
  "isData t \<longleftrightarrow> t = DATA"

definition isSchema :: "session_type \<Rightarrow> bool" where
  "isSchema t \<longleftrightarrow> t = SCHEMA"

datatype transaction_type = READ | WRITE

fun transaction_type_toProto :: "transaction_type \<Rightarrow> transaction_type_proto" where
  "transaction_type_toProto READ = TX_READ"
| "transaction_type_toProto WRITE = TX_WRITE"

definition isRead :: "transaction_type \<Rightarrow> bool" where
  "isRead t \<longleftrightarrow> t = READ"

definition isWrite :: "transaction_type \<Rightarrow> bool" where
  "isWrite t \<longleftrightarrow> t = WRITE"

section \<open>Options\<close>

record options =
  op_infer :: "bool option"
  op_traceInference :: "bool option"
  op_explain :: "bool option"
  op_parallel :: "bool option"
  op_prefetchSize :: "js_number option"
  op_prefetch :: "bool option"
  op_sessionIdleTimeoutMillis :: "js_number option"
  op_transactionTimeoutMillis :: "js_number option"
  op_schemaLockAcquireTimeoutMillis :: "js_number option"
  op_readAnyReplica :: "bool option"

definition options_default :: options where
  "options_default =
     \<lparr>op_infer = None,
      op_traceInference = None,
      op_explain = None,
      op_parallel = None,
      op_prefetchSize = None,
      op_prefetch = None,
      op_sessionIdleTimeoutMillis = None,
      op_transactionTimeoutMillis = None,
      op_schemaLockAcquireTimeoutMillis = None,
      op_readAnyReplica = None\<rparr>"

definition set_infer :: "bool option \<Rightarrow> options \<Rightarrow> thrown + options" where
  "set_infer value opts = Inr (opts\<lparr>op_infer := value\<rparr>)"

definition set_traceInference :: "bool option \<Rightarrow> options \<Rightarrow> thrown + options" where
  "set_traceInference value opts = Inr (opts\<lparr>op_traceInference := value\<rparr>)"

definition set_explain :: "bool option \<Rightarrow> options \<Rightarrow> thrown + options" where
  "set_explain value opts = Inr (opts\<lparr>op_explain := value\<rparr>)"

definition set_parallel :: "bool option \<Rightarrow> options \<Rightarrow> thrown + options" where
  "set_parallel value opts = Inr (opts\<lparr>op_parallel := value\<rparr>)"

definition set_prefetchSize :: "(js_number \<Rightarrow> string) \<Rightarrow> js_number option \<Rightarrow> options \<Rightarrow> thrown + options" where
  "set_prefetchSize show_number value opts =
     (case value of
        Some v \<Rightarrow>
          if num_less v (Num 1) then Inl (throw_message NEGATIVE_VALUE_NOT_ALLOWED [show_number v])
          else Inr (opts\<lparr>op_prefetchSize := Some v\<rparr>)
      | None \<Rightarrow> Inr (opts\<lparr>op_prefetchSize := None\<rparr>))"

definition set_prefetch :: "bool option \<Rightarrow> options \<Rightarrow> thrown + options" where
  "set_prefetch value opts = Inr (opts\<lparr>op_prefetch := value\<rparr>)"

definition set_sessionIdleTimeoutMillis :: "(js_number \<Rightarrow> string) \<Rightarrow> js_number option \<Rightarrow> options \<Rightarrow> thrown + options" where
  "set_sessionIdleTimeoutMillis show_number value opts =
     (case value of
        Some v \<Rightarrow>
          if num_less v (Num 1) then Inl (throw_message NEGATIVE_VALUE_NOT_ALLOWED [show_number v])
          else Inr (opts\<lparr>op_sessionIdleTimeoutMillis := Some v\<rparr>)
      | None \<Rightarrow> Inr (opts\<lparr>op_sessionIdleTimeoutMillis := None\<rparr>))"

definition set_transactionTimeoutMillis :: "(js_number \<Rightarrow> string) \<Rightarrow> js_number option \<Rightarrow> options \<Rightarrow> thrown + options" where
  "set_transactionTimeoutMillis show_number value opts =
     (case value of
        Some v \<Rightarrow>
          if num_less v (Num 1) then Inl (throw_message NEGATIVE_VALUE_NOT_ALLOWED [show_number v])
          else Inr (opts\<lparr>op_transactionTimeoutMillis := Some v\<rparr>)
      | None \<Rightarrow> Inr (opts\<lparr>op_transactionTimeoutMillis := None\<rparr>))"

definition set_schemaLockAcquireTimeoutMillis :: "(js_number \<Rightarrow> string) \<Rightarrow> js_number option \<Rightarrow> options \<Rightarrow> thrown + options" where
  "set_schemaLockAcquireTimeoutMillis show_number value opts =
     (case value of
        Some v \<Rightarrow>
          if num_less v (Num 1) then Inl (throw_message NEGATIVE_VALUE_NOT_ALLOWED [show_number v])
          else Inr (opts\<lparr>op_schemaLockAcquireTimeoutMillis := Some v\<rparr>)
      | None \<Rightarrow> Inr (opts\<lparr>op_schemaLockAcquireTimeoutMillis := None\<rparr>))"

definition set_readAnyReplica :: "bool option \<Rightarrow> options \<Rightarrow> thrown + options" where
  "set_readAnyReplica value opts = Inr (opts\<lparr>op_readAnyReplica := value\<rparr>)"

text \<open>The assignments of an object literal, and the constructor.\<close>

datatype option_assignment =
    Set_infer "bool option"
  | Set_traceInference "bool option"
  | Set_explain "bool option"
  | Set_parallel "bool option"
  | Set_prefetchSize "js_number option"
  | Set_prefetch "bool option"
  | Set_sessionIdleTimeoutMillis "js_number option"
  | Set_transactionTimeoutMillis "js_number option"
  | Set_schemaLockAcquireTimeoutMillis "js_number option"
  | Set_readAnyReplica "bool option"

fun assign :: "(js_number \<Rightarrow> string) \<Rightarrow> option_assignment \<Rightarrow> options \<Rightarrow> thrown + options" where
  "assign show_number (Set_infer v) = set_infer v"
| "assign show_number (Set_traceInference v) = set_traceInference v"
| "assign show_number (Set_explain v) = set_explain v"
| "assign show_number (Set_parallel v) = set_parallel v"
| "assign show_number (Set_prefetchSize v) = set_prefetchSize show_number v"
| "assign show_number (Set_prefetch v) = set_prefetch v"
| "assign show_number (Set_sessionIdleTimeoutMillis v) = set_sessionIdleTimeoutMillis show_number v"
| "assign show_number (Set_transactionTimeoutMillis v) = set_transactionTimeoutMillis show_number v"
| "assign show_number (Set_schemaLockAcquireTimeoutMillis v) = set_schemaLockAcquireTimeoutMillis show_number v"
| "assign show_number (Set_readAnyReplica v) = set_readAnyReplica v"

fun assign_all :: "(js_number \<Rightarrow> string) \<Rightarrow> option_assignment list \<Rightarrow> options \<Rightarrow> thrown + options" where
  "assign_all show_number [] opts = Inr opts"
| "assign_all show_number (a # as) opts =
     (case assign show_number a opts of
        Inl e \<Rightarrow> Inl e
      | Inr opts' \<Rightarrow> assign_all show_number as opts')"

definition options_new :: "(js_number \<Rightarrow> string) \<Rightarrow> option_assignment list \<Rightarrow> thrown + options" where
  "options_new show_number obj = assign_all show_number obj options_default"

text \<open>The message: a field for each option that is set, in the order of the source.\<close>

definition set_if :: "string \<Rightarrow> ('a \<Rightarrow> proto) \<Rightarrow> 'a option \<Rightarrow> proto \<Rightarrow> proto" where
  "set_if k f x m = (case x of None \<Rightarrow> m | Some v \<Rightarrow> proto_set k (f v) m)"

definition options_proto :: "options \<Rightarrow> proto" where
  "options_proto opts =
     (set_if ''read_any_replica'' PBool (op_readAnyReplica opts) \<circ>
      set_if ''schema_lock_acquire_timeout_millis'' PNumber (op_schemaLockAcquireTimeoutMillis opts) \<circ>
      set_if ''transaction_timeout_millis'' PNumber (op_transactionTimeoutMillis opts) \<circ>
      set_if ''session_idle_timeout_millis'' PNumber (op_sessionIdleTimeoutMillis opts) \<circ>
      set_if ''prefetch'' PBool (op_prefetch opts) \<circ>
      set_if ''prefetch_size'' PNumber (op_prefetchSize opts) \<circ>
      set_if ''parallel'' PBool (op_parallel opts) \<circ>
      set_if ''explain'' PBool (op_explain opts) \<circ>
      set_if ''trace_inference'' PBool (op_traceInference opts) \<circ>
      set_if ''infer'' PBool (op_infer opts))
     (PMsg ''Options'' [])"

section \<open>Lemmas\<close>

fun p_bool_opt :: "proto \<Rightarrow> bool option" where
  "p_bool_opt (PValue (JBoolean b)) = Some b"
| "p_bool_opt _ = None"

fun p_number_opt :: "proto \<Rightarrow> js_number option" where
  "p_number_opt (PValue (JNumber n)) = Some n"
| "p_number_opt _ = None"

text \<open>What the server reads from the message.\<close>

definition options_read :: "proto \<Rightarrow> options" where
  "options_read m =
     \<lparr>op_infer = p_bool_opt (proto_get ''infer'' m),
      op_traceInference = p_bool_opt (proto_get ''trace_inference'' m),
      op_explain = p_bool_opt (proto_get ''explain'' m),
      op_parallel = p_bool_opt (proto_get ''parallel'' m),
      op_prefetchSize = p_number_opt (proto_get ''prefetch_size'' m),
      op_prefetch = p_bool_opt (proto_get ''prefetch'' m),
      op_sessionIdleTimeoutMillis = p_number_opt (proto_get ''session_idle_timeout_millis'' m),
      op_transactionTimeoutMillis = p_number_opt (proto_get ''transaction_timeout_millis'' m),
      op_schemaLockAcquireTimeoutMillis = p_number_opt (proto_get ''schema_lock_acquire_timeout_millis'' m),
      op_readAnyReplica = p_bool_opt (proto_get ''read_any_replica'' m)\<rparr>"

definition options_invar :: "options \<Rightarrow> bool" where
  "options_invar opts \<longleftrightarrow>
     (\<forall>v. op_prefetchSize opts = Some v \<longrightarrow> \<not> num_less v (Num 1)) \<and>
     (\<forall>v. op_sessionIdleTimeoutMillis opts = Some v \<longrightarrow> \<not> num_less v (Num 1)) \<and>
     (\<forall>v. op_transactionTimeoutMillis opts = Some v \<longrightarrow> \<not> num_less v (Num 1)) \<and>
     (\<forall>v. op_schemaLockAcquireTimeoutMillis opts = Some v \<longrightarrow> \<not> num_less v (Num 1))"

lemmas setter_defs =
  set_infer_def set_traceInference_def set_explain_def set_parallel_def set_prefetchSize_def set_prefetch_def set_sessionIdleTimeoutMillis_def set_transactionTimeoutMillis_def set_schemaLockAcquireTimeoutMillis_def set_readAnyReplica_def

lemma assign_invar: "assign sn a opts = Inr opts' \<Longrightarrow> options_invar opts \<Longrightarrow> options_invar opts'"
  by (cases a) (auto simp: setter_defs options_invar_def split: option.splits if_splits)

lemma assign_all_invar: "assign_all sn as opts = Inr opts' \<Longrightarrow> options_invar opts \<Longrightarrow> options_invar opts'"
  by (induction as arbitrary: opts) (auto split: sum.splits dest: assign_invar)

lemma proto_get_set_if:
  "proto_class m \<noteq> [] \<Longrightarrow> proto_get j (set_if k f x m) = (if j = k \<and> x \<noteq> None then f (the x) else proto_get j m)"
  by (cases m) (auto simp: set_if_def proto_get_set split: option.split simp del: proto_set.simps)

lemma proto_class_set_if [simp]: "proto_class (set_if k f x m) = proto_class m"
  by (cases m) (auto simp: set_if_def split: option.split)

lemma p_opt_proto_reads [simp]:
  "p_bool_opt (if x \<noteq> None then PBool (the x) else PUndefined) = x"
  "p_number_opt (if y \<noteq> None then PNumber (the y) else PUndefined) = y"
  by auto

section \<open>Properties\<close>

text \<open>
  The options message says exactly what was set: the server reads back every option, set or not, with its value.
\<close>

lemma options_roundtrip: "options_read (options_proto opts) = opts"
  by (simp add: options_read_def options_proto_def proto_get_set_if)

text \<open>
  Sizes and timeouts are never less than one: options built by the constructor from any object literal and
  changed by any sequence of assignments either raise an error or hold no number less than one. A number
  that is not less than one can still be \<open>NaN\<close>, which every setter accepts.
\<close>

lemma options_numbers_checked:
  assumes "options_new sn obj = Inr opts" and "assign_all sn as opts = Inr opts'"
  shows "options_invar opts' \<and>
    set_prefetchSize sn (Some NaN) opts' = Inr (opts'\<lparr>op_prefetchSize := Some NaN\<rparr>)"
proof -
  have "options_invar options_default" by (simp add: options_invar_def options_default_def)
  with assms have "options_invar opts'"
    unfolding options_new_def by (blast intro: assign_all_invar)
  then show ?thesis by (simp add: set_prefetchSize_def)
qed

lemma options_numbers_checked_example:
  "\<exists>opts. options_new (\<lambda>_. []) [Set_prefetchSize (Some (Num 5))] = Inr opts \<and> options_invar opts"
proof -
  have "options_new (\<lambda>_. []) [Set_prefetchSize (Some (Num 5))] =
      Inr (options_default\<lparr>op_prefetchSize := Some (Num 5)\<rparr>)"
    by (simp add: options_new_def set_prefetchSize_def)
  moreover from options_numbers_checked [OF this, of "[]"]
  have "options_invar (options_default\<lparr>op_prefetchSize := Some (Num 5)\<rparr>)" by simp
  ultimately show ?thesis by blast
qed

end
