(* ===== verification/Async_Stream.thy ===== *)
theory Async_Stream
  imports Error_Messages
begin

text \<open>
  The lazy streams of \<open>common/util/Stream.ts\<close>. A stream is what its asynchronous iterator delivers,
  element by element: it can end, throw, or leave the consumer waiting. An operation of the class that
  returns a promise yields \<open>None\<close> when the promise is never settled. The callbacks of a consumer can throw.
\<close>

datatype 'a stream =
    SEnd
  | SThrow thrown
  | SPending
  | SNext 'a "'a stream"

section \<open>Sources\<close>

text \<open>The iterator of the abstract class itself, and the streams over arrays and arrays of promises.\<close>

definition s_abstract :: "'a stream" where
  "s_abstract = SThrow (typedb_driver_error (ArgString ''ILLEGAL STATE''))"

fun s_iterable :: "'a stream \<Rightarrow> 'a stream" where
  "s_iterable (SNext x s) = SNext x (s_iterable s)"
| "s_iterable s = s"

fun s_array :: "'a list \<Rightarrow> 'a stream" where
  "s_array [] = SEnd"
| "s_array (x # xs) = SNext x (s_array xs)"

fun s_promises :: "(thrown + 'a) list \<Rightarrow> 'a stream" where
  "s_promises [] = SEnd"
| "s_promises (Inl e # ps) = SThrow e"
| "s_promises (Inr x # ps) = SNext x (s_promises ps)"

section \<open>Transformations\<close>

fun s_filter :: "('a \<Rightarrow> thrown + bool) \<Rightarrow> 'a stream \<Rightarrow> 'a stream" where
  "s_filter f (SNext x s) =
     (case f x of
        Inl e \<Rightarrow> SThrow e
      | Inr b \<Rightarrow> if b then SNext x (s_filter f s) else s_filter f s)"
| "s_filter f SEnd = SEnd"
| "s_filter f (SThrow e) = SThrow e"
| "s_filter f SPending = SPending"

fun s_map :: "('a \<Rightarrow> thrown + 'b) \<Rightarrow> 'a stream \<Rightarrow> 'b stream" where
  "s_map f (SNext x s) =
     (case f x of
        Inl e \<Rightarrow> SThrow e
      | Inr y \<Rightarrow> SNext y (s_map f s))"
| "s_map f SEnd = SEnd"
| "s_map f (SThrow e) = SThrow e"
| "s_map f SPending = SPending"

text \<open>The inner loop of a flat map: the elements of one stream, then what the outer loop delivers next.\<close>

fun s_append :: "'a stream \<Rightarrow> 'a stream \<Rightarrow> 'a stream" where
  "s_append (SNext x s) t = SNext x (s_append s t)"
| "s_append SEnd t = t"
| "s_append (SThrow e) t = SThrow e"
| "s_append SPending t = SPending"

fun s_flatMap :: "('a \<Rightarrow> thrown + 'b stream) \<Rightarrow> 'a stream \<Rightarrow> 'b stream" where
  "s_flatMap f (SNext x s) =
     (case f x of
        Inl e \<Rightarrow> SThrow e
      | Inr t \<Rightarrow> s_append t (s_flatMap f s))"
| "s_flatMap f SEnd = SEnd"
| "s_flatMap f (SThrow e) = SThrow e"
| "s_flatMap f SPending = SPending"

section \<open>Consumers\<close>

fun s_collect_into :: "'a list \<Rightarrow> 'a stream \<Rightarrow> (thrown + 'a list) option" where
  "s_collect_into answers (SNext x s) = s_collect_into (answers @ [x]) s"
| "s_collect_into answers SEnd = Some (Inr answers)"
| "s_collect_into answers (SThrow e) = Some (Inl e)"
| "s_collect_into answers SPending = None"

definition s_collect :: "'a stream \<Rightarrow> (thrown + 'a list) option" where
  "s_collect s = s_collect_into [] s"

fun s_every :: "('a \<Rightarrow> thrown + bool) \<Rightarrow> 'a stream \<Rightarrow> (thrown + bool) option" where
  "s_every f (SNext x s) =
     (case f x of
        Inl e \<Rightarrow> Some (Inl e)
      | Inr b \<Rightarrow> if \<not> b then Some (Inr False) else s_every f s)"
| "s_every f SEnd = Some (Inr True)"
| "s_every f (SThrow e) = Some (Inl e)"
| "s_every f SPending = None"

fun s_some :: "('a \<Rightarrow> thrown + bool) \<Rightarrow> 'a stream \<Rightarrow> (thrown + bool) option" where
  "s_some f (SNext x s) =
     (case f x of
        Inl e \<Rightarrow> Some (Inl e)
      | Inr b \<Rightarrow> if b then Some (Inr True) else s_some f s)"
| "s_some f SEnd = Some (Inr False)"
| "s_some f (SThrow e) = Some (Inl e)"
| "s_some f SPending = None"

fun s_forEach :: "('a \<Rightarrow> 's \<Rightarrow> (thrown + unit) \<times> 's) \<Rightarrow> 'a stream \<Rightarrow> 's \<Rightarrow> (thrown + unit) option \<times> 's" where
  "s_forEach f (SNext x s) w =
     (case f x w of
        (Inl e, w') \<Rightarrow> (Some (Inl e), w')
      | (Inr _, w') \<Rightarrow> s_forEach f s w')"
| "s_forEach f SEnd w = (Some (Inr ()), w)"
| "s_forEach f (SThrow e) w = (Some (Inl e), w)"
| "s_forEach f SPending w = (None, w)"

fun s_first :: "'a stream \<Rightarrow> (thrown + 'a option) option" where
  "s_first (SNext x s) = Some (Inr (Some x))"
| "s_first SEnd = Some (Inr None)"
| "s_first (SThrow e) = Some (Inl e)"
| "s_first SPending = None"

section \<open>Lemmas\<close>

lemma s_collect_into_acc: "s_collect_into xs s = map_option (map_sum id (\<lambda>ys. xs @ ys)) (s_collect s)"
  unfolding s_collect_def
proof (induction s arbitrary: xs)
  case (SNext x s)
  from SNext.IH [of "xs @ [x]"] SNext.IH [of "[x]"] show ?case
    by (simp add: option.map_comp sum.map_comp comp_def)
qed simp_all

lemma s_collect_simps [simp]:
  "s_collect (SNext x s) = map_option (map_sum id (\<lambda>ys. x # ys)) (s_collect s)"
  "s_collect SEnd = Some (Inr [])"
  "s_collect (SThrow e) = Some (Inl e)"
  "s_collect SPending = None"
  using s_collect_into_acc [of "[x]" s] by (simp_all add: s_collect_def)

lemma s_iterable_id [simp]: "s_iterable s = s"
  by (induction s) simp_all

lemma s_collect_append:
  "s_collect (s_append s t) =
     (case s_collect s of
        None \<Rightarrow> None
      | Some (Inl e) \<Rightarrow> Some (Inl e)
      | Some (Inr xs) \<Rightarrow> map_option (map_sum id (\<lambda>ys. xs @ ys)) (s_collect t))"
proof (induction s)
  case SEnd
  have "r = map_sum id ((@) []) r" for r :: "thrown + 'a list" by (cases r) simp_all
  then show ?case by (cases "s_collect t") simp_all
next
  case (SNext x s)
  then show ?case
    by (auto simp: option.map_comp sum.map_comp comp_def split: option.split sum.split
        intro!: option.map_cong sum.map_cong)
qed simp_all

lemma s_append_assoc: "s_append (s_append s t) u = s_append s (s_append t u)"
  by (induction s) simp_all

lemma s_flatMap_append:
  "s_flatMap f (s_append s t) = s_append (s_flatMap f s) (s_flatMap f t)"
  by (induction s) (simp_all add: s_append_assoc split: sum.split)

lemma s_append_SEnd [simp]: "s_append s SEnd = s"
  by (induction s) simp_all

text \<open>Streams over arrays stay streams over arrays.\<close>

lemma s_append_array [simp]: "s_append (s_array xs) (s_array ys) = s_array (xs @ ys)"
  by (induction xs) simp_all

lemma s_collect_array [simp]: "s_collect (s_array xs) = Some (Inr xs)"
  by (induction xs) simp_all

lemma s_map_array: "(\<And>x. x \<in> set xs \<Longrightarrow> f x = Inr (g x)) \<Longrightarrow> s_map f (s_array xs) = s_array (map g xs)"
  by (induction xs) simp_all

lemma s_flatMap_array:
  "(\<And>x. x \<in> set xs \<Longrightarrow> f x = Inr (s_array (g x))) \<Longrightarrow> s_flatMap f (s_array xs) = s_array (concat (map g xs))"
  by (induction xs) simp_all

text \<open>
  What a consumer of outcomes collects that come one after the other: the first failure, or pending for ever, ends it. A stream delivers
  some elements and then stops in one of three ways.
\<close>

fun collect_all :: "(thrown + 'a list) option list \<Rightarrow> (thrown + 'a list) option" where
  "collect_all [] = Some (Inr [])"
| "collect_all (None # rs) = None"
| "collect_all (Some (Inl e) # rs) = Some (Inl e)"
| "collect_all (Some (Inr xs) # rs) = map_option (map_sum id (\<lambda>ys. xs @ ys)) (collect_all rs)"

fun s_delivered :: "'a stream \<Rightarrow> 'a list" where
  "s_delivered (SNext x s) = x # s_delivered s"
| "s_delivered _ = []"

fun s_stop :: "'a stream \<Rightarrow> (thrown + 'b list) option" where
  "s_stop (SNext x s) = s_stop s"
| "s_stop SEnd = Some (Inr [])"
| "s_stop (SThrow e) = Some (Inl e)"
| "s_stop SPending = None"

lemma collected_prefix:
  fixes r :: "(thrown + 'a list) option"
  shows "map_option (map_sum id ((@) [])) r = r" "(@) [x] = (#) x"
proof -
  have "map_sum id ((@) []) o' = o'" for o' :: "thrown + 'a list" by (cases o') simp_all
  then show "map_option (map_sum id ((@) [])) r = r" by (cases r) simp_all
qed auto

section \<open>Properties\<close>

text \<open>
  C33. Transformations compute what their names say, whatever the callbacks and the source do. A consumer of a filtered, mapped or flat-mapped
  stream collects, element by element of the source, what the callback gives for it: the element or nothing, the new element, or all
  that the stream given by the callback delivers. The first callback that throws, and the first stream of a callback that fails or stays pending, is the outcome;
  behind all elements it is the failure or the pending of the source. With callbacks that return, filtering and mapping are the functions on lists.
\<close>

theorem stream_transformations_collect:
  "s_collect (s_filter p s) =
     collect_all (map (\<lambda>x. Some (map_sum id (\<lambda>b. if b then [x] else []) (p x))) (s_delivered s) @ [s_stop s]) \<and>
   s_collect (s_map f s) = collect_all (map (\<lambda>x. Some (map_sum id (\<lambda>y. [y]) (f x))) (s_delivered s) @ [s_stop s]) \<and>
   s_collect (s_flatMap g s) =
     collect_all (map (\<lambda>x. case g x of Inl e \<Rightarrow> Some (Inl e) | Inr t \<Rightarrow> s_collect t) (s_delivered s) @ [s_stop s]) \<and>
   s_collect (s_filter (\<lambda>x. Inr (q x)) s) = map_option (map_sum id (filter q)) (s_collect s) \<and>
   s_collect (s_map (\<lambda>x. Inr (h x)) s) = map_option (map_sum id (map h)) (s_collect s)"
proof (intro conjI)
  show "s_collect (s_filter p s) =
      collect_all (map (\<lambda>x. Some (map_sum id (\<lambda>b. if b then [x] else []) (p x))) (s_delivered s) @ [s_stop s])"
    by (induction s) (auto simp: collected_prefix split: sum.split)
  show "s_collect (s_map f s) = collect_all (map (\<lambda>x. Some (map_sum id (\<lambda>y. [y]) (f x))) (s_delivered s) @ [s_stop s])"
    by (induction s) (auto simp: collected_prefix split: sum.split)
  show "s_collect (s_flatMap g s) =
      collect_all (map (\<lambda>x. case g x of Inl e \<Rightarrow> Some (Inl e) | Inr t \<Rightarrow> s_collect t) (s_delivered s) @ [s_stop s])"
    by (induction s) (auto simp: s_collect_append split: sum.split option.split)
  show "s_collect (s_filter (\<lambda>x. Inr (q x)) s) = map_option (map_sum id (filter q)) (s_collect s)"
    by (induction s) (simp_all add: option.map_comp sum.map_comp comp_def)
  show "s_collect (s_map (\<lambda>x. Inr (h x)) s) = map_option (map_sum id (map h)) (s_collect s)"
    by (induction s) (simp_all add: option.map_comp sum.map_comp comp_def)
qed

text \<open>
  Consumers stop at the element that decides: after elements on which the callback does not decide,
  \<open>every\<close> answers no and \<open>some\<close> answers yes at the first deciding element, and an exception of the callback is
  thrown there, whatever the stream holds behind it, even if it never delivers again.
\<close>

lemma stream_consumers_short_circuit:
  assumes "\<forall>x \<in> set xs. f x = Inr b" and "f y \<noteq> Inr b"
  shows "(if b then s_every f else s_some f) (s_append (s_array xs) (SNext y rest)) = Some (f y)"
  using assms by (induction xs) (auto split: sum.split)

lemma stream_consumers_short_circuit_example:
  "s_every (\<lambda>n. Inr (0 < n)) (s_append (s_array [1, 2 :: nat]) (SNext 0 SPending)) = Some (Inr False)"
  using stream_consumers_short_circuit [of "[1, 2 :: nat]" "\<lambda>n. Inr (0 < n)" True 0 SPending] by simp

text \<open>
  Flat-mapping is sequencing: flat-mapping twice is flat-mapping once with the composed callback,
  also when callbacks throw and streams fail or never deliver.
\<close>

lemma stream_flatMap_assoc:
  "s_flatMap g (s_flatMap f s) = s_flatMap (\<lambda>x. map_sum id (s_flatMap g) (f x)) s"
  by (induction s) (simp_all add: s_flatMap_append split: sum.split)

end
