(* ===== verification/Session_Model.thy ===== *)
theory Session_Model
  imports Replica_Failover Options_Model Async_Stream
begin

text \<open>
  Sessions and transactions, \<open>connection/TypeDBSessionImpl.ts\<close> and \<open>connection/TypeDBTransactionImpl.ts\<close>,
  over the whole state of a driver. Sessions and transactions are objects in stores, named by numbers. The
  streams inside a transaction are the subject of \<open>Bidi_Stream\<close>; here a transaction is open or closed
  with an error, and what the outside contributes is whether a gRPC stream can be opened, how the server answers a request
  on it, and how the generated code prints a message inside an error text. Callbacks registered by the user are numbers; the calls made to them are recorded.

  A pending \<open>setTimeout\<close> is an entry of the session's list of pending timers, and the field \<open>_pulse\<close> is the
  handle that \<open>clearTimeout\<close> removes.
\<close>

section \<open>State\<close>

record 'w world_env =
  we_env :: "'w env"
  we_openStream :: "string \<Rightarrow> 'w \<Rightarrow> thrown option \<times> 'w"
  we_exchange :: "string \<Rightarrow> bool \<Rightarrow> proto \<Rightarrow> 'w \<Rightarrow> (thrown + proto) \<times> 'w"
  we_stream :: "string \<Rightarrow> proto \<Rightarrow> 'w \<Rightarrow> proto stream \<times> 'w"
  we_millis :: "'w \<Rightarrow> int"
  we_show :: "proto \<Rightarrow> string"

record transaction =
  tx_session :: nat
  tx_type :: transaction_type
  tx_options :: options
  tx_address :: string
  tx_isOpen :: bool
  tx_error :: "error_arg option"

record session =
  se_databaseName :: string
  se_type :: session_type
  se_options :: options
  se_id :: string
  se_database :: nat
  se_isOpen :: bool
  se_serverDriver :: "server_driver option"
  se_pulse :: nat
  se_timers :: "nat list"
  se_timer_count :: nat
  se_networkLatencyMillis :: int
  se_transactions :: "nat list"
  se_onClose :: "nat list"
  se_onReopen :: "nat list"
  se_called :: "nat list"

datatype init_addresses = AddressList "string list" | AddressMap "(string, string) jmap"

record 'w driver = "'w conn" +
  dr_isOpen :: bool
  dr_isCloud :: bool
  dr_initAddresses :: init_addresses
  dr_credential :: "credential option"
  dr_userManager :: bool
  dr_transmitter_count :: nat
  dr_sessions :: "(string, nat) jmap"
  dr_session :: "nat \<Rightarrow> session"
  dr_session_count :: nat
  dr_transaction :: "nat \<Rightarrow> transaction"
  dr_transaction_count :: nat

type_synonym ('w, 'a) drv_io = "('w driver, thrown, 'a) io"

definition upd_session :: "nat \<Rightarrow> (session \<Rightarrow> session) \<Rightarrow> ('w, unit) drv_io" where
  "upd_session i f = io_update (\<lambda>s. s\<lparr>dr_session := (dr_session s)(i := f (dr_session s i))\<rparr>)"

definition upd_transaction :: "nat \<Rightarrow> (transaction \<Rightarrow> transaction) \<Rightarrow> ('w, unit) drv_io" where
  "upd_transaction t f = io_update (\<lambda>s. s\<lparr>dr_transaction := (dr_transaction s)(t := f (dr_transaction s t))\<rparr>)"

section \<open>Transactions\<close>

definition transaction_new :: "nat \<Rightarrow> transaction_type \<Rightarrow> options \<Rightarrow> ('w, nat) drv_io" where
  "transaction_new session typ opts s =
     (let t = dr_transaction_count s
      in (Inr t,
          s\<lparr>dr_transaction := (dr_transaction s)(t :=
               \<lparr>tx_session = session, tx_type = typ, tx_options = opts, tx_address = [], tx_isOpen = False,
                tx_error = None\<rparr>),
            dr_transaction_count := Suc t\<rparr>))"

text \<open>The text of the error that closed the stream, as a template literal prints it.\<close>

fun arg_toString :: "error_arg \<Rightarrow> string" where
  "arg_toString (ArgString t) = t"
| "arg_toString (ArgMessage m) = message_toString m"
| "arg_toString (ArgError e) = error_toString e"

definition throwTransactionClosed :: "nat \<Rightarrow> ('w, 'a) drv_io" where
  "throwTransactionClosed t s =
     (if tx_isOpen (dr_transaction s t) then (Inl (throw_template ILLEGAL_STATE), s)
      else
        (case tx_error (dr_transaction s t) of
           None \<Rightarrow> (Inl (throw_template TRANSACTION_CLOSED), s)
         | Some e \<Rightarrow> (Inl (throw_message TRANSACTION_CLOSED_WITH_ERRORS [arg_toString e]), s)))"

definition rpcExecute :: "'w world_env \<Rightarrow> nat \<Rightarrow> proto \<Rightarrow> bool option \<Rightarrow> ('w, proto) drv_io" where
  "rpcExecute we t request batch s =
     (if \<not> tx_isOpen (dr_transaction s t) then throwTransactionClosed t s
      else
        (let useBatch = (batch \<noteq> Some False);
             (r, w) = we_exchange we (tx_address (dr_transaction s t)) useBatch request (net_world s)
         in (r, s\<lparr>net_world := w\<rparr>)))"

definition rpcStream :: "'w world_env \<Rightarrow> nat \<Rightarrow> proto \<Rightarrow> ('w, proto stream) drv_io" where
  "rpcStream we t request s =
     (if \<not> tx_isOpen (dr_transaction s t) then throwTransactionClosed t s
      else
        (let (parts, w) = we_stream we (tx_address (dr_transaction s t)) request (net_world s)
         in (Inr (s_iterable parts), s\<lparr>net_world := w\<rparr>)))"

definition open_stream :: "'w world_env \<Rightarrow> string \<Rightarrow> ('w, unit) drv_io" where
  "open_stream we address s =
     (case we_openStream we address (net_world s) of
        (Some e, w) \<Rightarrow> (Inl e, s\<lparr>net_world := w\<rparr>)
      | (None, w) \<Rightarrow> (Inr (), s\<lparr>net_world := w\<rparr>))"

definition transaction_open :: "'w world_env \<Rightarrow> nat \<Rightarrow> ('w, unit) drv_io" where
  "transaction_open we t =
     io_bind (io_gets (\<lambda>s. dr_transaction s t)) (\<lambda>tx.
     io_bind (io_gets (\<lambda>s. dr_session s (tx_session tx))) (\<lambda>se.
     case se_serverDriver se of
       None \<Rightarrow> io_throw (type_error ''stub'')
     | Some sd \<Rightarrow>
         io_bind (open_stream we (sd_address sd)) (\<lambda>_.
         io_bind (upd_transaction t (\<lambda>tx. tx\<lparr>tx_address := sd_address sd, tx_isOpen := True\<rparr>)) (\<lambda>_.
         io_bind
           (io_lift (Transaction_openReq (se_id se) (transaction_type_toProto (tx_type tx))
              (options_proto (tx_options tx)) (Num (of_int (se_networkLatencyMillis se)))))
           (\<lambda>openReq. io_bind (rpcExecute we t openReq (Some False)) (\<lambda>_. io_return ()))))))"

definition session_closed :: "nat \<Rightarrow> nat \<Rightarrow> ('w, unit) drv_io" where
  "session_closed i t = upd_session i (\<lambda>se. se\<lparr>se_transactions := removeAll t (se_transactions se)\<rparr>)"

text \<open>
  Closing without an error also forgets the error of an earlier close, as the stream does. The close callbacks of the stream are left out: they are taken to
  return, as one that throws would keep \<open>close\<close> from telling the session.
\<close>

definition transaction_close :: "nat \<Rightarrow> ('w, unit) drv_io" where
  "transaction_close t =
     io_bind (upd_transaction t (\<lambda>tx. tx\<lparr>tx_isOpen := False, tx_error := None\<rparr>)) (\<lambda>_.
     io_bind (io_gets (\<lambda>s. tx_session (dr_transaction s t))) (\<lambda>i. session_closed i t))"

definition commit :: "'w world_env \<Rightarrow> nat \<Rightarrow> ('w, unit) drv_io" where
  "commit we t s =
     (case rpcExecute we t Transaction_commitReq (Some False) s of
        (r, s') \<Rightarrow>
          (case transaction_close t s' of
             (Inl e, s'') \<Rightarrow> (Inl e, s'')
           | (Inr _, s'') \<Rightarrow> (map_sum id (\<lambda>_. ()) r, s'')))"

definition rollback :: "'w world_env \<Rightarrow> nat \<Rightarrow> ('w, unit) drv_io" where
  "rollback we t = io_bind (rpcExecute we t Transaction_rollbackReq (Some False)) (\<lambda>_. io_return ())"

section \<open>Sessions\<close>

definition session_new :: "string \<Rightarrow> session_type \<Rightarrow> options \<Rightarrow> ('w, nat) drv_io" where
  "session_new databaseName typ opts s =
     (let i = dr_session_count s
      in (Inr i,
          s\<lparr>dr_session := (dr_session s)(i :=
               \<lparr>se_databaseName = databaseName, se_type = typ, se_options = opts, se_id = ''undefined'',
                se_database = 0, se_isOpen = False, se_serverDriver = None, se_pulse = 0, se_timers = [],
                se_timer_count = 0, se_networkLatencyMillis = 0, se_transactions = [], se_onClose = [],
                se_onReopen = [], se_called = []\<rparr>),
            dr_session_count := Suc i\<rparr>))"

definition onClose :: "nat \<Rightarrow> nat \<Rightarrow> ('w, unit) drv_io" where
  "onClose i cb = upd_session i (\<lambda>se. se\<lparr>se_onClose := se_onClose se @ [cb]\<rparr>)"

definition onReopen :: "nat \<Rightarrow> nat \<Rightarrow> ('w, unit) drv_io" where
  "onReopen i cb = upd_session i (\<lambda>se. se\<lparr>se_onReopen := se_onReopen se @ [cb]\<rparr>)"

text \<open>\<open>this._pulse = setTimeout(...)\<close> and \<open>clearTimeout(this._pulse)\<close>.\<close>

definition set_pulse :: "session \<Rightarrow> session" where
  "set_pulse se =
     se\<lparr>se_pulse := se_timer_count se, se_timers := se_timers se @ [se_timer_count se],
        se_timer_count := Suc (se_timer_count se)\<rparr>"

definition clear_pulse :: "session \<Rightarrow> session" where
  "clear_pulse se = se\<lparr>se_timers := removeAll (se_pulse se) (se_timers se)\<rparr>"

text \<open>
  The latency: \<open>getMilliseconds\<close> is the millisecond within the second, 0 to 999, not the time.
\<close>

definition network_latency :: "int \<Rightarrow> int \<Rightarrow> int \<Rightarrow> int" where
  "network_latency start end_time server_duration =
     max (((end_time mod 1000) - (start mod 1000)) - server_duration) 1"

definition openAt :: "'w world_env \<Rightarrow> nat \<Rightarrow> server_driver option \<Rightarrow> ('w, unit) drv_io" where
  "openAt we i d =
     io_bind (io_gets (\<lambda>s. dr_session s i)) (\<lambda>se.
     io_bind (io_gets (\<lambda>s. we_millis we (net_world s))) (\<lambda>start.
     io_bind
       (with_stub d (\<lambda>st. sessionOpen (we_env we) st
          (Session_openReq (se_databaseName se) (session_type_toProto (se_type se)) (options_proto (se_options se)))))
       (\<lambda>res.
     io_bind (io_gets (\<lambda>s. we_millis we (net_world s))) (\<lambda>end_time.
     upd_session i (\<lambda>se. set_pulse (se
       \<lparr>se_networkLatencyMillis := network_latency start end_time (p_int (proto_get ''server_duration_millis'' res)),
        se_id := bytesToHexString (p_bytes (proto_get ''session_id'' res)),
        se_serverDriver := d, se_isOpen := True\<rparr>))))))"

definition reopenAt :: "'w world_env \<Rightarrow> nat \<Rightarrow> server_driver option \<Rightarrow> ('w, unit) drv_io" where
  "reopenAt we i d =
     io_bind (openAt we i d) (\<lambda>_.
     upd_session i (\<lambda>se. se\<lparr>se_called := se_called se @ se_onReopen se\<rparr>))"

text \<open>The getter \<open>databases\<close> of the driver.\<close>

definition databases :: "('w, unit) drv_io" where
  "databases s = (if \<not> dr_isOpen s then (Inl (throw_template DRIVER_NOT_OPEN), s) else (Inr (), s))"

definition session_open :: "'w world_env \<Rightarrow> nat \<Rightarrow> ('w, unit) drv_io" where
  "session_open we i =
     io_bind databases (\<lambda>_.
     io_bind (io_gets (\<lambda>s. se_databaseName (dr_session s i))) (\<lambda>name.
     io_bind (dbm_get (we_env we) name) (\<lambda>db.
     case db of
       InheritedMember _ \<Rightarrow> io_throw (NativeError ''TypeError'' ''this._database.runFailsafe is not a function'' None)
     | CachedDatabase d \<Rightarrow>
         io_bind (upd_session i (\<lambda>se. se\<lparr>se_database := d\<rparr>)) (\<lambda>_.
         runFailsafe (we_env we) d (\<lambda>sd _. openAt we i sd)))))"

fun close_transactions :: "nat list \<Rightarrow> ('w, unit) drv_io" where
  "close_transactions [] = io_return ()"
| "close_transactions (t # ts) = io_bind (transaction_close t) (\<lambda>_. close_transactions ts)"

definition closeSession :: "nat \<Rightarrow> ('w, unit) drv_io" where
  "closeSession i = io_update (\<lambda>s. s\<lparr>dr_sessions := jmap_delete (se_id (dr_session s i)) (dr_sessions s)\<rparr>)"

text \<open>
  A callback is a number, and calling it appends it to \<open>se_called\<close>: callbacks are taken to return. One that throws would skip the callbacks behind it, the
  removal from the driver and the clearing of the timer.
\<close>

definition closeResources :: "nat \<Rightarrow> ('w, unit) drv_io" where
  "closeResources i =
     io_bind (upd_session i (\<lambda>se. se\<lparr>se_isOpen := False\<rparr>)) (\<lambda>_.
     io_bind (io_gets (\<lambda>s. se_transactions (dr_session s i))) (\<lambda>ts.
     io_bind (close_transactions ts) (\<lambda>_.
     io_bind (upd_session i (\<lambda>se. se\<lparr>se_called := se_called se @ se_onClose se\<rparr>)) (\<lambda>_.
     io_bind (closeSession i) (\<lambda>_. upd_session i clear_pulse)))))"

definition session_close :: "'w world_env \<Rightarrow> nat \<Rightarrow> ('w, unit) drv_io" where
  "session_close we i =
     io_bind (io_gets (\<lambda>s. se_isOpen (dr_session s i))) (\<lambda>is_open.
     if is_open then
       io_bind (closeResources i) (\<lambda>_.
       io_bind (io_gets (\<lambda>s. dr_session s i)) (\<lambda>se.
       io_bind (io_lift (Session_closeReq (se_id se))) (\<lambda>req.
       with_stub (se_serverDriver se) (\<lambda>st. sessionClose (we_env we) st req))))
     else io_return ())"

definition new_open_transaction :: "'w world_env \<Rightarrow> nat \<Rightarrow> transaction_type \<Rightarrow> options \<Rightarrow> ('w, nat) drv_io" where
  "new_open_transaction we i typ opts =
     io_bind (transaction_new i typ opts) (\<lambda>t. io_bind (transaction_open we t) (\<lambda>_. io_return t))"

definition session_transaction :: "'w world_env \<Rightarrow> nat \<Rightarrow> transaction_type \<Rightarrow> options option \<Rightarrow> ('w, nat) drv_io" where
  "session_transaction we i typ options =
     io_bind (io_gets (\<lambda>s. se_isOpen (dr_session s i))) (\<lambda>is_open.
     if \<not> is_open then io_throw (throw_template SESSION_CLOSED)
     else
       (let opts = (case options of None \<Rightarrow> options_default | Some opts \<Rightarrow> opts) in
        io_bind
          (io_catch (new_open_transaction we i typ opts)
             (\<lambda>e.
                io_bind (session_close we i) (\<lambda>_.
                io_bind (io_gets (\<lambda>s. se_database (dr_session s i))) (\<lambda>d.
                runFailsafe (we_env we) d (\<lambda>sd _.
                  io_bind (reopenAt we i sd) (\<lambda>_. new_open_transaction we i typ opts))))))
          (\<lambda>t.
             io_bind (upd_session i (\<lambda>se. se\<lparr>se_transactions := set_add t (se_transactions se)\<rparr>)) (\<lambda>_. io_return t))))"

text \<open>The timer callback. The timer that fires is no longer pending.\<close>

definition pulse :: "'w world_env \<Rightarrow> nat \<Rightarrow> ('w, unit) drv_io" where
  "pulse we i =
     io_bind (io_gets (\<lambda>s. dr_session s i)) (\<lambda>se.
     if \<not> se_isOpen se then io_return ()
     else
       io_bind (io_lift (Session_pulseReq (se_id se))) (\<lambda>req.
       io_catch
         (io_bind (with_stub (se_serverDriver se) (\<lambda>st. sessionPulse (we_env we) st req)) (\<lambda>isAlive.
          if \<not> isAlive then closeResources i else upd_session i set_pulse))
         (\<lambda>_. upd_session i (\<lambda>se. se\<lparr>se_isOpen := False\<rparr>))))"

definition pulse_fires :: "'w world_env \<Rightarrow> nat \<Rightarrow> nat \<Rightarrow> ('w, unit) drv_io" where
  "pulse_fires we i h =
     io_bind (upd_session i (\<lambda>se. se\<lparr>se_timers := removeAll h (se_timers se)\<rparr>)) (\<lambda>_. pulse we i)"

section \<open>Lemmas\<close>

lemmas session_io = io_simps upd_session_def upd_transaction_def

text \<open>
  The table of sessions and the session objects are parts of the state that the connection layer does not
  touch; opening a transaction leaves both alone.
\<close>

interpretation session_table: frame "dr_sessions :: 'w driver \<Rightarrow> (string, nat) jmap"
  by unfold_locales simp_all

interpretation session_objects: frame "dr_session :: 'w driver \<Rightarrow> nat \<Rightarrow> session"
  by unfold_locales simp_all

lemma keeps_new_open_transaction [keeps_intros]:
  "keeps dr_sessions (new_open_transaction we i typ opts)"
  "keeps dr_session (new_open_transaction we i typ opts)"
proof -
  have base: "keeps dr_sessions (rpcExecute we t req b)" "keeps dr_session (rpcExecute we t req b)"
    "keeps dr_sessions (open_stream we a)" "keeps dr_session (open_stream we a)"
    "keeps dr_sessions (upd_transaction t g)" "keeps dr_session (upd_transaction t g)"
    "keeps dr_sessions (transaction_new i typ opts)" "keeps dr_session (transaction_new i typ opts)"
    for t req b a g
    by (auto simp: keeps_def rpcExecute_def throwTransactionClosed_def open_stream_def transaction_new_def session_io
        Let_def split: prod.split option.split)
  show "keeps dr_sessions (new_open_transaction we i typ opts)" "keeps dr_session (new_open_transaction we i typ opts)"
    unfolding new_open_transaction_def transaction_open_def by (intro keeps_intros base)+
qed

lemma keeps_sessions_reopen [keeps_intros]:
  "keeps dr_sessions (upd_session i f)" "keeps dr_sessions (openAt we i d)" "keeps dr_sessions (reopenAt we i d)"
proof -
  show upd: "keeps dr_sessions (upd_session i f)" for i f
    by (simp add: keeps_def session_io)
  show opn: "keeps dr_sessions (openAt we i d)"
    unfolding openAt_def sessionOpen_def with_stub_def by (intro keeps_intros upd)
  show "keeps dr_sessions (reopenAt we i d)"
    unfolding reopenAt_def by (intro keeps_intros opn upd)
qed

text \<open>Closing the transactions of a session.\<close>

definition own_transactions :: "nat \<Rightarrow> 'w driver \<Rightarrow> bool" where
  "own_transactions i s \<longleftrightarrow> (\<forall>t \<in> set (se_transactions (dr_session s i)). tx_session (dr_transaction s t) = i)"

lemma transaction_close_effect:
  "transaction_close t s =
     (Inr (),
      s\<lparr>dr_transaction := (dr_transaction s)(t := (dr_transaction s t)\<lparr>tx_isOpen := False, tx_error := None\<rparr>),
        dr_session := (dr_session s)(tx_session (dr_transaction s t) :=
          (dr_session s (tx_session (dr_transaction s t)))
            \<lparr>se_transactions := removeAll t (se_transactions (dr_session s (tx_session (dr_transaction s t))))\<rparr>)\<rparr>)"
  by (simp add: transaction_close_def session_closed_def session_io)

lemma close_transactions_effect:
  assumes "\<forall>t \<in> set ts. tx_session (dr_transaction s t) = i"
  shows "\<exists>s'. close_transactions ts s = (Inr (), s') \<and>
    dr_session s' i = (dr_session s i)\<lparr>se_transactions := filter (\<lambda>t. t \<notin> set ts) (se_transactions (dr_session s i))\<rparr> \<and>
    (\<forall>t. dr_transaction s' t =
       (if t \<in> set ts then (dr_transaction s t)\<lparr>tx_isOpen := False, tx_error := None\<rparr> else dr_transaction s t)) \<and>
    (\<forall>j. j \<noteq> i \<longrightarrow> dr_session s' j = dr_session s j) \<and>
    dr_sessions s' = dr_sessions s \<and> dr_session_count s' = dr_session_count s \<and>
    dr_transaction_count s' = dr_transaction_count s"
  using assms
proof (induction ts arbitrary: s)
  case Nil
  then show ?case by (simp add: io_simps)
next
  case (Cons t ts)
  obtain sa where step: "transaction_close t s = (Inr (), sa)" by (simp add: transaction_close_effect)
  have "\<forall>t \<in> set ts. tx_session (dr_transaction sa t) = i"
    using Cons.prems step by (auto simp: transaction_close_effect)
  from Cons.IH [OF this] obtain s' where s': "close_transactions ts sa = (Inr (), s')"
    "dr_session s' i = (dr_session sa i)\<lparr>se_transactions := filter (\<lambda>t. t \<notin> set ts) (se_transactions (dr_session sa i))\<rparr>"
    "\<forall>u. dr_transaction s' u =
       (if u \<in> set ts then (dr_transaction sa u)\<lparr>tx_isOpen := False, tx_error := None\<rparr> else dr_transaction sa u)"
    "\<forall>j. j \<noteq> i \<longrightarrow> dr_session s' j = dr_session sa j"
    "dr_sessions s' = dr_sessions sa" "dr_session_count s' = dr_session_count sa"
    "dr_transaction_count s' = dr_transaction_count sa"
    by blast
  have "close_transactions (t # ts) s = (Inr (), s')"
    using step s'(1) by (simp add: io_bind_def)
  moreover have "dr_session sa i = (dr_session s i)\<lparr>se_transactions := removeAll t (se_transactions (dr_session s i))\<rparr>"
    "dr_transaction sa = (dr_transaction s)(t := (dr_transaction s t)\<lparr>tx_isOpen := False, tx_error := None\<rparr>)"
    "\<forall>j. j \<noteq> i \<longrightarrow> dr_session sa j = dr_session s j"
    "dr_sessions sa = dr_sessions s" "dr_session_count sa = dr_session_count s"
    "dr_transaction_count sa = dr_transaction_count s"
    using Cons.prems step by (auto simp: transaction_close_effect)
  moreover have "filter (\<lambda>u. u \<notin> set ts) (removeAll t us) = filter (\<lambda>u. u \<noteq> t \<and> u \<notin> set ts) us" for us
    by (induction us) auto
  ultimately show ?case using s' by auto
qed

lemma closeResources_effect:
  assumes "own_transactions i s"
  shows "\<exists>s'. closeResources i s = (Inr (), s') \<and>
    dr_session s' i = clear_pulse ((dr_session s i)\<lparr>se_isOpen := False, se_transactions := [],
      se_called := se_called (dr_session s i) @ se_onClose (dr_session s i)\<rparr>) \<and>
    (\<forall>t. dr_transaction s' t =
       (if t \<in> set (se_transactions (dr_session s i))
        then (dr_transaction s t)\<lparr>tx_isOpen := False, tx_error := None\<rparr> else dr_transaction s t)) \<and>
    (\<forall>j. j \<noteq> i \<longrightarrow> dr_session s' j = dr_session s j) \<and>
    dr_sessions s' = jmap_delete (se_id (dr_session s i)) (dr_sessions s) \<and>
    dr_session_count s' = dr_session_count s \<and> dr_transaction_count s' = dr_transaction_count s"
proof -
  let ?s = "s\<lparr>dr_session := (dr_session s)(i := (dr_session s i)\<lparr>se_isOpen := False\<rparr>)\<rparr>"
  let ?ts = "se_transactions (dr_session s i)"
  have "\<forall>t \<in> set ?ts. tx_session (dr_transaction ?s t) = i"
    using assms by (simp add: own_transactions_def)
  from close_transactions_effect [OF this] obtain s' where s': "close_transactions ?ts ?s = (Inr (), s')"
    "dr_session s' i = (dr_session ?s i)\<lparr>se_transactions := filter (\<lambda>t. t \<notin> set ?ts) (se_transactions (dr_session ?s i))\<rparr>"
    "\<forall>t. dr_transaction s' t =
       (if t \<in> set ?ts then (dr_transaction ?s t)\<lparr>tx_isOpen := False, tx_error := None\<rparr> else dr_transaction ?s t)"
    "\<forall>j. j \<noteq> i \<longrightarrow> dr_session s' j = dr_session ?s j"
    "dr_sessions s' = dr_sessions ?s" "dr_session_count s' = dr_session_count ?s"
    "dr_transaction_count s' = dr_transaction_count ?s"
    by blast
  have "filter (\<lambda>t. t \<notin> set ?ts) ?ts = []" by simp
  with s' show ?thesis
    by (simp add: closeResources_def closeSession_def session_io clear_pulse_def)
qed

lemma keeps_close_transactions:
  "keeps dr_sessions (close_transactions ts)" "keeps (\<lambda>s. se_id (dr_session s i)) (close_transactions ts)"
proof -
  have "keeps dr_sessions (transaction_close t)" "keeps (\<lambda>s. se_id (dr_session s i)) (transaction_close t)" for t
    by (simp_all add: keeps_def transaction_close_effect)
  then show "keeps dr_sessions (close_transactions ts)" "keeps (\<lambda>s. se_id (dr_session s i)) (close_transactions ts)"
    by (induction ts) (auto intro: keeps_intros)
qed

lemma close_transactions_returns: "\<exists>s'. close_transactions ts s = (Inr (), s')"
  by (induction ts arbitrary: s) (simp_all add: io_simps transaction_close_effect)

lemma session_close_sessions:
  fixes we :: "'w world_env"
  assumes "se_isOpen (dr_session s i)" and "session_close we i s = (r, s')"
  shows "dr_sessions s' = jmap_delete (se_id (dr_session s i)) (dr_sessions s)"
proof -
  let ?s = "s\<lparr>dr_session := (dr_session s)(i := (dr_session s i)\<lparr>se_isOpen := False\<rparr>)\<rparr>"
  obtain s1 where s1: "close_transactions (se_transactions (dr_session s i)) ?s = (Inr (), s1)"
    using close_transactions_returns by blast
  have "dr_sessions s1 = dr_sessions s" "se_id (dr_session s1 i) = se_id (dr_session s i)"
    using keepsD [OF keeps_close_transactions(1) s1] keepsD [OF keeps_close_transactions(2) s1, of i] by simp_all
  moreover obtain s2 where s2: "closeResources i s = (Inr (), s2)"
    "dr_sessions s2 = jmap_delete (se_id (dr_session s1 i)) (dr_sessions s1)"
    using s1 by (simp add: closeResources_def closeSession_def session_io)
  moreover have "dr_sessions s' = dr_sessions s2"
  proof -
    let ?rest = "io_bind (io_gets (\<lambda>s. dr_session s i)) (\<lambda>se.
       io_bind (io_lift (Session_closeReq (se_id se))) (\<lambda>req.
       with_stub (se_serverDriver se) (\<lambda>st. sessionClose (we_env we) st req))) :: ('w, unit) drv_io"
    have "keeps dr_sessions ?rest"
      unfolding with_stub_def sessionClose_def by (intro keeps_intros)
    moreover have "?rest s2 = (r, s')"
      using assms s2(1) by (simp add: session_close_def io_bind_def io_gets_def)
    ultimately show ?thesis by (rule keepsD)
  qed
  ultimately show ?thesis by simp
qed

section \<open>Properties\<close>

definition demo_session :: session where
  "demo_session =
     \<lparr>se_databaseName = ''db'', se_type = DATA, se_options = options_default, se_id = bytesToHexString [1], se_database = 0,
      se_isOpen = True, se_serverDriver = Some (demo_server ''a''), se_pulse = 0, se_timers = [0], se_timer_count = 1,
      se_networkLatencyMillis = 1, se_transactions = [0], se_onClose = [7], se_onReopen = [], se_called = []\<rparr>"

definition demo_driver :: "nat driver" where
  "demo_driver =
     \<lparr>net_stubs = net_stubs demo_net, net_count = 1, net_world = 0, cn_serverDrivers = [(''a'', demo_server ''a'')],
      cn_databases = (\<lambda>_. \<lparr>db_name = ''db'', db_replicas = [demo_replica ''a'' 1 True]\<rparr>), cn_database_count = 1,
      cn_database_cache = [], dr_isOpen = True, dr_isCloud = False, dr_initAddresses = AddressList [''a:1''],
      dr_credential = None, dr_userManager = False, dr_transmitter_count = 1, dr_sessions = [(bytesToHexString [1], 0)],
      dr_session = (\<lambda>_. demo_session), dr_session_count = 1,
      dr_transaction = (\<lambda>_. \<lparr>tx_session = 0, tx_type = READ, tx_options = options_default, tx_address = ''a'',
        tx_isOpen = True, tx_error = None\<rparr>), dr_transaction_count = 1\<rparr>"

definition demo_world_env :: "nat world_env" where
  "demo_world_env =
     \<lparr>we_env = demo_env\<lparr>env_rpc := (\<lambda>a m md req w. (Inr (PMsg m [(''session_id'', PBytes [2])]), w + 1))\<rparr>,
      we_openStream = (\<lambda>a w. (if w = 0 then Some (throw_template UNABLE_TO_CONNECT) else None, w + 1)),
      we_exchange = (\<lambda>a b req w. (Inr PUndefined, w + 1)), we_stream = (\<lambda>a req w. (SEnd, w)), we_millis = int,
      we_show = proto_class\<rparr>"

lemmas demo_defs =
  demo_world_env_def demo_driver_def demo_session_def demo_env_def demo_net_def demo_server_def demo_replica_def

text \<open>
  C27. A commit always closes its transaction: whatever the server answers, and also when the transaction was
  already closed, afterwards the transaction is closed and its session no longer holds it; the answer or the error of
  the exchange is what the caller gets. Close callbacks of the transaction are taken to return.
\<close>

theorem commit_always_closes:
  assumes "commit we t s = (r, s')" and "rpcExecute we t Transaction_commitReq (Some False) s = (a, s1)"
  shows "r = map_sum id (\<lambda>_. ()) a \<and> \<not> tx_isOpen (dr_transaction s' t) \<and>
    t \<notin> set (se_transactions (dr_session s' (tx_session (dr_transaction s' t))))"
  using assms by (auto simp: commit_def transaction_close_effect)

theorem commit_always_closes_witness:
  "\<not> tx_isOpen (dr_transaction (snd (commit demo_world_env 0 demo_driver)) 0)"
  using commit_always_closes [OF prod.collapse [symmetric] prod.collapse [symmetric], of demo_world_env 0 demo_driver]
  by blast

text \<open>
  A closed transaction is inert: executing or streaming a request and rolling back fail with
  \<open>TRANSACTION_CLOSED\<close>, or with the text of the error that closed it, without contacting the server and without
  changing anything.
\<close>

lemma closed_transaction_inert:
  assumes "\<not> tx_isOpen (dr_transaction s t)"
    and "e = (case tx_error (dr_transaction s t) of
       None \<Rightarrow> throw_template TRANSACTION_CLOSED
     | Some err \<Rightarrow> throw_message TRANSACTION_CLOSED_WITH_ERRORS [arg_toString err])"
  shows "rpcExecute we t req b s = (Inl e, s) \<and> rpcStream we t req s = (Inl e, s) \<and> rollback we t s = (Inl e, s) \<and>
    fst (commit we t s) = Inl e"
  using assms
  by (auto simp: rpcExecute_def rpcStream_def rollback_def commit_def throwTransactionClosed_def
      transaction_close_effect io_simps split: option.split)

lemma closed_transaction_inert_example:
  "let s = demo_driver\<lparr>dr_transaction := (\<lambda>_. (dr_transaction demo_driver 0)\<lparr>tx_isOpen := False\<rparr>)\<rparr>
   in rollback demo_world_env 0 s = (Inl (throw_template TRANSACTION_CLOSED), s)"
  using closed_transaction_inert [OF _ refl, of
      "demo_driver\<lparr>dr_transaction := (\<lambda>_. (dr_transaction demo_driver 0)\<lparr>tx_isOpen := False\<rparr>)\<rparr>" 0 demo_world_env]
  by (simp add: demo_driver_def)

text \<open>A session is open under an id that a server answered to a request to open it.\<close>

definition opened_by_server :: "'w world_env \<Rightarrow> nat \<Rightarrow> 'w driver \<Rightarrow> bool" where
  "opened_by_server we i s \<longleftrightarrow>
     (\<exists>d req s1 res s2. with_stub d (\<lambda>st. sessionOpen (we_env we) st req) (s1 :: 'w driver) = (Inr res, s2) \<and>
        se_isOpen (dr_session s i) \<and> se_id (dr_session s i) = bytesToHexString (p_bytes (proto_get ''session_id'' res)))"

lemma reopenAt_opened:
  assumes "reopenAt we i d s = (Inr x, s')"
  shows "opened_by_server we i s'"
  using assms unfolding opened_by_server_def
  by (fastforce simp: reopenAt_def openAt_def session_io set_pulse_def split: prod.splits sum.splits)

lemma recovery_opened:
  "triple (\<lambda>s. dr_sessions s = T)
     (runFailsafe (we_env we) d (\<lambda>sd _. io_bind (reopenAt we i sd) (\<lambda>_. new_open_transaction we i typ opts)))
     (\<lambda>_ s. dr_sessions s = T \<and> opened_by_server we i s) (\<lambda>s. dr_sessions s = T)"
proof (rule session_table.at_value.stable_runFailsafe)
  fix sd db
  have "triple (\<lambda>s. dr_sessions s = T) (reopenAt we i sd) (\<lambda>_ s. dr_sessions s = T \<and> opened_by_server we i s) (\<lambda>s. dr_sessions s = T)"
    using keepsD [OF keeps_sessions_reopen(3)] reopenAt_opened by (intro tripleI) blast+
  moreover have "triple (\<lambda>s. dr_sessions s = T \<and> opened_by_server we i s) (new_open_transaction we i typ opts)
      (\<lambda>_ s. dr_sessions s = T \<and> opened_by_server we i s) (\<lambda>s. dr_sessions s = T)"
  proof (rule tripleI)
    fix s x s'
    assume s: "dr_sessions s = T \<and> opened_by_server we i s" and new: "new_open_transaction we i typ opts s = (Inr x, s')"
    have "dr_sessions s' = dr_sessions s" "dr_session s' = dr_session s"
      using keepsD [OF keeps_new_open_transaction(1) new] keepsD [OF keeps_new_open_transaction(2) new] .
    with s show "dr_sessions s' = T \<and> opened_by_server we i s'" by (simp add: opened_by_server_def)
  qed (use keepsD [OF keeps_new_open_transaction(1)] in blast)
  ultimately show "triple (\<lambda>s. dr_sessions s = T) (io_bind (reopenAt we i sd) (\<lambda>_. new_open_transaction we i typ opts))
      (\<lambda>_ s. dr_sessions s = T \<and> opened_by_server we i s) (\<lambda>s. dr_sessions s = T)"
    by (rule triple_bind)
qed

text \<open>
  C37. A recovered session is unknown to its driver: when opening a transaction fails and the session reconnects, with no other call in between, the driver's
  table of sessions loses the old id and gains nothing, although the session is open again, under an id that a server has answered to the request to
  open it.
\<close>

theorem recovered_session_unregistered:
  assumes "se_isOpen (dr_session s i)"
    and "new_open_transaction we i typ (case opts of None \<Rightarrow> options_default | Some x \<Rightarrow> x) s = (Inl e, s1)"
    and "session_transaction we i typ opts s = (Inr t, s')"
  shows "dr_sessions s' = jmap_delete (se_id (dr_session s i)) (dr_sessions s) \<and> se_isOpen (dr_session s' i) \<and>
    (\<exists>d req s2 res s3. with_stub d (\<lambda>st. sessionOpen (we_env we) st req) (s2 :: 'w driver) = (Inr res, s3) \<and>
       se_id (dr_session s' i) = bytesToHexString (p_bytes (proto_get ''session_id'' res)))"
proof -
  let ?opts = "case opts of None \<Rightarrow> options_default | Some x \<Rightarrow> x"
  have same: "dr_sessions s1 = dr_sessions s" "dr_session s1 = dr_session s"
    using keepsD [OF keeps_new_open_transaction(1) assms(2)] keepsD [OF keeps_new_open_transaction(2) assms(2)]
    by simp_all
  obtain r2 s2 where close: "session_close we i s1 = (r2, s2)" by fastforce
  obtain r3 s3 where rec: "runFailsafe (we_env we) (se_database (dr_session s2 i))
      (\<lambda>sd _. io_bind (reopenAt we i sd) (\<lambda>_. new_open_transaction we i typ ?opts)) s2 = (r3, s3)" by fastforce
  have r3: "r3 = Inr t" and s': "dr_sessions s' = dr_sessions s3"
    "se_isOpen (dr_session s' i) = se_isOpen (dr_session s3 i)" "se_id (dr_session s' i) = se_id (dr_session s3 i)"
    using assms close rec by (auto simp: session_transaction_def session_io Let_def split: sum.splits)
  have "dr_sessions s2 = jmap_delete (se_id (dr_session s1 i)) (dr_sessions s1)"
    using session_close_sessions [OF _ close] same assms(1) by simp
  with triple_returns [OF recovery_opened refl rec [unfolded r3]] s' same show ?thesis
    unfolding opened_by_server_def by (simp, blast)
qed

lemma demo_first_open_fails:
  "fst (new_open_transaction demo_world_env 0 READ options_default demo_driver) = Inl (throw_template UNABLE_TO_CONNECT)"
  by (simp add: new_open_transaction_def transaction_new_def transaction_open_def open_stream_def session_io demo_defs)

lemma demo_recovers:
  "\<exists>s'. session_transaction demo_world_env 0 READ None demo_driver = (Inr 2, s') \<and>
     se_isOpen (dr_session s' 0) \<and> se_id (dr_session s' 0) = bytesToHexString [2]"
  by (simp add: session_transaction_def new_open_transaction_def transaction_new_def transaction_open_def open_stream_def
      session_close_def closeResources_def transaction_close_def session_closed_def closeSession_def clear_pulse_def
      Session_closeReq_def Transaction_openReq_def sessionClose_def runFailsafe_def runOnAnyReplica_def reopenAt_def openAt_def set_pulse_def with_stub_def
      sessionOpen_def call_wrapped_def call_raw_def rpcExecute_def set_add_def session_io demo_defs Let_def)

theorem recovered_session_unregistered_witness:
  "\<exists>s'. session_transaction demo_world_env 0 READ None demo_driver = (Inr 2, s') \<and>
     se_isOpen (dr_session s' 0) \<and> se_id (dr_session s' 0) = bytesToHexString [2] \<and> dr_sessions s' = []"
proof -
  obtain s' where run: "session_transaction demo_world_env 0 READ None demo_driver = (Inr 2, s')"
    "se_isOpen (dr_session s' 0)" "se_id (dr_session s' 0) = bytesToHexString [2]"
    using demo_recovers by blast
  obtain s1 where first: "new_open_transaction demo_world_env 0 READ options_default demo_driver =
      (Inl (throw_template UNABLE_TO_CONNECT), s1)"
    using demo_first_open_fails by (metis prod.collapse)
  have "dr_sessions s' = []"
    using recovered_session_unregistered [OF _ _ run(1), of "throw_template UNABLE_TO_CONNECT" s1] first
    by (simp add: demo_driver_def demo_session_def)
  with run show ?thesis by blast
qed

text \<open>
  Only the last timer is cancelled: opening a session on a server when it has a timer pending, as happens when a reconnection
  opens the session at one server and then goes on to the next, leaves the old timer pending for good: closing
  the session removes the new timer and keeps the old ones.
\<close>

lemma reopening_leaks_timer:
  fixes we :: "'w world_env"
  assumes "openAt we i d s = (Inr (), s1)" and "own_transactions i s1" and "closeResources i s1 = (r, s2)"
    and "\<forall>h \<in> set (se_timers (dr_session s i)). h < se_timer_count (dr_session s i)"
  shows "se_timers (dr_session s2 i) = se_timers (dr_session s i)"
proof -
  have "keeps (dr_session :: 'w driver \<Rightarrow> _) (with_stub d (\<lambda>st. sessionOpen (we_env we) st req))" for req
    unfolding with_stub_def sessionOpen_def by (intro keeps_intros)
  then have "dr_session s' = dr_session s"
    if "with_stub d (\<lambda>st. sessionOpen (we_env we) st req) s = (r', s')" for req r' s'
    using keepsD that by metis
  with assms(1) obtain n t d' where "dr_session s1 i = set_pulse (dr_session s i
      \<lparr>se_networkLatencyMillis := n, se_id := t, se_serverDriver := d', se_isOpen := True\<rparr>)"
    by (auto simp: openAt_def session_io split: prod.splits sum.splits)
  then show ?thesis
    using closeResources_effect [OF assms(2)] assms(3,4)
    by (auto simp: set_pulse_def clear_pulse_def removeAll_id)
qed

lemma reopening_leaks_timer_example:
  "\<exists>s1 r s2. openAt demo_world_env 0 (Some (demo_server ''a'')) demo_driver = (Inr (), s1) \<and>
     closeResources 0 s1 = (r, s2) \<and> se_timers (dr_session s2 0) = [0]"
proof -
  obtain s1 where opn: "openAt demo_world_env 0 (Some (demo_server ''a'')) demo_driver = (Inr (), s1)"
    and own: "own_transactions 0 s1"
    by (simp add: openAt_def with_stub_def sessionOpen_def call_wrapped_def call_raw_def session_io demo_defs
        own_transactions_def set_pulse_def)
  obtain r s2 where cl: "closeResources 0 s1 = (r, s2)" by fastforce
  from reopening_leaks_timer [OF opn own cl] have "se_timers (dr_session s2 0) = [0]"
    by (simp add: demo_driver_def demo_session_def)
  with opn cl show ?thesis by blast
qed

text \<open>
  A failed pulse only half-closes the session: when the pulse request fails, the session counts as closed, yet its
  transactions stay as they are, the driver still lists it, no callback runs, and closing it afterwards does nothing.
\<close>

lemma failed_pulse_keeps_resources:
  assumes "se_isOpen (dr_session s i)" and "se_serverDriver (dr_session s i) = Some d"
    and "Session_pulseReq (se_id (dr_session s i)) = Inr req"
    and "sessionPulse (we_env we) (sd_stub d) req s = (Inl e, s1)"
    and "pulse we i s = (r, s')"
  shows "r = Inr () \<and> \<not> se_isOpen (dr_session s' i) \<and>
    se_transactions (dr_session s' i) = se_transactions (dr_session s i) \<and>
    se_called (dr_session s' i) = se_called (dr_session s i) \<and>
    dr_sessions s' = dr_sessions s \<and> session_close we i s' = (Inr (), s')"
proof -
  have "dr_session s1 = dr_session s" "dr_sessions s1 = dr_sessions s"
    using keepsD [OF session_objects.keeps_call(1)] keepsD [OF session_table.keeps_call(1)] assms(4)
    unfolding sessionPulse_def by metis+
  then show ?thesis
    using assms by (auto simp: pulse_def session_close_def with_stub_def session_io)
qed

lemma failed_pulse_keeps_resources_example:
  "\<exists>s'. pulse (demo_world_env\<lparr>we_env := demo_env\<rparr>) 0 demo_driver = (Inr (), s') \<and>
     \<not> se_isOpen (dr_session s' 0) \<and> dr_sessions s' = dr_sessions demo_driver \<and>
     se_transactions (dr_session s' 0) = [0]"
proof -
  let ?we = "demo_world_env\<lparr>we_env := demo_env\<rparr>"
  let ?req = "PMsg ''SessionPulseReq'' [(''session_id'', PBytes [1])]"
  obtain r s' where p: "pulse ?we 0 demo_driver = (r, s')" by fastforce
  have "sessionPulse (we_env ?we) (sd_stub (demo_server ''a'')) ?req demo_driver =
      (Inl (GrpcError demo_error), demo_driver\<lparr>net_world := 1\<rparr>)"
    by (simp add: sessionPulse_def call_raw_def demo_defs createCallCredentials_def)
  from failed_pulse_keeps_resources [OF _ _ _ this p] p show ?thesis
    by (auto simp: demo_driver_def demo_session_def Session_pulseReq_def)
qed

text \<open>
  The latency sent to the server stays between one and 999 milliseconds whatever the real delay was, since only the
  millisecond within the second is measured; a request that crosses the second can be reported as one
  millisecond however long it took.
\<close>

lemma latency_within_a_second:
  assumes "0 \<le> server_duration"
  shows "1 \<le> network_latency start end_time server_duration \<and>
    network_latency start end_time server_duration \<le> 999 \<and>
    (end_time mod 1000 \<le> start mod 1000 \<longrightarrow> network_latency start end_time server_duration = 1)"
proof -
  have "0 \<le> start mod 1000" "end_time mod 1000 < 1000" by simp_all
  with assms show ?thesis by (auto simp: network_latency_def)
qed

lemma latency_within_a_second_example:
  "network_latency 10 30 0 = 20 \<and> network_latency 10 2005 0 = 1"
  using latency_within_a_second [of 0 10 2005] by (simp add: network_latency_def)

end
