(* ===== verification/Driver_Model.thy ===== *)
theory Driver_Model
  imports Session_Model
begin

text \<open>
  The driver and the user manager: \<open>connection/TypeDBDriverImpl.ts\<close>, \<open>TypeDB.ts\<close>, \<open>user/UserManagerImpl.ts\<close>
  and \<open>user/UserImpl.ts\<close>. The attempts to open the servers of a cluster, which the source starts together and
  awaits with \<open>Promise.any\<close>, are run one after the other. grpc-js refuses a target that is not a string.
\<close>

section \<open>Construction\<close>

datatype addresses = OneAddress string | Addresses init_addresses

fun is_digit :: "char \<Rightarrow> bool" where
  "is_digit c \<longleftrightarrow> c \<in> set ''0123456789''"

text \<open>The test \<open>/:\d+/\<close>: a colon followed by a digit.\<close>

fun has_port :: "string \<Rightarrow> bool" where
  "has_port (c # d # s) \<longleftrightarrow> (c = CHR '':'' \<and> is_digit d) \<or> has_port (d # s)"
| "has_port _ \<longleftrightarrow> False"

fun address_values :: "init_addresses \<Rightarrow> string list" where
  "address_values (AddressList as) = as"
| "address_values (AddressMap m) = jmap_values m"

fun normal_addresses :: "addresses \<Rightarrow> init_addresses" where
  "normal_addresses (OneAddress a) = AddressList [a]"
| "normal_addresses (Addresses i) = i"

fun check_ports :: "string list \<Rightarrow> thrown option" where
  "check_ports [] = None"
| "check_ports (a # as) = (if \<not> has_port a then Some (throw_message MISSING_PORT [a]) else check_ports as)"

definition driver_new :: "'w \<Rightarrow> addresses \<Rightarrow> credential option \<Rightarrow> thrown + 'w driver" where
  "driver_new w addresses credential =
     (let init = normal_addresses addresses in
      case check_ports (address_values init) of
        Some e \<Rightarrow> Inl e
      | None \<Rightarrow>
          Inr \<lparr>net_stubs = (\<lambda>_. \<lparr>st_address = [], st_credential = None, st_channel = Insecure, st_token = None,
                 st_closed = False\<rparr>),
               net_count = 0, net_world = w, cn_serverDrivers = [],
               cn_databases = (\<lambda>_. \<lparr>db_name = [], db_replicas = []\<rparr>), cn_database_count = 0, cn_database_cache = [],
               dr_isOpen = False, dr_isCloud = (credential \<noteq> None), dr_initAddresses = init,
               dr_credential = credential, dr_userManager = False, dr_transmitter_count = 0, dr_sessions = [],
               dr_session = (\<lambda>_. \<lparr>se_databaseName = [], se_type = DATA, se_options = options_default, se_id = [],
                 se_database = 0, se_isOpen = False, se_serverDriver = None, se_pulse = 0, se_timers = [],
                 se_timer_count = 0, se_networkLatencyMillis = 0, se_transactions = [], se_onClose = [],
                 se_onReopen = [], se_called = []\<rparr>),
               dr_session_count = 0,
               dr_transaction = (\<lambda>_. \<lparr>tx_session = 0, tx_type = READ, tx_options = options_default, tx_address = [],
                 tx_isOpen = False, tx_error = None\<rparr>),
               dr_transaction_count = 0\<rparr>)"

section \<open>Opening\<close>

definition add_server_driver :: "string \<Rightarrow> string \<Rightarrow> nat \<Rightarrow> ('w, unit) drv_io" where
  "add_server_driver key address st =
     io_update (\<lambda>s. s
       \<lparr>cn_serverDrivers := jmap_set key
          \<lparr>sd_address = address, sd_stub = st, sd_transmitter = dr_transmitter_count s\<rparr> (cn_serverDrivers s),
        dr_transmitter_count := Suc (dr_transmitter_count s)\<rparr>)"

definition set_open :: "('w, unit) drv_io" where
  "set_open = io_update (\<lambda>s. s\<lparr>dr_isOpen := True\<rparr>)"

fun first_address :: "init_addresses \<Rightarrow> string option" where
  "first_address (AddressList (a # _)) = Some a"
| "first_address (AddressList []) = None"
| "first_address (AddressMap m) = jmap_get m ''0''"

definition openCore :: "'w env \<Rightarrow> ('w, unit) drv_io" where
  "openCore env =
     io_bind (io_gets dr_initAddresses) (\<lambda>init.
     case first_address init of
       None \<Rightarrow> io_throw (NativeError ''TypeError'' ''Channel target must be a string'' None)
     | Some serverAddress \<Rightarrow>
         io_bind (io_gets dr_credential) (\<lambda>credential.
         io_bind (stub_new env serverAddress credential) (\<lambda>st.
         io_bind (stub_open env st) (\<lambda>_.
         io_bind (serversAll env st ServerManager_allReq) (\<lambda>res.
         case p_list (proto_get ''servers'' res) of
           [] \<Rightarrow> io_throw (type_error ''address'')
         | server # _ \<Rightarrow>
             io_bind (add_server_driver (p_string (proto_get ''address'' server)) serverAddress st) (\<lambda>_. set_open))))))"

fun fetchFrom :: "'w env \<Rightarrow> credential option \<Rightarrow> string list \<Rightarrow> thrown \<Rightarrow> ('w, string list) drv_io" where
  "fetchFrom env credential [] failure = io_throw failure"
| "fetchFrom env credential (a # as) failure =
     io_catch
       (io_bind (stub_new env a credential) (\<lambda>st.
        io_bind (stub_open env st) (\<lambda>_.
        io_bind (serversAll env st ServerManager_allReq) (\<lambda>res.
        io_return (map (\<lambda>x. p_string (proto_get ''address'' x)) (p_list (proto_get ''servers'' res)))))))
       (\<lambda>_. fetchFrom env credential as failure)"

fun join :: "string \<Rightarrow> string list \<Rightarrow> string" where
  "join sep [] = []"
| "join sep [a] = a"
| "join sep (a # as) = a @ sep @ join sep as"

definition fetchCloudServerAddresses :: "'w env \<Rightarrow> ('w, string list) drv_io" where
  "fetchCloudServerAddresses env =
     io_bind (io_gets dr_initAddresses) (\<lambda>init.
     io_bind (io_gets dr_credential) (\<lambda>credential.
     fetchFrom env credential (address_values init)
       (throw_message CLOUD_UNABLE_TO_CONNECT [join '','' (address_values init)])))"

text \<open>
  The addresses a driver is to use: itself for each member of the cluster, or the translation of the user, which
  must name each member and no other server as a private address.
\<close>

definition unknown_addresses :: "(string, string) jmap \<Rightarrow> string list \<Rightarrow> string list" where
  "unknown_addresses m members = filter (\<lambda>a. a \<notin> set members) (jmap_values m)"

definition public_address :: "(string, string) jmap \<Rightarrow> string \<Rightarrow> string option" where
  "public_address m private = find (\<lambda>key. jmap_get m key = Some private) (jmap_keys m)"

definition unmapped_addresses :: "(string, string) jmap \<Rightarrow> string list \<Rightarrow> string list" where
  "unmapped_addresses m members =
     filter (\<lambda>a. public_address m a = None \<or> public_address m a = Some []) members"

definition translation :: "init_addresses \<Rightarrow> string list \<Rightarrow> thrown + (string, string) jmap" where
  "translation init members =
     (case init of
        AddressList _ \<Rightarrow> Inr (jmap_of_entries (map (\<lambda>a. (a, a)) members))
      | AddressMap m \<Rightarrow>
          if unknown_addresses m members \<noteq> [] \<or> unmapped_addresses m members \<noteq> []
          then Inl (throw_message ADDRESS_TRANSLATION_MISMATCH
                 [join '', '' (unknown_addresses m members), join '', '' (unmapped_addresses m members)])
          else Inr m)"

text \<open>
  The stubs open one after the other here and concurrently in the source. The driver waits for the first that succeeds; it fails when none does.
\<close>

fun open_servers :: "'w env \<Rightarrow> credential option \<Rightarrow> (string \<times> string) list \<Rightarrow> ('w, bool) drv_io" where
  "open_servers env credential [] = io_return False"
| "open_servers env credential ((serverID, address) # entries) =
     io_bind (stub_new env address credential) (\<lambda>st.
     io_bind (io_catch (io_bind (stub_open env st) (\<lambda>_. io_return True)) (\<lambda>_. io_return False)) (\<lambda>ok.
     io_bind (add_server_driver serverID address st) (\<lambda>_.
     io_bind (open_servers env credential entries) (\<lambda>any. io_return (ok \<or> any)))))"

definition openCloud :: "'w env \<Rightarrow> ('w, unit) drv_io" where
  "openCloud env =
     io_bind (fetchCloudServerAddresses env) (\<lambda>members.
     io_bind (io_gets dr_initAddresses) (\<lambda>init.
     io_bind (io_lift (translation init members)) (\<lambda>m.
     io_bind (io_gets dr_credential) (\<lambda>credential.
     io_bind (open_servers env credential m) (\<lambda>any.
     if \<not> any then
       io_throw (throw_message CLOUD_UNABLE_TO_CONNECT [''AggregateError: All promises were rejected''])
     else io_update (\<lambda>s. s\<lparr>dr_userManager := True, dr_isOpen := True\<rparr>))))))"

definition driver_open :: "'w env \<Rightarrow> ('w, unit) drv_io" where
  "driver_open env = io_bind (io_gets dr_isCloud) (\<lambda>cloud. if cloud then openCloud env else openCore env)"

definition coreDriver :: "'w env \<Rightarrow> 'w \<Rightarrow> string \<Rightarrow> thrown + (thrown + unit) \<times> 'w driver" where
  "coreDriver env w address = map_sum id (\<lambda>d. driver_open env d) (driver_new w (OneAddress address) None)"

definition cloudDriver :: "'w env \<Rightarrow> 'w \<Rightarrow> addresses \<Rightarrow> credential \<Rightarrow> thrown + (thrown + unit) \<times> 'w driver" where
  "cloudDriver env w addrs c =
     map_sum id (\<lambda>d. driver_open env d) (driver_new w (Addresses (normal_addresses addrs)) (Some c))"

section \<open>Operations of an open driver\<close>

definition driver_session :: "'w world_env \<Rightarrow> string \<Rightarrow> session_type \<Rightarrow> options option \<Rightarrow> ('w, nat) drv_io" where
  "driver_session we databaseName typ options =
     io_bind (io_gets dr_isOpen) (\<lambda>is_open.
     if \<not> is_open then io_throw (throw_template DRIVER_NOT_OPEN)
     else
       io_bind (session_new databaseName typ (case options of None \<Rightarrow> options_default | Some opts \<Rightarrow> opts)) (\<lambda>i.
       io_bind (session_open we i) (\<lambda>_.
       io_bind (io_gets (\<lambda>s. se_id (dr_session s i))) (\<lambda>sid.
       io_bind (io_gets (\<lambda>s. jmap_get (dr_sessions s) sid)) (\<lambda>known.
       case known of
         Some _ \<Rightarrow> io_throw (throw_message SESSION_ID_EXISTS [sid])
       | None \<Rightarrow> io_bind (io_update (\<lambda>s. s\<lparr>dr_sessions := jmap_set sid i (dr_sessions s)\<rparr>)) (\<lambda>_. io_return i))))))"

text \<open>
  \<open>Object.values\<close> of a \<open>Map\<close> lists the enumerable properties of the object, and a \<open>Map\<close> has none: its entries are
  not properties.
\<close>

definition object_values_of_map :: "('k, 'v) jmap \<Rightarrow> 'v list" where
  "object_values_of_map m = []"

definition server_driver_close :: "server_driver \<Rightarrow> ('w, unit) drv_io" where
  "server_driver_close d = stub_close (sd_stub d)"

fun close_server_drivers :: "server_driver list \<Rightarrow> ('w, unit) drv_io" where
  "close_server_drivers [] = io_return ()"
| "close_server_drivers (d # ds) = io_bind (server_driver_close d) (\<lambda>_. close_server_drivers ds)"

definition driver_close :: "('w, unit) drv_io" where
  "driver_close =
     io_bind (io_gets dr_isOpen) (\<lambda>is_open.
     if is_open then
       io_bind (io_update (\<lambda>s. s\<lparr>dr_isOpen := False\<rparr>)) (\<lambda>_.
       io_bind (io_gets (\<lambda>s. object_values_of_map (cn_serverDrivers s))) close_server_drivers)
     else io_return ())"

section \<open>Users\<close>

record user =
  us_username :: string
  us_passwordExpirySeconds :: "js_number option"

definition SYSTEM_DB :: string where
  "SYSTEM_DB = ''_system''"

definition user_of :: "proto \<Rightarrow> thrown + user" where
  "user_of u =
     (case u of
        PUndefined \<Rightarrow> Inl (type_error ''has_password_expiry_seconds'')
      | _ \<Rightarrow>
          Inr \<lparr>us_username = p_string (proto_get ''username'' u),
               us_passwordExpirySeconds = p_number_opt (proto_get ''password_expiry_seconds'' u)\<rparr>)"

text \<open>The getter \<open>users\<close> of the driver: \<open>undefined\<close> unless the driver was opened on a cluster.\<close>

definition users :: "string \<Rightarrow> ('w, unit) drv_io" where
  "users member s =
     (if \<not> dr_isOpen s then (Inl (throw_template DRIVER_NOT_OPEN), s)
      else if \<not> dr_userManager s then (Inl (type_error member), s)
      else (Inr (), s))"

definition um_runFailsafe :: "'w env \<Rightarrow> (server_driver option \<Rightarrow> ('w, 'a) drv_io) \<Rightarrow> ('w, 'a) drv_io" where
  "um_runFailsafe env task =
     io_bind (io_gets dr_isCloud) (\<lambda>cloud.
     if \<not> cloud then io_throw (throw_template USER_MANAGEMENT_CLOUD_ONLY)
     else
       io_bind (database_get env SYSTEM_DB) (\<lambda>i. runOnPrimaryReplica env i (\<lambda>d _. task d)))"

definition um_all :: "'w env \<Rightarrow> ('w, user list) drv_io" where
  "um_all env =
     um_runFailsafe env (\<lambda>d.
       io_bind (with_stub d (\<lambda>st. usersAll env st UserManager_allReq)) (\<lambda>res.
       io_lift (map_throw user_of (p_list (proto_get ''users'' res)))))"

definition um_contains :: "'w env \<Rightarrow> string \<Rightarrow> ('w, bool) drv_io" where
  "um_contains env username =
     um_runFailsafe env (\<lambda>d. with_stub d (\<lambda>st. usersContains env st (UserManager_containsReq username)))"

definition um_create :: "'w env \<Rightarrow> string \<Rightarrow> string \<Rightarrow> ('w, unit) drv_io" where
  "um_create env username password =
     um_runFailsafe env (\<lambda>d. with_stub d (\<lambda>st. usersCreate env st (UserManager_createReq username password)))"

definition um_delete :: "'w env \<Rightarrow> string \<Rightarrow> ('w, unit) drv_io" where
  "um_delete env username =
     um_runFailsafe env (\<lambda>d. with_stub d (\<lambda>st. usersDelete env st (UserManager_deleteReq username)))"

definition um_get :: "'w env \<Rightarrow> string \<Rightarrow> ('w, user) drv_io" where
  "um_get env username =
     io_bind (um_runFailsafe env (\<lambda>d. with_stub d (\<lambda>st. usersGet env st (UserManager_getReq username)))) (\<lambda>res.
     io_lift (user_of (proto_get ''user'' res)))"

definition um_passwordSet :: "'w env \<Rightarrow> string \<Rightarrow> string \<Rightarrow> ('w, unit) drv_io" where
  "um_passwordSet env username password =
     um_runFailsafe env (\<lambda>d. with_stub d (\<lambda>st. usersPasswordSet env st (UserManager_passwordSetReq username password)))"

definition user_passwordUpdate :: "'w env \<Rightarrow> user \<Rightarrow> string \<Rightarrow> string \<Rightarrow> ('w, unit) drv_io" where
  "user_passwordUpdate env u oldPassword newPassword =
     io_bind (users ''runFailsafe'') (\<lambda>_.
     um_runFailsafe env (\<lambda>d. with_stub d (\<lambda>st.
       userPasswordUpdate env st (User_passwordUpdateReq (us_username u) oldPassword newPassword))))"

definition driver_user :: "'w env \<Rightarrow> ('w, user) drv_io" where
  "driver_user env =
     io_bind (io_gets dr_isOpen) (\<lambda>is_open.
     if \<not> is_open then io_throw (throw_template DRIVER_NOT_OPEN)
     else
       io_bind (users ''get'') (\<lambda>_.
       io_bind (io_gets dr_credential) (\<lambda>credential.
       case credential of
         None \<Rightarrow> io_throw (type_error ''username'')
       | Some c \<Rightarrow> um_get env (cr_username c))))"

section \<open>Lemmas\<close>

lemma has_port_iff: "has_port a \<longleftrightarrow> (\<exists>u d v. a = u @ CHR '':'' # d # v \<and> is_digit d)"
proof (induction a rule: has_port.induct)
  case (1 c d s)
  have "(\<exists>u x v. c # d # s = u @ CHR '':'' # x # v \<and> is_digit x) \<longleftrightarrow>
      (c = CHR '':'' \<and> is_digit d) \<or> (\<exists>u x v. d # s = u @ CHR '':'' # x # v \<and> is_digit x)"
    by (simp add: Cons_eq_append_conv del: is_digit.simps) blast
  then show ?case using 1 by (simp del: is_digit.simps)
qed (auto simp: Cons_eq_append_conv)

lemma check_ports_None: "check_ports as = None \<longleftrightarrow> (\<forall>a \<in> set as. has_port a)"
  by (induction as) auto

text \<open>What opening a server leaves alone.\<close>

interpretation server_table: frame "cn_serverDrivers :: 'w driver \<Rightarrow> (string, server_driver) jmap"
  by unfold_locales simp_all

interpretation init_table: frame "dr_initAddresses :: 'w driver \<Rightarrow> init_addresses"
  by unfold_locales simp_all

interpretation user_table: frame "dr_userManager :: 'w driver \<Rightarrow> bool"
  by unfold_locales simp_all

lemma keeps_stub_new [keeps_intros]:
  "keeps (cn_serverDrivers :: 'w driver \<Rightarrow> _) (stub_new env a c)"
  "keeps (dr_initAddresses :: 'w driver \<Rightarrow> _) (stub_new env a c)"
  "keeps (dr_userManager :: 'w driver \<Rightarrow> _) (stub_new env a c)"
  by (auto simp: keeps_def stub_new_def split: sum.split)

lemma keeps_stub_open [keeps_intros]:
  "keeps (cn_serverDrivers :: 'w driver \<Rightarrow> _) (stub_open env i)"
  "keeps (dr_initAddresses :: 'w driver \<Rightarrow> _) (stub_open env i)"
  "keeps (dr_userManager :: 'w driver \<Rightarrow> _) (stub_open env i)"
  unfolding stub_open_def connectionOpen_def userToken_def by (intro keeps_intros)+

lemma keeps_fetchFrom [keeps_intros]:
  "keeps (cn_serverDrivers :: 'w driver \<Rightarrow> _) (fetchFrom env c as e)"
  "keeps (dr_initAddresses :: 'w driver \<Rightarrow> _) (fetchFrom env c as e)"
  by (induction as) (auto simp: serversAll_def intro!: keeps_intros)

text \<open>Every server driver has a stub that was made for the address of the server driver.\<close>

definition stubs_match :: "'w driver \<Rightarrow> bool" where
  "stubs_match s \<longleftrightarrow>
     (\<forall>(k, d) \<in> set (cn_serverDrivers s). sd_stub d < net_count s \<and> st_address (net_stubs s (sd_stub d)) = sd_address d)"

abbreviation stub_addresses :: "'w driver \<Rightarrow> nat \<times> (nat \<Rightarrow> string)" where
  "stub_addresses s \<equiv> (net_count s, \<lambda>i. st_address (net_stubs s i))"

lemma keeps_stub_addresses: "keeps stub_addresses (stub_open env i)"
proof -
  have base: "keeps stub_addresses (call_raw env i m req f)" "keeps stub_addresses (set_token i t)" for m req t and f :: "proto \<Rightarrow> 'b"
    by (auto simp: keeps_def call_raw_def set_token_def io_simps split: prod.split sum.split)
  show ?thesis
    unfolding stub_open_def connectionOpen_def userToken_def mayRenewToken_def call_wrapped_def by (intro keeps_intros base)
qed

lemma open_servers_table:
  assumes "open_servers env c m s = (Inr any, s')" and "stubs_match s"
    and "distinct (map fst m)" and "set (map fst m) \<inter> set (jmap_keys (cn_serverDrivers s)) = {}"
  shows "map (\<lambda>(k, d). (k, sd_address d)) (cn_serverDrivers s') =
    map (\<lambda>(k, d). (k, sd_address d)) (cn_serverDrivers s) @ m \<and> stubs_match s'"
  using assms
proof (induction m arbitrary: s any)
  case Nil
  then show ?case by (simp add: io_simps)
next
  case (Cons km m)
  obtain k a where km: "km = (k, a)" by fastforce
  have fresh: "jmap_set k d t = t @ [(k, d)]" if "k \<notin> set (jmap_keys t)" for d :: server_driver and t
    using that by (induction t) auto
  from Cons.prems(1) km obtain st s1 ok s2 any' s4 where
    s1: "stub_new env a c s = (Inr st, s1)" and
    s2: "io_catch (io_bind (stub_open env st) (\<lambda>_. io_return True)) (\<lambda>_. io_return False) s1 = (Inr ok, s2)" and
    s4: "open_servers env c m (snd (add_server_driver k a st s2)) = (Inr any', s')"
    by (auto simp: io_bind_def io_return_def add_server_driver_def io_update_def split: prod.splits sum.splits)
  have "keeps (cn_serverDrivers :: 'a driver \<Rightarrow> _)
      (io_catch (io_bind (stub_open env st) (\<lambda>_. io_return True)) (\<lambda>_. io_return False))"
    by (intro keeps_intros)
  from keepsD [OF this s2] keepsD [OF keeps_stub_new(1) s1] have "cn_serverDrivers s2 = cn_serverDrivers s"
    by simp
  then have table: "cn_serverDrivers (snd (add_server_driver k a st s2)) = cn_serverDrivers s @
      [(k, \<lparr>sd_address = a, sd_stub = st, sd_transmitter = dr_transmitter_count s2\<rparr>)]"
    using Cons.prems(4) km by (simp add: add_server_driver_def io_simps fresh)
  have "keeps stub_addresses (io_catch (io_bind (stub_open env st) (\<lambda>_. io_return True)) (\<lambda>_. io_return False))"
    by (intro keeps_intros keeps_stub_addresses)
  from keepsD [OF this s2] have "net_count s2 = net_count s1" "\<And>i. st_address (net_stubs s2 i) = st_address (net_stubs s1 i)"
    by (auto dest: fun_cong)
  moreover from s1 have "st = net_count s" "net_count s1 = Suc (net_count s)" "st_address (net_stubs s1 st) = a"
    "\<And>i. i < net_count s \<Longrightarrow> st_address (net_stubs s1 i) = st_address (net_stubs s i)"
    by (auto simp: stub_new_def split: sum.splits)
  ultimately have "stubs_match (snd (add_server_driver k a st s2))"
    using Cons.prems(2) table unfolding stubs_match_def
    by (auto simp: add_server_driver_def io_simps less_SucI)
  from Cons.IH [OF s4 this] Cons.prems(3,4) km show ?case by (auto simp: table)
qed

text \<open>A server that answers every call, for the examples.\<close>

definition demo_server_env :: "nat env" where
  "demo_server_env = demo_env\<lparr>env_rpc := (\<lambda>a m md req w.
     (Inr (PMsg m [(''servers'', PList [PMsg ''Server'' [(''address'', PString ''h:1'')]]),
        (''contains'', PBool True), (''session_id'', PBytes [2]),
        (''database'', PMsg ''DatabaseReplicas'' [(''replicas'', PList [PMsg ''Replica'' [(''address'', PString ''a'')]])])]),
      w + 1))\<rparr>"

lemmas demo_driver_defs =
  demo_server_env_def demo_env_def demo_driver_def demo_session_def demo_net_def demo_server_def

lemmas stub_call_defs =
  stub_new_def stub_open_def connectionOpen_def serversAll_def mayRenewToken_def call_wrapped_def call_raw_def

section \<open>Properties\<close>

text \<open>
  The driver is created exactly when every given address has a port: a colon followed by a digit.
\<close>

lemma driver_requires_ports:
  "(\<exists>d. driver_new w addrs c = Inr d) \<longleftrightarrow>
   list_all (\<lambda>a. \<exists>u x v. a = u @ CHR '':'' # x # v \<and> is_digit x) (address_values (normal_addresses addrs))"
  using check_ports_None [of "address_values (normal_addresses addrs)"]
  by (auto simp: driver_new_def Let_def list_all_iff has_port_iff simp del: is_digit.simps split: option.split)

text \<open>
  C40. With an address translation, servers are found by their public address only: after a cluster was opened
  with the translation \<open>m\<close>, the server of each entry is filed under the public address, and the stub that its calls go through was made for the
  private address, so
  that a replica whose address the servers advertise, a private one, is not found unless it is also a public address.
\<close>

theorem translated_servers_keyed_by_public:
  assumes "dr_initAddresses s = AddressMap m" and "jmap_wf m" and "cn_serverDrivers s = []"
    and "openCloud env s = (Inr (), s')"
  shows "map (\<lambda>(k, d). (k, sd_address d)) (cn_serverDrivers s') = m \<and>
    map (\<lambda>(k, d). (k, st_address (net_stubs s' (sd_stub d)))) (cn_serverDrivers s') = m \<and>
    (\<forall>a. a \<notin> set (jmap_keys m) \<longrightarrow> jmap_get (cn_serverDrivers s') a = None)"
proof -
  have keep: "keeps (cn_serverDrivers :: 'a driver \<Rightarrow> _) (fetchCloudServerAddresses env)"
    "keeps (dr_initAddresses :: 'a driver \<Rightarrow> _) (fetchCloudServerAddresses env)"
    unfolding fetchCloudServerAddresses_def by (intro keeps_intros)+
  from assms(4) obtain members s1 where f: "fetchCloudServerAddresses env s = (Inr members, s1)"
    by (auto simp: openCloud_def io_bind_def split: prod.splits sum.splits)
  have same: "cn_serverDrivers s1 = []" "dr_initAddresses s1 = AddressMap m"
    using keepsD [OF keep(1) f] keepsD [OF keep(2) f] assms by simp_all
  then obtain any s2 where o2: "open_servers env (dr_credential s1) m s1 = (Inr any, s2)"
    and s': "cn_serverDrivers s' = cn_serverDrivers s2" "net_stubs s' = net_stubs s2"
    using assms(4) f
    by (auto simp: openCloud_def io_simps translation_def split: prod.splits sum.splits if_splits)
  have eq: "map (\<lambda>(k, d). (k, sd_address d)) (cn_serverDrivers s') = m" and "stubs_match s2"
    using open_servers_table [OF o2] same assms(2) s' by (simp_all add: jmap_wf_def stubs_match_def)
  then have "map (\<lambda>(k, d). (k, st_address (net_stubs s' (sd_stub d)))) (cn_serverDrivers s') =
      map (\<lambda>(k, d). (k, sd_address d)) (cn_serverDrivers s')"
    using s' by (auto simp: stubs_match_def)
  moreover from eq have "jmap_keys (cn_serverDrivers s') = jmap_keys m"
    by (auto simp: comp_def split_beta)
  then have "jmap_get (cn_serverDrivers s') a = None" if "a \<notin> set (jmap_keys m)" for a
    using that by (metis map_of_eq_None_iff set_map)
  ultimately show ?thesis using eq by simp
qed

theorem translated_servers_keyed_by_public_witness:
  "\<exists>s' d. openCloud demo_server_env (demo_driver\<lparr>cn_serverDrivers := [], dr_initAddresses := AddressMap [(''q:1'', ''h:1'')]\<rparr>) =
     (Inr (), s') \<and> cn_serverDrivers s' = [(''q:1'', d)] \<and> st_address (net_stubs s' (sd_stub d)) = ''h:1'' \<and>
     jmap_get (cn_serverDrivers s') ''h:1'' = None"
proof -
  let ?s = "demo_driver\<lparr>cn_serverDrivers := [], dr_initAddresses := AddressMap [(''q:1'', ''h:1'')]\<rparr>"
  obtain s' where o: "openCloud demo_server_env ?s = (Inr (), s')"
    by (simp add: openCloud_def fetchCloudServerAddresses_def translation_def unknown_addresses_def
        unmapped_addresses_def public_address_def add_server_driver_def stub_call_defs io_simps demo_driver_defs)
  from translated_servers_keyed_by_public [OF _ _ _ o, of "[(''q:1'', ''h:1'')]"]
  have "map (\<lambda>(k, d). (k, st_address (net_stubs s' (sd_stub d)))) (cn_serverDrivers s') = [(''q:1'', ''h:1'')]"
    "jmap_get (cn_serverDrivers s') ''h:1'' = None" by (simp_all add: jmap_wf_def)
  with o show ?thesis by auto
qed

text \<open>
  A core driver has no user manager: after it was opened, asking for the current user or changing a password
  fails with the runtime's \<open>TypeError\<close> for using \<open>undefined\<close>, not with the error for user management that the driver has.
\<close>

lemma core_driver_has_no_users:
  assumes "\<not> dr_userManager s" and "openCore env s = (Inr (), s')" and "dr_isOpen s'"
  shows "driver_user env s' = (Inl (type_error ''get''), s') \<and>
    user_passwordUpdate env u old new s' = (Inl (type_error ''runFailsafe''), s')"
proof -
  have keep: "keeps (dr_userManager :: 'a driver \<Rightarrow> _) (add_server_driver k a i)"
    "keeps (dr_userManager :: 'a driver \<Rightarrow> _) set_open" for k a i
    by (simp_all add: keeps_def add_server_driver_def set_open_def io_simps)
  have "keeps (dr_userManager :: 'a driver \<Rightarrow> _) (openCore env)"
    unfolding openCore_def serversAll_def
    by (intro keeps_intros) (auto intro!: keeps_intros keep split: list.split)
  from keepsD [OF this assms(2)] show ?thesis
    using assms(1,3) by (simp add: driver_user_def user_passwordUpdate_def users_def io_simps)
qed

lemma core_driver_has_no_users_example:
  "\<exists>s'. openCore demo_server_env demo_driver = (Inr (), s') \<and>
     driver_user demo_server_env s' = (Inl (type_error ''get''), s')"
proof -
  obtain s' where o: "openCore demo_server_env demo_driver = (Inr (), s')" "dr_isOpen s'"
    by (simp add: openCore_def add_server_driver_def set_open_def stub_call_defs io_simps demo_driver_defs)
  from core_driver_has_no_users [OF _ o] o(1) show ?thesis by (simp add: demo_driver_def)
qed

text \<open>
  C7. A session is registered under its id and the table changes in nothing else: when the driver returns a session, with no other call in between, its id was not in use,
  and the table of sessions gained exactly that entry; when it fails, also because the server gave out an id that is in
  use, the table is as before.
\<close>

theorem session_registered:
  assumes "driver_session we name typ opts s = (r, s')"
  shows "case r of
      Inl _ \<Rightarrow> dr_sessions s' = dr_sessions s
    | Inr i \<Rightarrow> jmap_get (dr_sessions s) (se_id (dr_session s' i)) = None \<and>
        dr_sessions s' = jmap_set (se_id (dr_session s' i)) i (dr_sessions s)"
proof (cases "dr_isOpen s")
  case True
  let ?opts = "case opts of None \<Rightarrow> options_default | Some x \<Rightarrow> x"
  obtain i s1 where new: "session_new name typ ?opts s = (Inr i, s1)" and same: "dr_sessions s1 = dr_sessions s"
    by (simp add: session_new_def Let_def)
  obtain r2 s2 where opn: "session_open we i s1 = (r2, s2)" by fastforce
  have "keeps (dr_sessions :: 'a driver \<Rightarrow> _) databases"
    by (simp add: keeps_def databases_def)
  then have "keeps (dr_sessions :: 'a driver \<Rightarrow> _) (session_open we i)"
    unfolding session_open_def by (intro keeps_intros) (auto intro!: keeps_intros split: cached.split)
  from keepsD [OF this opn] same have "dr_sessions s2 = dr_sessions s" by simp
  then show ?thesis
    using assms True new opn
    by (auto simp: driver_session_def io_simps split: sum.splits option.splits)
next
  case False
  then show ?thesis using assms by (auto simp: driver_session_def io_simps)
qed

theorem session_registered_witness:
  "\<exists>s'. driver_session (demo_world_env\<lparr>we_env := demo_server_env\<rparr>) ''db'' DATA None demo_driver = (Inr 1, s') \<and>
     dr_sessions s' = [(bytesToHexString [1], 0), (se_id (dr_session s' 1), 1)]"
proof -
  let ?we = "demo_world_env\<lparr>we_env := demo_server_env\<rparr>"
  have ne: "bytesToHexString [2] \<noteq> bytesToHexString [1]"
    using bytesToHexString_inj [of "[2]" "[1]"] by auto
  obtain s' where o: "driver_session ?we ''db'' DATA None demo_driver = (Inr 1, s')"
    "se_id (dr_session s' 1) = bytesToHexString [2]"
    using ne
    by (simp add: driver_session_def session_new_def session_open_def databases_def dbm_get_def dbm_contains_def
        dbm_runFailsafe_def databasesContains_def databasesGet_def cache_lookup_def object_prototype_members_def
        database_get_def fetchReplicas_def read_replicas_def replicas_of_def replica_of_def database_new_def
        runFailsafe_def runOnAnyReplica_def openAt_def sessionOpen_def with_stub_def set_pulse_def stub_call_defs
        session_io demo_driver_defs Let_def)
  from session_registered [OF o(1)] o ne show ?thesis
    by (auto simp: demo_driver_def)
qed

text \<open>
  A driver that is not open refuses everything: opening a session, reaching the databases, the users or the current user
  fails with \<open>DRIVER_NOT_OPEN\<close> as a template, without contacting a server and without changing anything.
\<close>

lemma closed_driver_refuses:
  assumes "\<not> dr_isOpen s"
  shows "driver_session we name typ opts s = (Inl (throw_template DRIVER_NOT_OPEN), s) \<and>
    databases s = (Inl (throw_template DRIVER_NOT_OPEN), s) \<and>
    users member s = (Inl (throw_template DRIVER_NOT_OPEN), s) \<and>
    driver_user env s = (Inl (throw_template DRIVER_NOT_OPEN), s) \<and> driver_close s = (Inr (), s)"
  using assms by (simp add: driver_session_def databases_def users_def driver_user_def driver_close_def io_simps)

lemma closed_driver_refuses_example:
  "driver_user demo_server_env (demo_driver\<lparr>dr_isOpen := False\<rparr>) =
     (Inl (throw_template DRIVER_NOT_OPEN), demo_driver\<lparr>dr_isOpen := False\<rparr>)"
  using closed_driver_refuses [of "demo_driver\<lparr>dr_isOpen := False\<rparr>" _ _ _ _ _ demo_server_env] by simp

end
