(* ===== verification/Concept_Model.thy ===== *)
theory Concept_Model
  imports Driver_Model
begin

text \<open>
  Concepts as the driver hands them to its user: the classes under \<open>concept/type\<close>, \<open>concept/thing\<close> and
  \<open>concept/value\<close>, their casts and comparisons, the readers that make them from protocol messages
  (\<open>ResponseReader.ts\<close> and the \<open>of...Proto\<close> functions), and the functions of \<open>api/concept\<close> that turn
  them back into messages for a request.

  The subclasses of \<open>TypeImpl\<close> and \<open>ThingImpl\<close> are records over the fields the classes hold, so that a
  method of a superclass takes any extension of its record. A reference that may be \<open>null\<close> is an option. The text
  the generated code prints for a message inside an error is a parameter \<open>show_msg\<close>.
\<close>

section \<open>Value types, transitivity and annotations\<close>

datatype value_type =
    ValueType_OBJECT | ValueType_BOOLEAN | ValueType_LONG | ValueType_DOUBLE | ValueType_STRING | ValueType_DATETIME

fun value_type_toProto :: "value_type \<Rightarrow> value_type_proto" where
  "value_type_toProto ValueType_OBJECT = VT_OBJECT"
| "value_type_toProto ValueType_BOOLEAN = VT_BOOLEAN"
| "value_type_toProto ValueType_LONG = VT_LONG"
| "value_type_toProto ValueType_DOUBLE = VT_DOUBLE"
| "value_type_toProto ValueType_STRING = VT_STRING"
| "value_type_toProto ValueType_DATETIME = VT_DATETIME"

text \<open>The name in capitals, as \<open>toString\<close> shows it, and in lower case, as \<open>name\<close> returns it.\<close>

fun value_type_constant :: "value_type \<Rightarrow> string" where
  "value_type_constant ValueType_OBJECT = ''OBJECT''"
| "value_type_constant ValueType_BOOLEAN = ''BOOLEAN''"
| "value_type_constant ValueType_LONG = ''LONG''"
| "value_type_constant ValueType_DOUBLE = ''DOUBLE''"
| "value_type_constant ValueType_STRING = ''STRING''"
| "value_type_constant ValueType_DATETIME = ''DATETIME''"

definition to_lower :: "char \<Rightarrow> char" where
  "to_lower c = (if of_char c \<ge> (65 :: nat) \<and> of_char c \<le> (90 :: nat) then char_of (of_char c + 32 :: nat) else c)"

definition value_type_name :: "value_type \<Rightarrow> string" where
  "value_type_name v = map to_lower (value_type_constant v)"

definition value_type_toString :: "value_type \<Rightarrow> string" where
  "value_type_toString v = ''ValueType['' @ value_type_constant v @ '']''"

text \<open>The switch has no default: an enumeration value it does not name gives \<open>undefined\<close>.\<close>

fun value_type_of :: "value_type_proto \<Rightarrow> value_type option" where
  "value_type_of VT_OBJECT = Some ValueType_OBJECT"
| "value_type_of VT_BOOLEAN = Some ValueType_BOOLEAN"
| "value_type_of VT_LONG = Some ValueType_LONG"
| "value_type_of VT_DOUBLE = Some ValueType_DOUBLE"
| "value_type_of VT_STRING = Some ValueType_STRING"
| "value_type_of VT_DATETIME = Some ValueType_DATETIME"
| "value_type_of (VT_UNRECOGNIZED _) = None"

datatype transitivity = TRANSITIVE | EXPLICIT

fun transitivity_toProto :: "transitivity \<Rightarrow> transitivity_proto" where
  "transitivity_toProto TRANSITIVE = T_TRANSITIVE"
| "transitivity_toProto EXPLICIT = T_EXPLICIT"

datatype annotation = KEY | UNIQUE

fun annotation_name :: "annotation \<Rightarrow> string" where
  "annotation_name KEY = ''key''"
| "annotation_name UNIQUE = ''unique''"

definition Annotation_parse :: "string \<Rightarrow> thrown + annotation" where
  "Annotation_parse s =
     (if s = annotation_name KEY then Inr KEY
      else if s = annotation_name UNIQUE then Inr KEY
      else Inl (throw_message BAD_ANNOTATION [s]))"

definition Annotation_toString :: "annotation \<Rightarrow> string" where
  "Annotation_toString a = ''[annotation: '' @ annotation_name a @ '']''"

text \<open>The constructor of the class is private, so the third branch of the source has no case here.\<close>

fun Annotation_proto :: "annotation \<Rightarrow> proto" where
  "Annotation_proto KEY = Type_Annotation_annotationKey"
| "Annotation_proto UNIQUE = Type_Annotation_annotationUnique"

section \<open>The classes\<close>

record type_impl =
  ty_label :: label
  ty_root :: bool
  ty_abstract :: bool

record attribute_type = type_impl +
  at_valueType :: "value_type option"

record value_impl =
  val_valueType :: value_type
  val_value :: js_value

record thing_impl =
  th_iid :: string
  th_inferred :: bool

record entity = thing_impl +
  en_type :: "type_impl option"

record relation_impl = thing_impl +
  re_type :: "type_impl option"

record attribute = thing_impl +
  at_type :: "attribute_type option"
  at_value :: "value_impl option"

datatype concept =
    EntityTypeImpl type_impl
  | RelationTypeImpl type_impl
  | AttributeTypeImpl attribute_type
  | RoleTypeImpl type_impl
  | ThingTypeRoot type_impl
  | EntityImpl entity
  | RelationImpl relation_impl
  | AttributeImpl attribute
  | ValueImpl value_impl

fun className :: "concept \<Rightarrow> string" where
  "className (EntityTypeImpl _) = ''EntityType''"
| "className (RelationTypeImpl _) = ''RelationType''"
| "className (AttributeTypeImpl _) = ''AttributeType''"
| "className (RoleTypeImpl _) = ''RoleType''"
| "className (ThingTypeRoot _) = ''ThingType''"
| "className (EntityImpl _) = ''Entity''"
| "className (RelationImpl _) = ''Relation''"
| "className (AttributeImpl _) = ''Attribute''"
| "className (ValueImpl _) = ''Value''"

text \<open>
  The tests: the base class answers no, and a class answers yes to its own and to its superclasses' tests.
\<close>

fun isEntityType :: "concept \<Rightarrow> bool" where
  "isEntityType (EntityTypeImpl _) = True"
| "isEntityType _ = False"

fun isRelationType :: "concept \<Rightarrow> bool" where
  "isRelationType (RelationTypeImpl _) = True"
| "isRelationType _ = False"

fun isAttributeType :: "concept \<Rightarrow> bool" where
  "isAttributeType (AttributeTypeImpl _) = True"
| "isAttributeType _ = False"

fun isRoleType :: "concept \<Rightarrow> bool" where
  "isRoleType (RoleTypeImpl _) = True"
| "isRoleType _ = False"

fun isThingType :: "concept \<Rightarrow> bool" where
  "isThingType (EntityTypeImpl _) = True"
| "isThingType (RelationTypeImpl _) = True"
| "isThingType (AttributeTypeImpl _) = True"
| "isThingType (ThingTypeRoot _) = True"
| "isThingType _ = False"

fun isType :: "concept \<Rightarrow> bool" where
  "isType (EntityTypeImpl _) = True"
| "isType (RelationTypeImpl _) = True"
| "isType (AttributeTypeImpl _) = True"
| "isType (ThingTypeRoot _) = True"
| "isType (RoleTypeImpl _) = True"
| "isType _ = False"

fun isEntity :: "concept \<Rightarrow> bool" where
  "isEntity (EntityImpl _) = True"
| "isEntity _ = False"

fun isRelation :: "concept \<Rightarrow> bool" where
  "isRelation (RelationImpl _) = True"
| "isRelation _ = False"

fun isAttribute :: "concept \<Rightarrow> bool" where
  "isAttribute (AttributeImpl _) = True"
| "isAttribute _ = False"

fun isThing :: "concept \<Rightarrow> bool" where
  "isThing (EntityImpl _) = True"
| "isThing (RelationImpl _) = True"
| "isThing (AttributeImpl _) = True"
| "isThing _ = False"

fun isValue :: "concept \<Rightarrow> bool" where
  "isValue (ValueImpl _) = True"
| "isValue _ = False"

text \<open>
  The casts: the base class throws with its class name and the target, a class returns itself. The result is the record
  of the target class.
\<close>

definition bad_cast :: "concept \<Rightarrow> string \<Rightarrow> thrown" where
  "bad_cast c target = throw_message INVALID_CONCEPT_CASTING [className c, target]"

fun asEntityType :: "concept \<Rightarrow> thrown + type_impl" where
  "asEntityType (EntityTypeImpl x) = Inr x"
| "asEntityType c = Inl (bad_cast c ''EntityType'')"

fun asRelationType :: "concept \<Rightarrow> thrown + type_impl" where
  "asRelationType (RelationTypeImpl x) = Inr x"
| "asRelationType c = Inl (bad_cast c ''RelationType'')"

fun asAttributeType :: "concept \<Rightarrow> thrown + attribute_type" where
  "asAttributeType (AttributeTypeImpl x) = Inr x"
| "asAttributeType c = Inl (bad_cast c ''AttributeType'')"

fun asRoleType :: "concept \<Rightarrow> thrown + type_impl" where
  "asRoleType (RoleTypeImpl x) = Inr x"
| "asRoleType c = Inl (bad_cast c ''RoleType'')"

fun asThingType :: "concept \<Rightarrow> thrown + type_impl" where
  "asThingType (EntityTypeImpl x) = Inr x"
| "asThingType (RelationTypeImpl x) = Inr x"
| "asThingType (AttributeTypeImpl x) = Inr (type_impl.truncate x)"
| "asThingType (ThingTypeRoot x) = Inr x"
| "asThingType c = Inl (bad_cast c ''ThingType'')"

fun asType :: "concept \<Rightarrow> thrown + type_impl" where
  "asType (EntityTypeImpl x) = Inr x"
| "asType (RelationTypeImpl x) = Inr x"
| "asType (AttributeTypeImpl x) = Inr (type_impl.truncate x)"
| "asType (ThingTypeRoot x) = Inr x"
| "asType (RoleTypeImpl x) = Inr x"
| "asType c = Inl (bad_cast c ''Type'')"

fun asEntity :: "concept \<Rightarrow> thrown + entity" where
  "asEntity (EntityImpl x) = Inr x"
| "asEntity c = Inl (bad_cast c ''Entity'')"

fun asRelation :: "concept \<Rightarrow> thrown + relation_impl" where
  "asRelation (RelationImpl x) = Inr x"
| "asRelation c = Inl (bad_cast c ''Relation'')"

fun asAttribute :: "concept \<Rightarrow> thrown + attribute" where
  "asAttribute (AttributeImpl x) = Inr x"
| "asAttribute c = Inl (bad_cast c ''Attribute'')"

fun asThing :: "concept \<Rightarrow> thrown + thing_impl" where
  "asThing (EntityImpl x) = Inr (thing_impl.truncate x)"
| "asThing (RelationImpl x) = Inr (thing_impl.truncate x)"
| "asThing (AttributeImpl x) = Inr (thing_impl.truncate x)"
| "asThing c = Inl (bad_cast c ''Thing'')"

fun asValue :: "concept \<Rightarrow> thrown + value_impl" where
  "asValue (ValueImpl x) = Inr x"
| "asValue c = Inl (bad_cast c ''Value'')"

section \<open>Values\<close>

definition isBoolean :: "value_impl \<Rightarrow> bool" where
  "isBoolean v \<longleftrightarrow> val_valueType v = ValueType_BOOLEAN"

definition isLong :: "value_impl \<Rightarrow> bool" where
  "isLong v \<longleftrightarrow> val_valueType v = ValueType_LONG"

definition isDouble :: "value_impl \<Rightarrow> bool" where
  "isDouble v \<longleftrightarrow> val_valueType v = ValueType_DOUBLE"

definition isString :: "value_impl \<Rightarrow> bool" where
  "isString v \<longleftrightarrow> val_valueType v = ValueType_STRING"

definition isDateTime :: "value_impl \<Rightarrow> bool" where
  "isDateTime v \<longleftrightarrow> val_valueType v = ValueType_DATETIME"

text \<open>The assertion \<open>as boolean\<close> and the like have no effect at run time: the value is returned as it is.\<close>

definition asBoolean :: "value_impl \<Rightarrow> thrown + js_value" where
  "asBoolean v = (if \<not> isBoolean v then Inl (bad_cast (ValueImpl v) ''Value.Boolean'') else Inr (val_value v))"

definition asLong :: "value_impl \<Rightarrow> thrown + js_value" where
  "asLong v = (if \<not> isLong v then Inl (bad_cast (ValueImpl v) ''Value.Long'') else Inr (val_value v))"

definition asDouble :: "value_impl \<Rightarrow> thrown + js_value" where
  "asDouble v = (if \<not> isDouble v then Inl (bad_cast (ValueImpl v) ''Value.Double'') else Inr (val_value v))"

definition asString :: "value_impl \<Rightarrow> thrown + js_value" where
  "asString v = (if \<not> isString v then Inl (bad_cast (ValueImpl v) ''Value.String'') else Inr (val_value v))"

definition asDateTime :: "value_impl \<Rightarrow> thrown + js_value" where
  "asDateTime v = (if \<not> isDateTime v then Inl (bad_cast (ValueImpl v) ''Value.DateTime'') else Inr (val_value v))"

section \<open>Comparison and printing\<close>

text \<open>
  The operator \<open>==\<close> between two values of one kind. Two \<open>Date\<close> objects are equal when they are the same object, which
  \<open>same_object\<close> says. Values of different kinds do not meet here: \<open>equals\<close> compares the value types first,
  and every value the driver makes has the JavaScript type of its value type.
\<close>

fun loose_equal :: "bool \<Rightarrow> js_value \<Rightarrow> js_value \<Rightarrow> bool" where
  "loose_equal same_object (JBoolean a) (JBoolean b) = (a = b)"
| "loose_equal same_object (JNumber a) (JNumber b) = num_eq a b"
| "loose_equal same_object (JString a) (JString b) = (a = b)"
| "loose_equal same_object (JDate a) (JDate b) = same_object"
| "loose_equal same_object _ _ = False"

definition ValueImpl_equals :: "bool \<Rightarrow> value_impl \<Rightarrow> concept \<Rightarrow> thrown + bool" where
  "ValueImpl_equals same_object this concept =
     (if \<not> isValue concept then Inr False
      else
        res_bind (asValue concept) (\<lambda>v.
        Inr (val_valueType this = val_valueType v \<and> loose_equal same_object (val_value this) (val_value v))))"

definition ThingImpl_equals :: "'z thing_impl_scheme \<Rightarrow> concept \<Rightarrow> thrown + bool" where
  "ThingImpl_equals this concept =
     (if \<not> isThing concept then Inr False
      else res_bind (asThing concept) (\<lambda>th. Inr (th_iid th = th_iid this)))"

definition TypeImpl_equals :: "'z type_impl_scheme \<Rightarrow> concept \<Rightarrow> thrown + bool" where
  "TypeImpl_equals this concept =
     (if \<not> isType concept then Inr False
      else res_bind (asType concept) (\<lambda>ty. Inr (label_equals (ty_label ty) (ty_label this))))"

fun concept_equals :: "bool \<Rightarrow> concept \<Rightarrow> concept \<Rightarrow> thrown + bool" where
  "concept_equals same_object (EntityTypeImpl x) d = TypeImpl_equals x d"
| "concept_equals same_object (RelationTypeImpl x) d = TypeImpl_equals x d"
| "concept_equals same_object (AttributeTypeImpl x) d = TypeImpl_equals x d"
| "concept_equals same_object (RoleTypeImpl x) d = TypeImpl_equals x d"
| "concept_equals same_object (ThingTypeRoot x) d = TypeImpl_equals x d"
| "concept_equals same_object (EntityImpl x) d = ThingImpl_equals x d"
| "concept_equals same_object (RelationImpl x) d = ThingImpl_equals x d"
| "concept_equals same_object (AttributeImpl x) d = ThingImpl_equals x d"
| "concept_equals same_object (ValueImpl x) d = ValueImpl_equals same_object x d"

definition ThingImpl_toString :: "string \<Rightarrow> 'z thing_impl_scheme \<Rightarrow> string" where
  "ThingImpl_toString class_name this = class_name @ ''[iid:'' @ th_iid this @ '']''"

definition TypeImpl_toString :: "string \<Rightarrow> 'z type_impl_scheme \<Rightarrow> string" where
  "TypeImpl_toString class_name this = class_name @ ''[label:'' @ label_toString (ty_label this) @ '']''"

section \<open>Reading messages\<close>

text \<open>Reading a field of a message, or asking whether it is set, throws when there is no message.\<close>

definition field :: "string \<Rightarrow> proto \<Rightarrow> thrown + proto" where
  "field k m = (if m = PUndefined then Inl (type_error k) else Inr (proto_get k m))"

definition has_field :: "string \<Rightarrow> proto \<Rightarrow> bool" where
  "has_field k m \<longleftrightarrow> proto_get k m \<noteq> PUndefined"

text \<open>
  \<open>new Date(n)\<close>: the time value is cut to whole milliseconds towards zero, and is not a number beyond 100 million days
  around 1970.
\<close>

fun time_clip :: "js_number \<Rightarrow> js_number" where
  "time_clip (Num q) =
     (if \<bar>q\<bar> > 8640000000000000 then NaN else Num (of_int (if q \<ge> 0 then \<lfloor>q\<rfloor> else \<lceil>q\<rceil>)))"
| "time_clip _ = NaN"

definition ofValueProto :: "(proto \<Rightarrow> string) \<Rightarrow> proto \<Rightarrow> thrown + value_impl option" where
  "ofValueProto show_msg p =
     (let scalar = (\<lambda>k. case proto_get k p of PValue v \<Rightarrow> v | _ \<Rightarrow> JString []) in
      if p = PUndefined then Inr None
      else if has_field ''boolean'' p then Inr (Some \<lparr>val_valueType = ValueType_BOOLEAN, val_value = scalar ''boolean''\<rparr>)
      else if has_field ''long'' p then Inr (Some \<lparr>val_valueType = ValueType_LONG, val_value = scalar ''long''\<rparr>)
      else if has_field ''double'' p then Inr (Some \<lparr>val_valueType = ValueType_DOUBLE, val_value = scalar ''double''\<rparr>)
      else if has_field ''string'' p then Inr (Some \<lparr>val_valueType = ValueType_STRING, val_value = scalar ''string''\<rparr>)
      else if has_field ''date_time'' p then
        Inr (Some \<lparr>val_valueType = ValueType_DATETIME,
                   val_value = JDate (time_clip (p_number (proto_get ''date_time'' p)))\<rparr>)
      else Inl (throw_message BAD_VALUE_TYPE [show_msg p]))"

text \<open>
  The constructors of types. \<open>TypeImpl\<close> refuses a label that is \<open>null\<close>, but its subclasses always pass a label
  object, so the check never fires and the constructors are total.
\<close>

definition ThingTypeImpl_new :: "string \<Rightarrow> bool \<Rightarrow> bool \<Rightarrow> type_impl" where
  "ThingTypeImpl_new name is_root is_abstract = \<lparr>ty_label = label_of name, ty_root = is_root, ty_abstract = is_abstract\<rparr>"

definition RoleTypeImpl_new :: "string \<Rightarrow> string \<Rightarrow> bool \<Rightarrow> bool \<Rightarrow> type_impl" where
  "RoleTypeImpl_new scope label is_root is_abstract =
     \<lparr>ty_label = label_scoped (Some scope) label, ty_root = is_root, ty_abstract = is_abstract\<rparr>"

definition ThingTypeRoot_new :: type_impl where
  "ThingTypeRoot_new = ThingTypeImpl_new ''thing'' True True"

definition AttributeTypeImpl_new :: "string \<Rightarrow> bool \<Rightarrow> bool \<Rightarrow> value_type option \<Rightarrow> attribute_type" where
  "AttributeTypeImpl_new name is_root is_abstract valueType =
     type_impl.extend (ThingTypeImpl_new name is_root is_abstract) (attribute_type.fields valueType)"

definition ofEntityTypeProto :: "proto \<Rightarrow> type_impl option" where
  "ofEntityTypeProto p =
     (if p = PUndefined then None
      else
        Some (ThingTypeImpl_new (p_string (proto_get ''label'' p)) (p_bool (proto_get ''is_root'' p))
          (p_bool (proto_get ''is_abstract'' p))))"

definition ofRelationTypeProto :: "proto \<Rightarrow> type_impl option" where
  "ofRelationTypeProto p =
     (if p = PUndefined then None
      else
        Some (ThingTypeImpl_new (p_string (proto_get ''label'' p)) (p_bool (proto_get ''is_root'' p))
          (p_bool (proto_get ''is_abstract'' p))))"

definition ofAttributeTypeProto :: "proto \<Rightarrow> attribute_type option" where
  "ofAttributeTypeProto p =
     (if p = PUndefined then None
      else
        Some (AttributeTypeImpl_new (p_string (proto_get ''label'' p)) (p_bool (proto_get ''is_root'' p))
          (p_bool (proto_get ''is_abstract'' p))
          (Option.bind (p_value_type (proto_get ''value_type'' p)) value_type_of)))"

definition ofRoleTypeProto :: "proto \<Rightarrow> type_impl option" where
  "ofRoleTypeProto p =
     (if p = PUndefined then None
      else
        Some (RoleTypeImpl_new (p_string (proto_get ''scope'' p)) (p_string (proto_get ''label'' p))
          (p_bool (proto_get ''is_root'' p)) (p_bool (proto_get ''is_abstract'' p))))"

definition ofThingTypeRootProto :: "proto \<Rightarrow> type_impl" where
  "ofThingTypeRootProto p = ThingTypeRoot_new"

definition ofThingTypeProto :: "(proto \<Rightarrow> string) \<Rightarrow> proto \<Rightarrow> thrown + concept option" where
  "ofThingTypeProto show_msg p =
     (if p = PUndefined then Inl (type_error ''has_entity_type'')
      else if has_field ''entity_type'' p then
        Inr (map_option EntityTypeImpl (ofEntityTypeProto (proto_get ''entity_type'' p)))
      else if has_field ''relation_type'' p then
        Inr (map_option RelationTypeImpl (ofRelationTypeProto (proto_get ''relation_type'' p)))
      else if has_field ''attribute_type'' p then
        Inr (map_option AttributeTypeImpl (ofAttributeTypeProto (proto_get ''attribute_type'' p)))
      else if has_field ''thing_type_root'' p then
        Inr (Some (ThingTypeRoot (ofThingTypeRootProto (proto_get ''thing_type_root'' p))))
      else Inl (throw_message BAD_ENCODING [show_msg p]))"

definition ThingImpl_new :: "string \<Rightarrow> bool \<Rightarrow> thrown + thing_impl" where
  "ThingImpl_new iid inferred =
     (if iid = [] then Inl (throw_template MISSING_IID) else Inr \<lparr>th_iid = iid, th_inferred = inferred\<rparr>)"

definition ofEntityProto :: "proto \<Rightarrow> thrown + entity option" where
  "ofEntityProto p =
     (if p = PUndefined then Inr None
      else
        res_bind (ThingImpl_new (bytesToHexString (p_bytes (proto_get ''iid'' p))) (p_bool (proto_get ''inferred'' p)))
          (\<lambda>th. Inr (Some (thing_impl.extend th (entity.fields (ofEntityTypeProto (proto_get ''entity_type'' p)))))))"

definition ofRelationProto :: "proto \<Rightarrow> thrown + relation_impl option" where
  "ofRelationProto p =
     (if p = PUndefined then Inr None
      else
        res_bind (ThingImpl_new (bytesToHexString (p_bytes (proto_get ''iid'' p))) (p_bool (proto_get ''inferred'' p)))
          (\<lambda>th. Inr (Some (thing_impl.extend th
             (relation_impl.fields (ofRelationTypeProto (proto_get ''relation_type'' p)))))))"

text \<open>The arguments of the constructor are evaluated before its body runs.\<close>

definition ofAttributeProto :: "(proto \<Rightarrow> string) \<Rightarrow> proto \<Rightarrow> thrown + attribute option" where
  "ofAttributeProto show_msg p =
     (if p = PUndefined then Inr None
      else
        res_bind (ofValueProto show_msg (proto_get ''value'' p)) (\<lambda>v.
        res_bind (ThingImpl_new (bytesToHexString (p_bytes (proto_get ''iid'' p))) (p_bool (proto_get ''inferred'' p)))
          (\<lambda>th. Inr (Some (thing_impl.extend th
             (attribute.fields (ofAttributeTypeProto (proto_get ''attribute_type'' p)) v))))))"

definition ofThingProto :: "(proto \<Rightarrow> string) \<Rightarrow> proto \<Rightarrow> thrown + concept option" where
  "ofThingProto show_msg p =
     (if p = PUndefined then Inl (type_error ''has_entity'')
      else if has_field ''entity'' p then
        map_sum id (map_option EntityImpl) (ofEntityProto (proto_get ''entity'' p))
      else if has_field ''relation'' p then
        map_sum id (map_option RelationImpl) (ofRelationProto (proto_get ''relation'' p))
      else if has_field ''attribute'' p then
        map_sum id (map_option AttributeImpl) (ofAttributeProto show_msg (proto_get ''attribute'' p))
      else Inl (throw_message BAD_ENCODING [show_msg p]))"

definition Concept_of :: "(proto \<Rightarrow> string) \<Rightarrow> proto \<Rightarrow> thrown + concept option" where
  "Concept_of show_msg p =
     (if p = PUndefined then Inl (type_error ''has_entity_type'')
      else if has_field ''entity_type'' p then
        Inr (map_option EntityTypeImpl (ofEntityTypeProto (proto_get ''entity_type'' p)))
      else if has_field ''relation_type'' p then
        Inr (map_option RelationTypeImpl (ofRelationTypeProto (proto_get ''relation_type'' p)))
      else if has_field ''attribute_type'' p then
        Inr (map_option AttributeTypeImpl (ofAttributeTypeProto (proto_get ''attribute_type'' p)))
      else if has_field ''role_type'' p then
        Inr (map_option RoleTypeImpl (ofRoleTypeProto (proto_get ''role_type'' p)))
      else if has_field ''thing_type_root'' p then
        Inr (Some (ThingTypeRoot (ofThingTypeRootProto (proto_get ''thing_type_root'' p))))
      else if has_field ''entity'' p then
        map_sum id (map_option EntityImpl) (ofEntityProto (proto_get ''entity'' p))
      else if has_field ''relation'' p then
        map_sum id (map_option RelationImpl) (ofRelationProto (proto_get ''relation'' p))
      else if has_field ''attribute'' p then
        map_sum id (map_option AttributeImpl) (ofAttributeProto show_msg (proto_get ''attribute'' p))
      else if has_field ''value'' p then
        map_sum id (map_option ValueImpl) (ofValueProto show_msg (proto_get ''value'' p))
      else Inl (throw_message BAD_ENCODING [show_msg p]))"

section \<open>Concepts in requests\<close>

definition EntityType_proto :: "'z type_impl_scheme \<Rightarrow> proto" where
  "EntityType_proto entityType = Type_EntityType_protoEntityType (ty_label entityType)"

definition RelationType_proto :: "'z type_impl_scheme \<Rightarrow> proto" where
  "RelationType_proto relationType = Type_RelationType_protoRelationType (ty_label relationType)"

definition AttributeType_proto :: "'z type_impl_scheme \<Rightarrow> proto" where
  "AttributeType_proto attributeType = Type_AttributeType_protoAttributeType (ty_label attributeType)"

definition RoleType_proto :: "'z type_impl_scheme \<Rightarrow> proto" where
  "RoleType_proto roleType = Type_RoleType_protoRoleType (ty_label roleType)"

definition Value_proto :: "value_impl \<Rightarrow> thrown + proto" where
  "Value_proto value = Value_protoValue (Some (value_type_toProto (val_valueType value))) (val_value value)"

definition Attribute_proto :: "'z thing_impl_scheme \<Rightarrow> thrown + proto" where
  "Attribute_proto attribute = Thing_Attribute_protoAttribute (th_iid attribute)"

definition Entity_proto :: "'z thing_impl_scheme \<Rightarrow> thrown + proto" where
  "Entity_proto entity = Thing_Entity_protoEntity (th_iid entity)"

definition Relation_proto :: "'z thing_impl_scheme \<Rightarrow> thrown + proto" where
  "Relation_proto relation = Thing_Relation_protoRelation (th_iid relation)"

definition Thing_proto :: "concept \<Rightarrow> thrown + proto" where
  "Thing_proto thing =
     (if isEntity thing then res_bind (asThing thing) (\<lambda>th. Thing_protoThingEntity (th_iid th))
      else if isRelation thing then res_bind (asThing thing) (\<lambda>th. Thing_protoThingRelation (th_iid th))
      else if isAttribute thing then res_bind (asThing thing) (\<lambda>th. Thing_protoThingAttribute (th_iid th))
      else Inl (throw_message ILLEGAL_STATE []))"

text \<open>The tests are those of things, not those of thing types.\<close>

definition ThingType_proto :: "concept \<Rightarrow> thrown + proto" where
  "ThingType_proto thing_type =
     (if isEntity thing_type then
        res_bind (asThingType thing_type) (\<lambda>ty. Inr (Type_ThingType_protoThingTypeEntityType (ty_label ty)))
      else if isRelation thing_type then
        res_bind (asThingType thing_type) (\<lambda>ty. Inr (Type_ThingType_protoThingTypeRelationType (ty_label ty)))
      else if isAttribute thing_type then
        res_bind (asThingType thing_type) (\<lambda>ty. Inr (Type_ThingType_protoThingTypeAttributeType (ty_label ty)))
      else Inl (throw_message ILLEGAL_STATE []))"

section \<open>What the protocol says\<close>

text \<open>
  The encoding of concepts that the messages of the protocol prescribe, against which the readers are checked: one field
  per attribute of the concept, under the alternative named after its class.
\<close>

text \<open>
  The time values a \<open>Date\<close> can hold: whole milliseconds up to 100 million days from 1970, and not a number, which makes it the invalid date.
\<close>

definition in_date_range :: "js_number \<Rightarrow> bool" where
  "in_date_range t = (case t of Num q \<Rightarrow> \<bar>q\<bar> \<le> 8640000000000000 | _ \<Rightarrow> False)"

definition date_value :: "js_number \<Rightarrow> bool" where
  "date_value t = (case t of Num q \<Rightarrow> in_date_range t \<and> of_int \<lfloor>q\<rfloor> = q | NaN \<Rightarrow> True | _ \<Rightarrow> False)"

fun value_wf :: "value_impl \<Rightarrow> bool" where
  "value_wf v =
     (case (val_valueType v, val_value v) of
        (ValueType_BOOLEAN, JBoolean _) \<Rightarrow> True
      | (ValueType_LONG, JNumber _) \<Rightarrow> True
      | (ValueType_DOUBLE, JNumber _) \<Rightarrow> True
      | (ValueType_STRING, JString _) \<Rightarrow> True
      | (ValueType_DATETIME, JDate t) \<Rightarrow> date_value t
      | _ \<Rightarrow> False)"

definition iid_wf :: "string \<Rightarrow> bool" where
  "iid_wf iid = (case hexStringToBytes iid of Inl _ \<Rightarrow> False | Inr bs \<Rightarrow> bytesToHexString bs = iid)"

definition thing_type_wf :: "'z type_impl_scheme \<Rightarrow> bool" where
  "thing_type_wf ty \<longleftrightarrow> label_scope (ty_label ty) = None"

fun concept_wf :: "concept \<Rightarrow> bool" where
  "concept_wf (EntityTypeImpl ty) = thing_type_wf ty"
| "concept_wf (RelationTypeImpl ty) = thing_type_wf ty"
| "concept_wf (AttributeTypeImpl ty) = thing_type_wf ty"
| "concept_wf (RoleTypeImpl ty) = (label_scope (ty_label ty) \<noteq> None)"
| "concept_wf (ThingTypeRoot ty) = (ty = ThingTypeRoot_new)"
| "concept_wf (EntityImpl x) = (iid_wf (th_iid x) \<and> pred_option thing_type_wf (en_type x))"
| "concept_wf (RelationImpl x) = (iid_wf (th_iid x) \<and> pred_option thing_type_wf (re_type x))"
| "concept_wf (AttributeImpl x) =
     (iid_wf (th_iid x) \<and> pred_option thing_type_wf (at_type x) \<and> pred_option value_wf (at_value x))"
| "concept_wf (ValueImpl v) = value_wf v"

definition type_fields :: "'z type_impl_scheme \<Rightarrow> (string \<times> proto) list" where
  "type_fields ty =
     [(''label'', PString (label_name (ty_label ty))), (''is_root'', PBool (ty_root ty)),
      (''is_abstract'', PBool (ty_abstract ty))]"

definition attribute_type_encoding :: "attribute_type \<Rightarrow> proto" where
  "attribute_type_encoding ty =
     PMsg ''AttributeType'' (type_fields ty @
       [(''value_type'', PEnum (EValueType (case at_valueType ty of None \<Rightarrow> VT_UNRECOGNIZED 6 | Some v \<Rightarrow> value_type_toProto v)))])"

definition role_type_encoding :: "type_impl \<Rightarrow> proto" where
  "role_type_encoding ty =
     PMsg ''RoleType'' (type_fields ty @ [(''scope'', opt_proto PString (label_scope (ty_label ty)))])"

definition value_encoding :: "value_impl \<Rightarrow> proto" where
  "value_encoding v =
     PMsg ''Value''
       [case val_valueType v of
          ValueType_BOOLEAN \<Rightarrow> (''boolean'', PValue (val_value v))
        | ValueType_LONG \<Rightarrow> (''long'', PValue (val_value v))
        | ValueType_DOUBLE \<Rightarrow> (''double'', PValue (val_value v))
        | ValueType_STRING \<Rightarrow> (''string'', PValue (val_value v))
        | _ \<Rightarrow> (''date_time'', case val_value v of JDate t \<Rightarrow> PNumber t | _ \<Rightarrow> PUndefined)]"

definition thing_fields :: "'z thing_impl_scheme \<Rightarrow> (string \<times> proto) list" where
  "thing_fields th =
     [(''iid'', PBytes (case hexStringToBytes (th_iid th) of Inl _ \<Rightarrow> [] | Inr bs \<Rightarrow> bs)),
      (''inferred'', PBool (th_inferred th))]"

fun concept_alternative :: "concept \<Rightarrow> string \<times> proto" where
  "concept_alternative (EntityTypeImpl ty) = (''entity_type'', PMsg ''EntityType'' (type_fields ty))"
| "concept_alternative (RelationTypeImpl ty) = (''relation_type'', PMsg ''RelationType'' (type_fields ty))"
| "concept_alternative (AttributeTypeImpl ty) = (''attribute_type'', attribute_type_encoding ty)"
| "concept_alternative (RoleTypeImpl ty) = (''role_type'', role_type_encoding ty)"
| "concept_alternative (ThingTypeRoot ty) = (''thing_type_root'', PMsg ''ThingTypeRoot'' [])"
| "concept_alternative (EntityImpl x) =
     (''entity'', PMsg ''Entity'' (thing_fields x @
        [(''entity_type'', opt_proto (\<lambda>ty. PMsg ''EntityType'' (type_fields ty)) (en_type x))]))"
| "concept_alternative (RelationImpl x) =
     (''relation'', PMsg ''Relation'' (thing_fields x @
        [(''relation_type'', opt_proto (\<lambda>ty. PMsg ''RelationType'' (type_fields ty)) (re_type x))]))"
| "concept_alternative (AttributeImpl x) =
     (''attribute'', PMsg ''Attribute'' (thing_fields x @
        [(''attribute_type'', opt_proto attribute_type_encoding (at_type x)),
         (''value'', opt_proto value_encoding (at_value x))]))"
| "concept_alternative (ValueImpl v) = (''value'', value_encoding v)"

definition concept_encoding :: "string \<Rightarrow> concept \<Rightarrow> proto" where
  "concept_encoding msg_class c = PMsg msg_class [concept_alternative c]"

section \<open>Lemmas\<close>

lemma value_type_of_toProto [simp]: "value_type_of (value_type_toProto v) = Some v"
  by (cases v) simp_all

lemma type_fields_read:
  fixes ty :: type_impl
  shows "thing_type_wf ty \<Longrightarrow> ofEntityTypeProto (PMsg c (type_fields ty)) = Some ty"
    and "thing_type_wf ty \<Longrightarrow> ofRelationTypeProto (PMsg c (type_fields ty)) = Some ty"
  by (cases ty; cases "ty_label ty";
      simp add: thing_type_wf_def ofEntityTypeProto_def ofRelationTypeProto_def type_fields_def ThingTypeImpl_new_def
        label_of_def)+

lemma attribute_type_read: "thing_type_wf ty \<Longrightarrow> ofAttributeTypeProto (attribute_type_encoding ty) = Some ty"
  by (cases ty; cases "ty_label ty"; cases "at_valueType ty")
    (simp_all add: thing_type_wf_def ofAttributeTypeProto_def attribute_type_encoding_def type_fields_def
      AttributeTypeImpl_new_def ThingTypeImpl_new_def label_of_def type_impl.defs attribute_type.defs)

lemma role_type_read:
  "label_scope (ty_label ty) \<noteq> None \<Longrightarrow> ofRoleTypeProto (role_type_encoding ty) = Some ty"
  by (cases ty; cases "ty_label ty")
    (auto simp: ofRoleTypeProto_def role_type_encoding_def type_fields_def RoleTypeImpl_new_def label_scoped_def)

lemma time_clip_date_value: "date_value t \<Longrightarrow> time_clip t = t"
proof (cases t)
  case (Num q)
  assume "date_value t"
  with Num have "\<bar>q\<bar> \<le> 8640000000000000" "of_int \<lfloor>q\<rfloor> = q" by (simp_all add: date_value_def in_date_range_def)
  moreover from this(2) have "of_int \<lceil>q\<rceil> = q" by (metis ceiling_of_int)
  ultimately show ?thesis using Num by simp
qed (simp_all add: date_value_def)

lemma date_value_time_clip: "date_value (time_clip n)"
proof (cases n)
  case (Num q)
  have "\<bar>of_int (if q \<ge> 0 then \<lfloor>q\<rfloor> else \<lceil>q\<rceil>) :: rat\<bar> \<le> \<bar>q\<bar>"
  proof (cases "q \<ge> 0")
    case False
    then have "of_int \<lceil>q\<rceil> \<le> (0 :: rat)" by (metis ceiling_le_zero linear of_int_le_0_iff)
    with False le_of_int_ceiling [of q] show ?thesis by (simp only: abs_if if_False split: if_split) linarith
  qed simp
  with Num show ?thesis by (auto simp: date_value_def in_date_range_def)
qed (simp_all add: date_value_def)

lemma time_clip_NaN: "time_clip n = NaN \<longleftrightarrow> \<not> in_date_range n"
  by (cases n) (auto simp: in_date_range_def)

lemma value_proto_encoding: "value_wf v \<Longrightarrow> Value_proto v = Inr (value_encoding v)"
  by (cases v; cases "val_valueType v"; cases "val_value v")
    (simp_all add: Value_proto_def Value_protoValue_def value_encoding_def)

lemma value_read: "value_wf v \<Longrightarrow> ofValueProto show_msg (value_encoding v) = Inr (Some v)"
  by (cases v; cases "val_valueType v"; cases "val_value v")
    (simp_all add: ofValueProto_def value_encoding_def has_field_def time_clip_date_value del: time_clip.simps)

lemma thing_fields_read:
  assumes "iid_wf (th_iid th)"
  shows "ThingImpl_new (bytesToHexString (p_bytes (proto_get ''iid'' (PMsg c (thing_fields th @ fs)))))
           (p_bool (proto_get ''inferred'' (PMsg c (thing_fields th @ fs)))) =
         Inr \<lparr>th_iid = th_iid th, th_inferred = th_inferred th\<rparr>"
  using assms by (auto simp: thing_fields_def iid_wf_def ThingImpl_new_def split: sum.splits)

lemma undefined_type_read [simp]:
  "ofEntityTypeProto PUndefined = None" "ofRelationTypeProto PUndefined = None"
  "ofAttributeTypeProto PUndefined = None" "ofRoleTypeProto PUndefined = None"
  "ofValueProto show_msg PUndefined = Inr None"
  by (simp_all add: ofEntityTypeProto_def ofRelationTypeProto_def ofAttributeTypeProto_def ofRoleTypeProto_def
      ofValueProto_def)

lemma opt_encoding_read:
  "pred_option thing_type_wf ty \<Longrightarrow> ofEntityTypeProto (opt_proto (\<lambda>t. PMsg c (type_fields t)) ty) = ty"
  "pred_option thing_type_wf ty \<Longrightarrow> ofRelationTypeProto (opt_proto (\<lambda>t. PMsg c (type_fields t)) ty) = ty"
  "pred_option thing_type_wf att \<Longrightarrow> ofAttributeTypeProto (opt_proto attribute_type_encoding att) = att"
  "pred_option value_wf v \<Longrightarrow> ofValueProto show_msg (opt_proto value_encoding v) = Inr v"
  by (cases ty; cases att; cases v; simp add: type_fields_read attribute_type_read value_read del: value_wf.simps)+

lemma proto_get_append:
  "proto_get k (PMsg c (fs @ gs)) = (if k \<in> fst ` set fs then proto_get k (PMsg c fs) else proto_get k (PMsg c gs))"
  by (induction fs) (auto, force)

lemma thing_fields_keys: "fst ` set (thing_fields th) = {''iid'', ''inferred''}"
  by (auto simp: thing_fields_def)

lemma thing_alternative_read:
  shows "concept_wf (EntityImpl e) \<Longrightarrow> ofEntityProto (snd (concept_alternative (EntityImpl e))) = Inr (Some e)"
    and "concept_wf (RelationImpl r) \<Longrightarrow> ofRelationProto (snd (concept_alternative (RelationImpl r))) = Inr (Some r)"
    and "concept_wf (AttributeImpl a) \<Longrightarrow>
      ofAttributeProto show_msg (snd (concept_alternative (AttributeImpl a))) = Inr (Some a)"
  subgoal
    by (cases e; simp add: ofEntityProto_def thing_fields_read; simp add: proto_get_append thing_fields_keys
        opt_encoding_read thing_impl.defs entity.defs)
  subgoal
    by (cases r; simp add: ofRelationProto_def thing_fields_read; simp add: proto_get_append thing_fields_keys
        opt_encoding_read thing_impl.defs relation_impl.defs)
  subgoal
    by (cases a; simp add: ofAttributeProto_def thing_fields_read del: value_wf.simps;
        simp add: proto_get_append thing_fields_keys opt_encoding_read thing_impl.defs attribute.defs
        del: value_wf.simps)
  done

lemma encoding_defined [simp]:
  "value_encoding v \<noteq> PUndefined" "attribute_type_encoding ty \<noteq> PUndefined" "role_type_encoding rt \<noteq> PUndefined"
  by (simp_all add: value_encoding_def attribute_type_encoding_def role_type_encoding_def)

lemma concept_read:
  assumes "concept_wf c"
  shows "Concept_of show_msg (concept_encoding m c) = Inr (Some c)"
    and "ofThingProto show_msg (concept_encoding m c) =
      (if isThing c then Inr (Some c) else Inl (throw_message BAD_ENCODING [show_msg (concept_encoding m c)]))"
    and "ofThingTypeProto show_msg (concept_encoding m c) =
      (if isThingType c then Inr (Some c) else Inl (throw_message BAD_ENCODING [show_msg (concept_encoding m c)]))"
  using assms thing_alternative_read(1,2) thing_alternative_read(3) [of _ show_msg]
  by (cases c;
      simp add: Concept_of_def ofThingProto_def ofThingTypeProto_def concept_encoding_def has_field_def
        type_fields_read attribute_type_read role_type_read value_read ofThingTypeRootProto_def
        del: value_wf.simps)+

lemma annotation_parse_unique: "Annotation_parse (annotation_name a) = Inr KEY"
  by (cases a) (simp_all add: Annotation_parse_def)

section \<open>Properties\<close>

text \<open>
  C14. Reading inverts the protocol's encoding: every well-formed concept, of whichever of the nine classes, is read back
  from its message unchanged, whatever the class of the enclosing message; and where the message type only has
  the alternatives for things, or for thing types, its narrower reader gives the same.
\<close>

theorem concept_reader_inverts_encoding:
  assumes "concept_wf c"
  shows "Concept_of show_msg (concept_encoding m c) = Inr (Some c) \<and>
    ofThingProto show_msg (concept_encoding m c) =
      (if isThing c then Inr (Some c) else Inl (throw_message BAD_ENCODING [show_msg (concept_encoding m c)])) \<and>
    ofThingTypeProto show_msg (concept_encoding m c) =
      (if isThingType c then Inr (Some c) else Inl (throw_message BAD_ENCODING [show_msg (concept_encoding m c)]))"
  using concept_read [OF assms] by blast

definition demo_attribute :: attribute where
  "demo_attribute =
     \<lparr>th_iid = bytesToHexString [10, 255], th_inferred = False,
      at_type = Some \<lparr>ty_label = label_of ''age'', ty_root = False, ty_abstract = False, at_valueType = Some ValueType_LONG\<rparr>,
      at_value = Some \<lparr>val_valueType = ValueType_LONG, val_value = JNumber (Num 42)\<rparr>\<rparr>"

theorem concept_reader_inverts_encoding_witness:
  "Concept_of proto_class (concept_encoding ''Concept'' (AttributeImpl demo_attribute)) =
     Inr (Some (AttributeImpl demo_attribute))"
proof -
  have "concept_wf (AttributeImpl demo_attribute)"
    by (simp add: demo_attribute_def iid_wf_def thing_type_wf_def label_of_def)
  from concept_reader_inverts_encoding [OF this, of proto_class "''Concept''"] show ?thesis by simp
qed

text \<open>
  C29. A value survives the round trip to the server: what the request builder writes for a value of the driver
  is read back as the same value, and the two fields that carry a number stay apart. A value of type
  object cannot be sent: building the request throws.
\<close>

theorem value_roundtrip:
  assumes "value_wf v"
  shows "\<exists>p. Value_proto v = Inr p \<and> ofValueProto show_msg p = Inr (Some v) \<and>
    Concept_of show_msg (PMsg ''Concept'' [(''value'', p)]) = Inr (Some (ValueImpl v)) \<and>
    Value_proto (v\<lparr>val_valueType := ValueType_OBJECT\<rparr>) = Inl (throw_message BAD_VALUE_TYPE [])"
proof -
  from value_proto_encoding [OF assms] assms show ?thesis
    by (auto simp: value_read Concept_of_def has_field_def Value_proto_def Value_protoValue_def simp del: value_wf.simps)
qed

theorem value_roundtrip_witness:
  "\<exists>p. Value_proto \<lparr>val_valueType = ValueType_DATETIME, val_value = JDate (Num 1500)\<rparr> = Inr p \<and>
     ofValueProto proto_class p = Inr (Some \<lparr>val_valueType = ValueType_DATETIME, val_value = JDate (Num 1500)\<rparr>)"
proof -
  have "value_wf \<lparr>val_valueType = ValueType_DATETIME, val_value = JDate (Num 1500)\<rparr>"
    by (simp add: date_value_def in_date_range_def)
  from value_roundtrip [OF this, of proto_class] show ?thesis by blast
qed

text \<open>
  Comparing concepts never throws and is symmetric; types are compared by label alone and things by identifier alone,
  whatever their classes. A date value is not even equal to a second reading of the message it came from,
  because its \<open>Date\<close> is compared by identity.
\<close>

lemma concept_comparison:
  "\<exists>b. concept_equals same_object c d = Inr b \<and> concept_equals same_object d c = Inr b \<and>
     (isType c \<and> isType d \<longrightarrow> b = (map_sum id ty_label (asType c) = map_sum id ty_label (asType d))) \<and>
     (isThing c \<and> isThing d \<longrightarrow> b = (map_sum id th_iid (asThing c) = map_sum id th_iid (asThing d))) \<and>
     (isType c \<noteq> isType d \<or> isThing c \<noteq> isThing d \<longrightarrow> \<not> b) \<and>
     (\<forall>v. c = ValueImpl v \<and> d = ValueImpl v \<and> value_wf v \<and> isDateTime v \<longrightarrow> b = same_object)"
proof -
  have sym: "loose_equal s a b = loose_equal s b a" for s a b
    by (cases a; cases b) (auto elim: num_eq.elims)
  show ?thesis
    by (cases c; cases d)
      (auto simp: TypeImpl_equals_def ThingImpl_equals_def ValueImpl_equals_def label_equals_eq sym isDateTime_def
        type_impl.defs thing_impl.defs split: js_value.splits)
qed

lemma concept_comparison_example:
  "concept_equals True (EntityTypeImpl (ThingTypeImpl_new ''x'' False False))
     (RelationTypeImpl (ThingTypeImpl_new ''x'' True True)) = Inr True"
  using concept_comparison [of True "EntityTypeImpl (ThingTypeImpl_new ''x'' False False)"
      "RelationTypeImpl (ThingTypeImpl_new ''x'' True True)"]
  by (auto simp: ThingTypeImpl_new_def)

text \<open>The scalar fields of a value message hold scalars of their types, as the generated code makes sure.\<close>

definition value_typed :: "proto \<Rightarrow> bool" where
  "value_typed p \<longleftrightarrow>
     (has_field ''boolean'' p \<longrightarrow> (\<exists>b. proto_get ''boolean'' p = PBool b)) \<and>
     (has_field ''long'' p \<longrightarrow> (\<exists>n. proto_get ''long'' p = PNumber n)) \<and>
     (has_field ''double'' p \<longrightarrow> (\<exists>n. proto_get ''double'' p = PNumber n)) \<and>
     (has_field ''string'' p \<longrightarrow> (\<exists>x. proto_get ''string'' p = PString x))"

lemma value_reader_wf:
  assumes "ofValueProto show_msg p = Inr (Some v)" and "value_typed p"
  shows "value_wf v" "val_value v = JDate NaN \<Longrightarrow> \<not> in_date_range (p_number (proto_get ''date_time'' p))"
  using assms
  by (auto simp: ofValueProto_def value_typed_def date_value_time_clip time_clip_NaN Let_def simp del: time_clip.simps split: if_splits)

lemma iid_wf_hex [simp]: "iid_wf (bytesToHexString bs)"
  by (simp add: iid_wf_def)

lemma type_reader_wf:
  "pred_option thing_type_wf (ofEntityTypeProto p)" "pred_option thing_type_wf (ofRelationTypeProto p)"
  "pred_option thing_type_wf (ofAttributeTypeProto p)"
  by (simp_all add: ofEntityTypeProto_def ofRelationTypeProto_def ofAttributeTypeProto_def thing_type_wf_def
      ThingTypeImpl_new_def AttributeTypeImpl_new_def label_of_def type_impl.defs)

lemma thing_reader_wf:
  "ofEntityProto p = Inr (Some e) \<Longrightarrow> concept_wf (EntityImpl e)"
  "ofRelationProto p = Inr (Some r) \<Longrightarrow> concept_wf (RelationImpl r)"
  "ofAttributeProto show_msg p = Inr (Some a) \<Longrightarrow> value_typed (proto_get ''value'' p) \<Longrightarrow> concept_wf (AttributeImpl a)"
proof -
  show "ofEntityProto p = Inr (Some e) \<Longrightarrow> concept_wf (EntityImpl e)"
    using type_reader_wf(1) by (auto simp: ofEntityProto_def ThingImpl_new_def thing_impl.defs entity.defs split: if_splits)
  show "ofRelationProto p = Inr (Some r) \<Longrightarrow> concept_wf (RelationImpl r)"
    using type_reader_wf(2)
    by (auto simp: ofRelationProto_def ThingImpl_new_def thing_impl.defs relation_impl.defs split: if_splits)
  show "ofAttributeProto show_msg p = Inr (Some a) \<Longrightarrow> value_typed (proto_get ''value'' p) \<Longrightarrow> concept_wf (AttributeImpl a)"
    using type_reader_wf(3) value_reader_wf [of show_msg "proto_get ''value'' p"]
    by (cases "ofValueProto show_msg (proto_get ''value'' p)")
      (auto simp: ofAttributeProto_def ThingImpl_new_def thing_impl.defs attribute.defs pred_option_def
        simp del: value_wf.simps split: if_splits)
qed

lemma attribute_reader_value:
  assumes "ofAttributeProto show_msg p = Inr (Some a)" and "at_value a = Some v"
  shows "ofValueProto show_msg (proto_get ''value'' p) = Inr (Some v)"
  using assms by (auto simp: ofAttributeProto_def ThingImpl_new_def thing_impl.defs attribute.defs res_bind_def split: if_splits sum.splits)

text \<open>
  C28. Whatever the server sends, in messages whose scalar fields have their types, a concept the reader returns is well formed: its label has a scope exactly when it is
  a role type, its identifier decodes to bytes, its value has the JavaScript type of its value type, and a date holds whole milliseconds within 100 million days
  of 1970 or is the invalid date. It is the invalid date only if the number in the message is out of that range.
\<close>

theorem concept_reader_wf:
  assumes "Concept_of show_msg p = Inr (Some c)"
    and "value_typed (proto_get ''value'' p)" and "value_typed (proto_get ''value'' (proto_get ''attribute'' p))"
  shows "concept_wf c \<and>
    (\<forall>v. c = ValueImpl v \<and> val_value v = JDate NaN \<longrightarrow>
       \<not> in_date_range (p_number (proto_get ''date_time'' (proto_get ''value'' p)))) \<and>
    (\<forall>a v. c = AttributeImpl a \<and> at_value a = Some v \<and> val_value v = JDate NaN \<longrightarrow>
       \<not> in_date_range (p_number (proto_get ''date_time'' (proto_get ''value'' (proto_get ''attribute'' p)))))"
proof -
  have role: "ofRoleTypeProto q = Some ty \<Longrightarrow> label_scope (ty_label ty) \<noteq> None" for q ty
    by (auto simp: ofRoleTypeProto_def RoleTypeImpl_new_def label_scoped_def split: if_splits)
  have types: "ofEntityTypeProto q = Some ty \<Longrightarrow> thing_type_wf ty" "ofRelationTypeProto q = Some ty \<Longrightarrow> thing_type_wf ty"
    "ofAttributeTypeProto q = Some att \<Longrightarrow> thing_type_wf att" for q ty att
    using type_reader_wf [of q] by (auto simp: pred_option_def)
  have inv: "map_sum id (map_option K) r = Inr (Some d) \<longleftrightarrow> (\<exists>x. r = Inr (Some x) \<and> d = K x)"
    for K :: "'z \<Rightarrow> concept" and d and r :: "thrown + 'z option"
    by (cases r) auto
  from assms have "concept_wf c"
    by (auto simp: Concept_of_def inv types role ofThingTypeRootProto_def split: if_splits
        simp del: concept_wf.simps(6-8) value_wf.simps dest: thing_reader_wf value_reader_wf)
  moreover from assms have "c = ValueImpl v \<Longrightarrow> ofValueProto show_msg (proto_get ''value'' p) = Inr (Some v)"
    "c = AttributeImpl a \<Longrightarrow> ofAttributeProto show_msg (proto_get ''attribute'' p) = Inr (Some a)" for v a
    by (auto simp: Concept_of_def inv ofThingTypeRootProto_def split: if_splits)
  ultimately show ?thesis
    using assms(2,3) value_reader_wf(2) attribute_reader_value by blast
qed

theorem concept_reader_wf_witness:
  "let p = PMsg ''Concept'' [(''value'', PMsg ''Value'' [(''date_time'', PNumber (Num 9000000000000000))])] in
   \<exists>c. Concept_of proto_class p = Inr (Some c) \<and> concept_wf c \<and>
     \<not> in_date_range (p_number (proto_get ''date_time'' (proto_get ''value'' p)))"
proof -
  let ?p = "PMsg ''Concept'' [(''value'', PMsg ''Value'' [(''date_time'', PNumber (Num 9000000000000000))])]"
  let ?v = "\<lparr>val_valueType = ValueType_DATETIME, val_value = JDate NaN\<rparr>"
  have "Concept_of proto_class ?p = Inr (Some (ValueImpl ?v))"
    by (simp add: Concept_of_def has_field_def ofValueProto_def)
  moreover from concept_reader_wf [OF this] have "concept_wf (ValueImpl ?v)"
    "\<not> in_date_range (p_number (proto_get ''date_time'' (proto_get ''value'' ?p)))"
    by (simp_all add: value_typed_def has_field_def proto_get_def)
  ultimately show ?thesis unfolding Let_def by blast
qed

end
