(* ===== verification/Concept_Manager.thy ===== *)
theory Concept_Manager
  imports Concept_Model
begin

text \<open>
  The concept manager of a transaction, \<open>concept/ConceptManagerImpl.ts\<close>, and what the concept, query and
  logic classes share: sending a request on the transaction and unpacking the answer, and turning a stream of
  answer parts into a stream of their elements.
\<close>

section \<open>Requests on a transaction\<close>

text \<open>\<open>res.a.b\<close>, each step of which throws when the message before it is missing.\<close>

definition unpack :: "string \<Rightarrow> string \<Rightarrow> proto \<Rightarrow> thrown + proto" where
  "unpack a b res = res_bind (field a res) (field b)"

text \<open>A repeated field that is not set is the empty array.\<close>

definition part_elements :: "string \<Rightarrow> string \<Rightarrow> proto \<Rightarrow> thrown + proto stream" where
  "part_elements a b part = res_bind (unpack a b part) (\<lambda>xs. Inr (s_array (p_list xs)))"

definition elements_of_parts ::
  "string \<Rightarrow> string \<Rightarrow> (proto \<Rightarrow> thrown + 'a) \<Rightarrow> proto stream \<Rightarrow> 'a stream" where
  "elements_of_parts a b f parts = s_map f (s_flatMap (part_elements a b) parts)"

text \<open>The value a promise is fulfilled with after an answer has been unpacked.\<close>

definition answer :: "(proto \<Rightarrow> thrown + 'a) \<Rightarrow> ('w, proto) drv_io \<Rightarrow> ('w, 'a) drv_io" where
  "answer f m = io_bind m (\<lambda>res. io_lift (f res))"

definition io_ignore :: "('w, 'a) drv_io \<Rightarrow> ('w, unit) drv_io" where
  "io_ignore m = io_bind m (\<lambda>_. io_return ())"

definition map_io :: "('a \<Rightarrow> 'b) \<Rightarrow> ('w, 'a) drv_io \<Rightarrow> ('w, 'b) drv_io" where
  "map_io f m = io_bind m (\<lambda>x. io_return (f x))"

section \<open>Streams of encoded elements\<close>

text \<open>A message nested under the names of a path.\<close>

definition nest :: "string list \<Rightarrow> proto \<Rightarrow> proto" where
  "nest ks m = foldr (\<lambda>k m. PMsg k [(k, m)]) ks m"

lemma nest_simps [simp]:
  "nest [] m = m"
  "field k (nest (k # ks) m) = Inr (nest ks m)"
  "unpack k l (nest (k # l # ks) m) = Inr (nest ks m)"
  by (simp_all add: nest_def field_def unpack_def)

definition encoded_parts :: "('a \<Rightarrow> proto) \<Rightarrow> string list \<Rightarrow> 'a list list \<Rightarrow> proto list" where
  "encoded_parts encode path xss = map (\<lambda>xs. nest path (PList (map encode xs))) xss"

text \<open>
  What a reader of messages promises: from the encoding of an element it makes what a user sees of it. Every stream of parts whose
  parts list encoded elements then delivers the elements of all parts in the order of their arrival.
\<close>

locale message_reader =
  fixes read :: "proto \<Rightarrow> thrown + 'b" and encode :: "'a \<Rightarrow> proto" and wf :: "'a \<Rightarrow> bool" and view :: "'a \<Rightarrow> 'b"
  assumes read_encode: "wf x \<Longrightarrow> read (encode x) = Inr (view x)"
begin

lemma elements_in_order:
  assumes "\<And>xs x. xs \<in> set xss \<Longrightarrow> x \<in> set xs \<Longrightarrow> wf x"
  shows "elements_of_parts a b read (s_array (encoded_parts encode [a, b] xss)) = s_array (map view (concat xss))"
proof -
  have "s_flatMap (part_elements a b) (s_array (encoded_parts encode [a, b] xss)) = s_array (map encode (concat xss))"
    unfolding encoded_parts_def
    by (subst s_flatMap_array [where g = "\<lambda>p. p_list (proto_get b (proto_get a p))"])
      (auto simp: part_elements_def nest_def unpack_def field_def map_concat comp_def)
  then show ?thesis
    using assms
    by (simp add: elements_of_parts_def)
      (subst s_map_array [where g = "\<lambda>p. projr (read p)"],
        auto simp: read_encode intro!: arg_cong [where f = s_array])
qed

lemma unwrapped_elements_in_order:
  assumes "\<And>xs x. xs \<in> set xss \<Longrightarrow> x \<in> set xs \<Longrightarrow> wf x"
  shows "elements_of_parts a b read (s_map (unpack k l) (s_array (encoded_parts encode [k, l, a, b] xss))) =
      s_array (map view (concat xss))"
    and "elements_of_parts a b read (s_map (field k) (s_array (encoded_parts encode [k, a, b] xss))) =
      s_array (map view (concat xss))"
proof -
  have "s_map (unpack k l) (s_array (encoded_parts encode [k, l, a, b] xss)) = s_array (encoded_parts encode [a, b] xss)"
    by (subst s_map_array [where g = "\<lambda>p. proto_get l (proto_get k p)"])
      (auto simp: encoded_parts_def nest_def unpack_def field_def intro!: arg_cong [where f = s_array])
  moreover have "s_map (field k) (s_array (encoded_parts encode [k, a, b] xss)) = s_array (encoded_parts encode [a, b] xss)"
    by (subst s_map_array [where g = "proto_get k"]) (auto simp: encoded_parts_def nest_def field_def intro!: arg_cong [where f = s_array])
  ultimately show
    "elements_of_parts a b read (s_map (unpack k l) (s_array (encoded_parts encode [k, l, a, b] xss))) =
      s_array (map view (concat xss))"
    "elements_of_parts a b read (s_map (field k) (s_array (encoded_parts encode [k, a, b] xss))) =
      s_array (map view (concat xss))"
    using elements_in_order [OF assms] by simp_all
qed

end

interpretation things: message_reader "ofThingProto show_msg" "concept_encoding m" "\<lambda>c. concept_wf c \<and> isThing c" Some
  for show_msg m
  by unfold_locales (simp add: concept_read)

interpretation thing_types: message_reader "ofThingTypeProto show_msg" "concept_encoding m"
  "\<lambda>c. concept_wf c \<and> isThingType c" Some
  for show_msg m
  by unfold_locales (simp add: concept_read)

interpretation concepts: message_reader "Concept_of show_msg" "concept_encoding m" concept_wf Some
  for show_msg m
  by unfold_locales (simp add: concept_read)

interpretation entities: message_reader ofEntityProto "\<lambda>x. snd (concept_alternative (EntityImpl x))"
  "\<lambda>x. concept_wf (EntityImpl x)" Some
  by unfold_locales (rule thing_alternative_read)

interpretation relations: message_reader ofRelationProto "\<lambda>x. snd (concept_alternative (RelationImpl x))"
  "\<lambda>x. concept_wf (RelationImpl x)" Some
  by unfold_locales (rule thing_alternative_read)

interpretation attributes: message_reader "ofAttributeProto show_msg" "\<lambda>x. snd (concept_alternative (AttributeImpl x))"
  "\<lambda>x. concept_wf (AttributeImpl x)" Some
  for show_msg
  by unfold_locales (rule thing_alternative_read)

interpretation role_types: message_reader "\<lambda>p. Inr (ofRoleTypeProto p)" role_type_encoding
  "\<lambda>ty. label_scope (ty_label ty) \<noteq> None" Some
  by unfold_locales (simp add: role_type_read)

section \<open>The concept manager\<close>

definition ConceptManager_execute :: "'w world_env \<Rightarrow> nat \<Rightarrow> proto \<Rightarrow> ('w, proto) drv_io" where
  "ConceptManager_execute we t request = answer (field ''concept_manager_res'') (rpcExecute we t request None)"

text \<open>\<open>if (response.has_x) return of(response.x.y); else return null\<close>.\<close>

definition answer_if_has ::
  "string \<Rightarrow> string \<Rightarrow> (proto \<Rightarrow> thrown + 'a option) \<Rightarrow> proto \<Rightarrow> thrown + 'a option" where
  "answer_if_has x y f response =
     (if response = PUndefined then Inl (type_error (''has_'' @ x))
      else if has_field x response then res_bind (unpack x y response) f
      else Inr None)"

definition getEntityType :: "'w world_env \<Rightarrow> nat \<Rightarrow> string \<Rightarrow> ('w, type_impl option) drv_io" where
  "getEntityType we t label =
     answer (answer_if_has ''get_entity_type_res'' ''entity_type'' (\<lambda>p. Inr (ofEntityTypeProto p)))
       (ConceptManager_execute we t (ConceptManager_getEntityTypeReq label))"

definition getRelationType :: "'w world_env \<Rightarrow> nat \<Rightarrow> string \<Rightarrow> ('w, type_impl option) drv_io" where
  "getRelationType we t label =
     answer (answer_if_has ''get_relation_type_res'' ''relation_type'' (\<lambda>p. Inr (ofRelationTypeProto p)))
       (ConceptManager_execute we t (ConceptManager_getRelationTypeReq label))"

definition getAttributeType :: "'w world_env \<Rightarrow> nat \<Rightarrow> string \<Rightarrow> ('w, attribute_type option) drv_io" where
  "getAttributeType we t label =
     answer (answer_if_has ''get_attribute_type_res'' ''attribute_type'' (\<lambda>p. Inr (ofAttributeTypeProto p)))
       (ConceptManager_execute we t (ConceptManager_getAttributeTypeReq label))"

definition getRootThingType :: "('w, type_impl) drv_io" where
  "getRootThingType = io_return ThingTypeRoot_new"

definition getRootEntityType :: "'w world_env \<Rightarrow> nat \<Rightarrow> ('w, type_impl option) drv_io" where
  "getRootEntityType we t = getEntityType we t ''entity''"

definition getRootRelationType :: "'w world_env \<Rightarrow> nat \<Rightarrow> ('w, type_impl option) drv_io" where
  "getRootRelationType we t = getRelationType we t ''relation''"

definition getRootAttributeType :: "'w world_env \<Rightarrow> nat \<Rightarrow> ('w, attribute_type option) drv_io" where
  "getRootAttributeType we t = getAttributeType we t ''attribute''"

definition getEntity :: "'w world_env \<Rightarrow> nat \<Rightarrow> string \<Rightarrow> ('w, entity option) drv_io" where
  "getEntity we t iid =
     io_bind (io_lift (ConceptManager_getEntityReq iid)) (\<lambda>req.
     answer (answer_if_has ''get_entity_res'' ''entity'' ofEntityProto) (ConceptManager_execute we t req))"

definition getRelation :: "'w world_env \<Rightarrow> nat \<Rightarrow> string \<Rightarrow> ('w, relation_impl option) drv_io" where
  "getRelation we t iid =
     io_bind (io_lift (ConceptManager_getRelationReq iid)) (\<lambda>req.
     answer (answer_if_has ''get_relation_res'' ''relation'' ofRelationProto) (ConceptManager_execute we t req))"

definition getAttribute :: "'w world_env \<Rightarrow> nat \<Rightarrow> string \<Rightarrow> ('w, attribute option) drv_io" where
  "getAttribute we t iid =
     io_bind (io_lift (ConceptManager_getAttributeReq iid)) (\<lambda>req.
     answer (answer_if_has ''get_attribute_res'' ''attribute'' (ofAttributeProto (we_show we)))
       (ConceptManager_execute we t req))"

definition putEntityType :: "'w world_env \<Rightarrow> nat \<Rightarrow> string \<Rightarrow> ('w, type_impl option) drv_io" where
  "putEntityType we t label =
     answer (\<lambda>res. map_sum id ofEntityTypeProto (unpack ''put_entity_type_res'' ''entity_type'' res))
       (ConceptManager_execute we t (ConceptManager_putEntityTypeReq label))"

definition putRelationType :: "'w world_env \<Rightarrow> nat \<Rightarrow> string \<Rightarrow> ('w, type_impl option) drv_io" where
  "putRelationType we t label =
     answer (\<lambda>res. map_sum id ofRelationTypeProto (unpack ''put_relation_type_res'' ''relation_type'' res))
       (ConceptManager_execute we t (ConceptManager_putRelationTypeReq label))"

definition putAttributeType :: "'w world_env \<Rightarrow> nat \<Rightarrow> string \<Rightarrow> value_type \<Rightarrow> ('w, attribute_type option) drv_io" where
  "putAttributeType we t label valueType =
     answer (\<lambda>res. map_sum id ofAttributeTypeProto (unpack ''put_attribute_type_res'' ''attribute_type'' res))
       (ConceptManager_execute we t
          (ConceptManager_putAttributeTypeReq label (Some (value_type_toProto valueType))))"

definition getSchemaExceptions :: "'w world_env \<Rightarrow> nat \<Rightarrow> ('w, thrown list) drv_io" where
  "getSchemaExceptions we t =
     answer
       (\<lambda>res. map_sum id
          (\<lambda>xs. map (\<lambda>x. typedb_driver_error
             (ArgString (p_string (proto_get ''code'' x) @ '' '' @ p_string (proto_get ''message'' x)))) (p_list xs))
          (unpack ''get_schema_exceptions_res'' ''exceptions'' res))
       (ConceptManager_execute we t ConceptManager_getSchemaExceptions)"

end
