(* ===== verification/Type_Operations.thy ===== *)
theory Type_Operations
  imports Concept_Manager
begin

text \<open>
  The operations of types: \<open>concept/type/ThingTypeImpl.ts\<close>, \<open>EntityTypeImpl.ts\<close>, \<open>RelationTypeImpl.ts\<close>,
  \<open>AttributeTypeImpl.ts\<close> and \<open>RoleTypeImpl.ts\<close>. Every operation builds one request from the label of the type,
  sends it on the transaction \<open>t\<close> and reads the answer; \<open>this\<close> is the record of the type, of any class that
  inherits the method. An overloaded parameter is a datatype of the things a caller may pass.
\<close>

section \<open>Overloaded parameters\<close>

text \<open>\<open>if (!transitivity) transitivity = Transitivity.TRANSITIVE\<close>, as it enters a request.\<close>

definition default_transitivity :: "transitivity option \<Rightarrow> transitivity_proto option" where
  "default_transitivity transitivity =
     Some (transitivity_toProto (case transitivity of None \<Rightarrow> TRANSITIVE | Some x \<Rightarrow> x))"

text \<open>The assertion of Node.js.\<close>

definition js_assert :: "bool \<Rightarrow> thrown + unit" where
  "js_assert b =
     (if b then Inr () else Inl (NativeError ''AssertionError'' ''The expression evaluated to a falsy value'' None))"

datatype owns_arg =
    OwnsUndefined
  | OwnsValueType value_type
  | OwnsAnnotations "annotation list"
  | OwnsTransitivity transitivity

text \<open>The arguments of \<open>getOwns\<close>, shifted to the left as each kind is recognised.\<close>

definition getOwns_filters ::
  "owns_arg \<Rightarrow> owns_arg \<Rightarrow> owns_arg \<Rightarrow>
    thrown + (value_type_proto option \<times> proto list \<times> transitivity_proto option)" where
  "getOwns_filters arg1 arg2 arg3 =
     (let (valueType, a, b, c) =
            (case arg1 of
               OwnsValueType v \<Rightarrow> (Some (value_type_toProto v), arg2, arg3, OwnsUndefined)
             | _ \<Rightarrow> (None, arg1, arg2, arg3))
      in
        res_bind
          (case a of
             OwnsAnnotations xs \<Rightarrow>
               res_bind (js_assert (c = OwnsUndefined)) (\<lambda>_. Inr (map Annotation_proto xs, b, OwnsUndefined))
           | _ \<Rightarrow> Inr ([], a, b))
          (\<lambda>(annotations, a, b).
             case a of
               OwnsTransitivity tr \<Rightarrow>
                 res_bind (js_assert (b = OwnsUndefined)) (\<lambda>_.
                 res_bind (js_assert (c = OwnsUndefined)) (\<lambda>_.
                 Inr (valueType, annotations, Some (transitivity_toProto tr))))
             | _ \<Rightarrow> Inr (valueType, annotations, None)))"

datatype set_owns_arg =
    SetOwnsUndefined
  | SetOwnsOverridden attribute_type
  | SetOwnsAnnotations "annotation list"

definition setOwns_arguments ::
  "set_owns_arg \<Rightarrow> annotation list option \<Rightarrow> thrown + (proto option \<times> proto list)" where
  "setOwns_arguments overriddenTypeOrAnnotations maybeAnnotations =
     (case overriddenTypeOrAnnotations of
        SetOwnsUndefined \<Rightarrow> res_bind (js_assert (maybeAnnotations = None)) (\<lambda>_. Inr (None, []))
      | SetOwnsAnnotations xs \<Rightarrow>
          res_bind (js_assert (maybeAnnotations = None)) (\<lambda>_. Inr (None, map Annotation_proto xs))
      | SetOwnsOverridden ty \<Rightarrow>
          Inr (Some (AttributeType_proto ty),
               case maybeAnnotations of None \<Rightarrow> [] | Some xs \<Rightarrow> map Annotation_proto xs))"

datatype subtypes_arg =
    SubtypesUndefined
  | SubtypesValueType value_type
  | SubtypesTransitivity transitivity

definition getSubtypes_filters ::
  "subtypes_arg \<Rightarrow> transitivity option \<Rightarrow> thrown + (transitivity \<times> value_type option)" where
  "getSubtypes_filters valueTypeOrTransitivity maybeTransitivity =
     (case valueTypeOrTransitivity of
        SubtypesUndefined \<Rightarrow> res_bind (js_assert (maybeTransitivity = None)) (\<lambda>_. Inr (TRANSITIVE, None))
      | SubtypesTransitivity tr \<Rightarrow> res_bind (js_assert (maybeTransitivity = None)) (\<lambda>_. Inr (tr, None))
      | SubtypesValueType v \<Rightarrow>
          Inr (case maybeTransitivity of None \<Rightarrow> TRANSITIVE | Some tr \<Rightarrow> tr, Some v))"

datatype owners_arg =
    OwnersUndefined
  | OwnersAnnotations "annotation list"
  | OwnersTransitivity transitivity

definition getOwners_filters ::
  "owners_arg \<Rightarrow> owners_arg \<Rightarrow> thrown + (transitivity_proto option \<times> proto list)" where
  "getOwners_filters annotationsOrTransitivity maybeTransitivity =
     (let (annotations, a, b) =
            (case annotationsOrTransitivity of
               OwnersAnnotations xs \<Rightarrow> (map Annotation_proto xs, maybeTransitivity, OwnersUndefined)
             | _ \<Rightarrow> ([], annotationsOrTransitivity, maybeTransitivity))
      in
        case a of
          OwnersTransitivity tr \<Rightarrow>
            res_bind (js_assert (b = OwnersUndefined)) (\<lambda>_. Inr (Some (transitivity_toProto tr), annotations))
        | _ \<Rightarrow> Inr (None, annotations))"

section \<open>Thing types\<close>

definition ThingType_execute :: "'w world_env \<Rightarrow> nat \<Rightarrow> proto \<Rightarrow> ('w, proto) drv_io" where
  "ThingType_execute we t request =
     answer (unpack ''type_res'' ''thing_type_res'') (rpcExecute we t request (Some False))"

definition ThingType_stream :: "'w world_env \<Rightarrow> nat \<Rightarrow> proto \<Rightarrow> ('w, proto stream) drv_io" where
  "ThingType_stream we t request =
     map_io (s_map (unpack ''type_res_part'' ''thing_type_res_part'')) (rpcStream we t request)"

definition ThingType_delete :: "'w world_env \<Rightarrow> nat \<Rightarrow> 'z type_impl_scheme \<Rightarrow> ('w, unit) drv_io" where
  "ThingType_delete we t this =
     io_ignore (ThingType_execute we t (Type_ThingType_deleteReq (ty_label this)))"

definition ThingType_setLabel ::
  "'w world_env \<Rightarrow> nat \<Rightarrow> 'z type_impl_scheme \<Rightarrow> string \<Rightarrow> ('w, unit) drv_io" where
  "ThingType_setLabel we t this newLabel =
     io_ignore (ThingType_execute we t (Type_ThingType_setLabelReq (ty_label this) newLabel))"

definition ThingType_setAbstract ::
  "'w world_env \<Rightarrow> nat \<Rightarrow> 'z type_impl_scheme \<Rightarrow> ('w, unit) drv_io" where
  "ThingType_setAbstract we t this =
     io_ignore (ThingType_execute we t (Type_ThingType_setAbstractReq (ty_label this)))"

definition ThingType_unsetAbstract ::
  "'w world_env \<Rightarrow> nat \<Rightarrow> 'z type_impl_scheme \<Rightarrow> ('w, unit) drv_io" where
  "ThingType_unsetAbstract we t this =
     io_ignore (ThingType_execute we t (Type_ThingType_unsetAbstractReq (ty_label this)))"

definition ThingType_getOwns ::
  "'w world_env \<Rightarrow> nat \<Rightarrow> 'z type_impl_scheme \<Rightarrow> owns_arg \<Rightarrow> owns_arg \<Rightarrow> owns_arg \<Rightarrow> ('w, attribute_type option stream) drv_io" where
  "ThingType_getOwns we t this arg1 arg2 arg3 =
     io_bind (io_lift (getOwns_filters arg1 arg2 arg3)) (\<lambda>(valueType, annotations, transitivity).
     map_io (elements_of_parts ''thing_type_get_owns_res_part'' ''attribute_types'' (\<lambda>p. Inr (ofAttributeTypeProto p)))
       (ThingType_stream we t (Type_ThingType_getOwnsReq (ty_label this) valueType annotations transitivity)))"

definition ThingType_getOwnsOverridden ::
  "'w world_env \<Rightarrow> nat \<Rightarrow> 'z type_impl_scheme \<Rightarrow> 'y type_impl_scheme \<Rightarrow> ('w, attribute_type option) drv_io" where
  "ThingType_getOwnsOverridden we t this attributeType =
     answer
       (\<lambda>res. res_bind (unpack ''thing_type_get_owns_overridden_res'' ''attribute_type'' res) (\<lambda>p. Inr (ofAttributeTypeProto p)))
       (ThingType_execute we t (Type_ThingType_getOwnsOverriddenReq (ty_label this) (AttributeType_proto attributeType)))"

definition ThingType_setOwns ::
  "'w world_env \<Rightarrow> nat \<Rightarrow> 'z type_impl_scheme \<Rightarrow> 'y type_impl_scheme \<Rightarrow> set_owns_arg \<Rightarrow> annotation list option \<Rightarrow> ('w, unit) drv_io" where
  "ThingType_setOwns we t this attributeType overridden maybeAnnotations =
     io_bind (io_lift (setOwns_arguments overridden maybeAnnotations)) (\<lambda>(overriddenType, annotations).
     io_ignore (ThingType_execute we t
       (Type_ThingType_setOwnsReq (ty_label this) (AttributeType_proto attributeType) overriddenType annotations)))"

definition ThingType_unsetOwns ::
  "'w world_env \<Rightarrow> nat \<Rightarrow> 'z type_impl_scheme \<Rightarrow> 'y type_impl_scheme \<Rightarrow> ('w, unit) drv_io" where
  "ThingType_unsetOwns we t this attributeType =
     io_ignore (ThingType_execute we t (Type_ThingType_unsetOwnsReq (ty_label this) (AttributeType_proto attributeType)))"

definition ThingType_getPlays ::
  "'w world_env \<Rightarrow> nat \<Rightarrow> 'z type_impl_scheme \<Rightarrow> transitivity option \<Rightarrow> ('w, type_impl option stream) drv_io" where
  "ThingType_getPlays we t this transitivity =
     map_io (elements_of_parts ''thing_type_get_plays_res_part'' ''role_types'' (\<lambda>p. Inr (ofRoleTypeProto p)))
       (ThingType_stream we t (Type_ThingType_getPlaysReq (ty_label this) (default_transitivity transitivity)))"

definition ThingType_getPlaysOverridden ::
  "'w world_env \<Rightarrow> nat \<Rightarrow> 'z type_impl_scheme \<Rightarrow> 'y type_impl_scheme \<Rightarrow> ('w, type_impl option) drv_io" where
  "ThingType_getPlaysOverridden we t this role =
     answer
       (\<lambda>res. res_bind (unpack ''thing_type_get_plays_overridden_res'' ''role_type'' res) (\<lambda>p. Inr (ofRoleTypeProto p)))
       (ThingType_execute we t (Type_ThingType_getPlaysOverriddenReq (ty_label this) (RoleType_proto role)))"

definition ThingType_setPlays ::
  "'w world_env \<Rightarrow> nat \<Rightarrow> 'z type_impl_scheme \<Rightarrow> type_impl \<Rightarrow> type_impl option \<Rightarrow> ('w, unit) drv_io" where
  "ThingType_setPlays we t this role overriddenRole =
     io_ignore (ThingType_execute we t (Type_ThingType_setPlaysReq (ty_label this) (RoleType_proto role) (map_option RoleType_proto overriddenRole)))"

definition ThingType_unsetPlays ::
  "'w world_env \<Rightarrow> nat \<Rightarrow> 'z type_impl_scheme \<Rightarrow> 'y type_impl_scheme \<Rightarrow> ('w, unit) drv_io" where
  "ThingType_unsetPlays we t this role =
     io_ignore (ThingType_execute we t (Type_ThingType_unsetPlaysReq (ty_label this) (RoleType_proto role)))"

definition ThingType_getSyntax ::
  "'w world_env \<Rightarrow> nat \<Rightarrow> 'z type_impl_scheme \<Rightarrow> ('w, string) drv_io" where
  "ThingType_getSyntax we t this =
     answer
       (\<lambda>res. res_bind (unpack ''thing_type_get_syntax_res'' ''syntax'' res) (\<lambda>p. Inr (p_string p)))
       (ThingType_execute we t (Type_ThingType_getSyntaxReq (ty_label this)))"

section \<open>Entity types\<close>

definition EntityType_isDeleted ::
  "'w world_env \<Rightarrow> nat \<Rightarrow> 'z type_impl_scheme \<Rightarrow> ('w, bool) drv_io" where
  "EntityType_isDeleted we t this =
     map_io (\<lambda>ty. ty = None) (getEntityType we t (label_name (ty_label this)))"

definition EntityType_create ::
  "'w world_env \<Rightarrow> nat \<Rightarrow> 'z type_impl_scheme \<Rightarrow> ('w, entity option) drv_io" where
  "EntityType_create we t this =
     answer
       (\<lambda>res. res_bind (unpack ''entity_type_create_res'' ''entity'' res) ofEntityProto)
       (ThingType_execute we t (Type_EntityType_createReq (ty_label this)))"

definition EntityType_getSupertype ::
  "'w world_env \<Rightarrow> nat \<Rightarrow> 'z type_impl_scheme \<Rightarrow> ('w, type_impl option) drv_io" where
  "EntityType_getSupertype we t this =
     answer
       (\<lambda>res. res_bind (unpack ''entity_type_get_supertype_res'' ''entity_type'' res) (\<lambda>p. Inr (ofEntityTypeProto p)))
       (ThingType_execute we t (Type_EntityType_getSupertypeReq (ty_label this)))"

definition EntityType_setSupertype ::
  "'w world_env \<Rightarrow> nat \<Rightarrow> 'z type_impl_scheme \<Rightarrow> 'y type_impl_scheme \<Rightarrow> ('w, unit) drv_io" where
  "EntityType_setSupertype we t this superType =
     io_ignore (ThingType_execute we t (Type_EntityType_setSupertypeReq (ty_label this) (EntityType_proto superType)))"

definition EntityType_getSupertypes ::
  "'w world_env \<Rightarrow> nat \<Rightarrow> 'z type_impl_scheme \<Rightarrow> ('w, type_impl option stream) drv_io" where
  "EntityType_getSupertypes we t this =
     map_io (elements_of_parts ''entity_type_get_supertypes_res_part'' ''entity_types'' (\<lambda>p. Inr (ofEntityTypeProto p)))
       (ThingType_stream we t (Type_EntityType_getSupertypesReq (ty_label this)))"

definition EntityType_getSubtypes ::
  "'w world_env \<Rightarrow> nat \<Rightarrow> 'z type_impl_scheme \<Rightarrow> transitivity option \<Rightarrow> ('w, type_impl option stream) drv_io" where
  "EntityType_getSubtypes we t this transitivity =
     map_io (elements_of_parts ''entity_type_get_subtypes_res_part'' ''entity_types'' (\<lambda>p. Inr (ofEntityTypeProto p)))
       (ThingType_stream we t (Type_EntityType_getSubtypesReq (ty_label this) (default_transitivity transitivity)))"

definition EntityType_getInstances ::
  "'w world_env \<Rightarrow> nat \<Rightarrow> 'z type_impl_scheme \<Rightarrow> transitivity option \<Rightarrow> ('w, entity option stream) drv_io" where
  "EntityType_getInstances we t this transitivity =
     map_io (elements_of_parts ''entity_type_get_instances_res_part'' ''entities'' ofEntityProto)
       (ThingType_stream we t (Type_EntityType_getInstancesReq (ty_label this) (default_transitivity transitivity)))"

section \<open>Relation types\<close>

definition RelationType_isDeleted ::
  "'w world_env \<Rightarrow> nat \<Rightarrow> 'z type_impl_scheme \<Rightarrow> ('w, bool) drv_io" where
  "RelationType_isDeleted we t this =
     map_io (\<lambda>ty. ty = None) (getRelationType we t (label_name (ty_label this)))"

definition RelationType_create ::
  "'w world_env \<Rightarrow> nat \<Rightarrow> 'z type_impl_scheme \<Rightarrow> ('w, relation_impl option) drv_io" where
  "RelationType_create we t this =
     answer
       (\<lambda>res. res_bind (unpack ''relation_type_create_res'' ''relation'' res) ofRelationProto)
       (ThingType_execute we t (Type_RelationType_createReq (ty_label this)))"

definition RelationType_getSupertype ::
  "'w world_env \<Rightarrow> nat \<Rightarrow> 'z type_impl_scheme \<Rightarrow> ('w, type_impl option) drv_io" where
  "RelationType_getSupertype we t this =
     answer
       (\<lambda>res. res_bind (unpack ''relation_type_get_supertype_res'' ''relation_type'' res) (\<lambda>p. Inr (ofRelationTypeProto p)))
       (ThingType_execute we t (Type_RelationType_getSupertypeReq (ty_label this)))"

definition RelationType_setSupertype ::
  "'w world_env \<Rightarrow> nat \<Rightarrow> 'z type_impl_scheme \<Rightarrow> 'y type_impl_scheme \<Rightarrow> ('w, unit) drv_io" where
  "RelationType_setSupertype we t this superType =
     io_ignore (ThingType_execute we t (Type_RelationType_setSupertypeReq (ty_label this) (RelationType_proto superType)))"

definition RelationType_getSupertypes ::
  "'w world_env \<Rightarrow> nat \<Rightarrow> 'z type_impl_scheme \<Rightarrow> ('w, type_impl option stream) drv_io" where
  "RelationType_getSupertypes we t this =
     map_io (elements_of_parts ''relation_type_get_supertypes_res_part'' ''relation_types'' (\<lambda>p. Inr (ofRelationTypeProto p)))
       (ThingType_stream we t (Type_RelationType_getSupertypesReq (ty_label this)))"

definition RelationType_getSubtypes ::
  "'w world_env \<Rightarrow> nat \<Rightarrow> 'z type_impl_scheme \<Rightarrow> transitivity option \<Rightarrow> ('w, type_impl option stream) drv_io" where
  "RelationType_getSubtypes we t this transitivity =
     map_io (elements_of_parts ''relation_type_get_subtypes_res_part'' ''relation_types'' (\<lambda>p. Inr (ofRelationTypeProto p)))
       (ThingType_stream we t (Type_RelationType_getSubtypesReq (ty_label this) (default_transitivity transitivity)))"

definition RelationType_getInstances ::
  "'w world_env \<Rightarrow> nat \<Rightarrow> 'z type_impl_scheme \<Rightarrow> transitivity option \<Rightarrow> ('w, relation_impl option stream) drv_io" where
  "RelationType_getInstances we t this transitivity =
     map_io (elements_of_parts ''relation_type_get_instances_res_part'' ''relations'' ofRelationProto)
       (ThingType_stream we t (Type_RelationType_getInstancesReq (ty_label this) (default_transitivity transitivity)))"

definition RelationType_getRelates ::
  "'w world_env \<Rightarrow> nat \<Rightarrow> 'z type_impl_scheme \<Rightarrow> transitivity option \<Rightarrow> ('w, type_impl option stream) drv_io" where
  "RelationType_getRelates we t this transitivity =
     map_io (elements_of_parts ''relation_type_get_relates_res_part'' ''role_types'' (\<lambda>p. Inr (ofRoleTypeProto p)))
       (ThingType_stream we t (Type_RelationType_getRelatesReq (ty_label this) (default_transitivity transitivity)))"

definition RelationType_getRelatesForRoleLabel ::
  "'w world_env \<Rightarrow> nat \<Rightarrow> 'z type_impl_scheme \<Rightarrow> string \<Rightarrow> ('w, type_impl option) drv_io" where
  "RelationType_getRelatesForRoleLabel we t this roleLabel =
     answer
       (\<lambda>res. res_bind (unpack ''relation_type_get_relates_for_role_label_res'' ''role_type'' res) (\<lambda>p. Inr (ofRoleTypeProto p)))
       (ThingType_execute we t (Type_RelationType_getRelatesForRoleLabel (ty_label this) roleLabel))"

definition RelationType_getRelatesOverridden ::
  "'w world_env \<Rightarrow> nat \<Rightarrow> 'z type_impl_scheme \<Rightarrow> string \<Rightarrow> ('w, type_impl option) drv_io" where
  "RelationType_getRelatesOverridden we t this roleLabel =
     answer
       (\<lambda>res. res_bind (unpack ''relation_type_get_relates_overridden_res'' ''role_type'' res) (\<lambda>p. Inr (ofRoleTypeProto p)))
       (ThingType_execute we t (Type_RelationType_getRelatesOverriddenReq (ty_label this) roleLabel))"

definition RelationType_setRelates ::
  "'w world_env \<Rightarrow> nat \<Rightarrow> 'z type_impl_scheme \<Rightarrow> string \<Rightarrow> string option \<Rightarrow> ('w, unit) drv_io" where
  "RelationType_setRelates we t this roleLabel overriddenLabel =
     io_ignore (ThingType_execute we t (Type_RelationType_setRelatesReq (ty_label this) roleLabel overriddenLabel))"

definition RelationType_unsetRelates ::
  "'w world_env \<Rightarrow> nat \<Rightarrow> 'z type_impl_scheme \<Rightarrow> string \<Rightarrow> ('w, unit) drv_io" where
  "RelationType_unsetRelates we t this roleLabel =
     io_ignore (ThingType_execute we t (Type_RelationType_unsetRelatesReq (ty_label this) roleLabel))"

section \<open>Attribute types\<close>

definition AttributeType_isDeleted ::
  "'w world_env \<Rightarrow> nat \<Rightarrow> 'z type_impl_scheme \<Rightarrow> ('w, bool) drv_io" where
  "AttributeType_isDeleted we t this =
     map_io (\<lambda>ty. ty = None) (getAttributeType we t (label_name (ty_label this)))"

definition AttributeType_getSupertype ::
  "'w world_env \<Rightarrow> nat \<Rightarrow> 'z type_impl_scheme \<Rightarrow> ('w, attribute_type option) drv_io" where
  "AttributeType_getSupertype we t this =
     answer
       (\<lambda>res. res_bind (unpack ''attribute_type_get_supertype_res'' ''attribute_type'' res) (\<lambda>p. Inr (ofAttributeTypeProto p)))
       (ThingType_execute we t (Type_AttributeType_getSupertypeReq (ty_label this)))"

definition AttributeType_setSupertype ::
  "'w world_env \<Rightarrow> nat \<Rightarrow> 'z type_impl_scheme \<Rightarrow> 'y type_impl_scheme \<Rightarrow> ('w, unit) drv_io" where
  "AttributeType_setSupertype we t this superType =
     io_ignore (ThingType_execute we t (Type_AttributeType_setSupertypeReq (ty_label this) (AttributeType_proto superType)))"

definition AttributeType_getSupertypes ::
  "'w world_env \<Rightarrow> nat \<Rightarrow> 'z type_impl_scheme \<Rightarrow> ('w, attribute_type option stream) drv_io" where
  "AttributeType_getSupertypes we t this =
     map_io (elements_of_parts ''attribute_type_get_supertypes_res_part'' ''attribute_types'' (\<lambda>p. Inr (ofAttributeTypeProto p)))
       (ThingType_stream we t (Type_AttributeType_getSupertypesReq (ty_label this)))"

definition AttributeType_getInstances ::
  "'w world_env \<Rightarrow> nat \<Rightarrow> 'z type_impl_scheme \<Rightarrow> transitivity option \<Rightarrow> ('w, attribute option stream) drv_io" where
  "AttributeType_getInstances we t this transitivity =
     map_io (elements_of_parts ''attribute_type_get_instances_res_part'' ''attributes'' (ofAttributeProto (we_show we)))
       (ThingType_stream we t (Type_AttributeType_getInstancesReq (ty_label this) (default_transitivity transitivity)))"

definition AttributeType_put ::
  "'w world_env \<Rightarrow> nat \<Rightarrow> 'z type_impl_scheme \<Rightarrow> value_impl \<Rightarrow> ('w, attribute option) drv_io" where
  "AttributeType_put we t this value =
     io_bind (io_lift (Value_proto value)) (\<lambda>v.
     answer (\<lambda>res. res_bind (unpack ''attribute_type_put_res'' ''attribute'' res) (ofAttributeProto (we_show we)))
       (ThingType_execute we t (Type_AttributeType_putReq (ty_label this) v)))"

definition AttributeType_putBoolean ::
  "'w world_env \<Rightarrow> nat \<Rightarrow> 'z type_impl_scheme \<Rightarrow> bool \<Rightarrow> ('w, attribute option) drv_io" where
  "AttributeType_putBoolean we t this value =
     AttributeType_put we t this \<lparr>val_valueType = ValueType_BOOLEAN, val_value = JBoolean value\<rparr>"

definition AttributeType_putLong ::
  "'w world_env \<Rightarrow> nat \<Rightarrow> 'z type_impl_scheme \<Rightarrow> js_number \<Rightarrow> ('w, attribute option) drv_io" where
  "AttributeType_putLong we t this value =
     AttributeType_put we t this \<lparr>val_valueType = ValueType_LONG, val_value = JNumber value\<rparr>"

definition AttributeType_putDouble ::
  "'w world_env \<Rightarrow> nat \<Rightarrow> 'z type_impl_scheme \<Rightarrow> js_number \<Rightarrow> ('w, attribute option) drv_io" where
  "AttributeType_putDouble we t this value =
     AttributeType_put we t this \<lparr>val_valueType = ValueType_DOUBLE, val_value = JNumber value\<rparr>"

definition AttributeType_putString ::
  "'w world_env \<Rightarrow> nat \<Rightarrow> 'z type_impl_scheme \<Rightarrow> string \<Rightarrow> ('w, attribute option) drv_io" where
  "AttributeType_putString we t this value =
     AttributeType_put we t this \<lparr>val_valueType = ValueType_STRING, val_value = JString value\<rparr>"

definition AttributeType_putDateTime ::
  "'w world_env \<Rightarrow> nat \<Rightarrow> 'z type_impl_scheme \<Rightarrow> js_number \<Rightarrow> ('w, attribute option) drv_io" where
  "AttributeType_putDateTime we t this value =
     AttributeType_put we t this \<lparr>val_valueType = ValueType_DATETIME, val_value = JDate value\<rparr>"

definition AttributeType_get ::
  "'w world_env \<Rightarrow> nat \<Rightarrow> 'z type_impl_scheme \<Rightarrow> value_impl \<Rightarrow> ('w, attribute option) drv_io" where
  "AttributeType_get we t this value =
     io_bind (io_lift (Value_proto value)) (\<lambda>v.
     answer (\<lambda>res. res_bind (unpack ''attribute_type_get_res'' ''attribute'' res) (ofAttributeProto (we_show we)))
       (ThingType_execute we t (Type_AttributeType_getReq (ty_label this) v)))"

definition AttributeType_getBoolean ::
  "'w world_env \<Rightarrow> nat \<Rightarrow> 'z type_impl_scheme \<Rightarrow> bool \<Rightarrow> ('w, attribute option) drv_io" where
  "AttributeType_getBoolean we t this value =
     AttributeType_get we t this \<lparr>val_valueType = ValueType_BOOLEAN, val_value = JBoolean value\<rparr>"

definition AttributeType_getLong ::
  "'w world_env \<Rightarrow> nat \<Rightarrow> 'z type_impl_scheme \<Rightarrow> js_number \<Rightarrow> ('w, attribute option) drv_io" where
  "AttributeType_getLong we t this value =
     AttributeType_get we t this \<lparr>val_valueType = ValueType_LONG, val_value = JNumber value\<rparr>"

definition AttributeType_getDouble ::
  "'w world_env \<Rightarrow> nat \<Rightarrow> 'z type_impl_scheme \<Rightarrow> js_number \<Rightarrow> ('w, attribute option) drv_io" where
  "AttributeType_getDouble we t this value =
     AttributeType_get we t this \<lparr>val_valueType = ValueType_DOUBLE, val_value = JNumber value\<rparr>"

definition AttributeType_getString ::
  "'w world_env \<Rightarrow> nat \<Rightarrow> 'z type_impl_scheme \<Rightarrow> string \<Rightarrow> ('w, attribute option) drv_io" where
  "AttributeType_getString we t this value =
     AttributeType_get we t this \<lparr>val_valueType = ValueType_STRING, val_value = JString value\<rparr>"

definition AttributeType_getDateTime ::
  "'w world_env \<Rightarrow> nat \<Rightarrow> 'z type_impl_scheme \<Rightarrow> js_number \<Rightarrow> ('w, attribute option) drv_io" where
  "AttributeType_getDateTime we t this value =
     AttributeType_get we t this \<lparr>val_valueType = ValueType_DATETIME, val_value = JDate value\<rparr>"

definition AttributeType_getSubtypes ::
  "'w world_env \<Rightarrow> nat \<Rightarrow> 'z type_impl_scheme \<Rightarrow> subtypes_arg \<Rightarrow> transitivity option \<Rightarrow> ('w, attribute_type option stream) drv_io" where
  "AttributeType_getSubtypes we t this arg1 maybeTransitivity =
     io_bind (io_lift (getSubtypes_filters arg1 maybeTransitivity)) (\<lambda>(transitivity, valueType).
     map_io (elements_of_parts ''attribute_type_get_subtypes_res_part'' ''attribute_types'' (\<lambda>p. Inr (ofAttributeTypeProto p)))
       (ThingType_stream we t
          (Type_AttributeType_getSubtypesReq (ty_label this) (Some (transitivity_toProto transitivity))
             (map_option value_type_toProto valueType))))"

definition AttributeType_getOwners ::
  "'w world_env \<Rightarrow> nat \<Rightarrow> 'z type_impl_scheme \<Rightarrow> owners_arg \<Rightarrow> owners_arg \<Rightarrow> ('w, concept option stream) drv_io" where
  "AttributeType_getOwners we t this arg1 arg2 =
     io_bind (io_lift (getOwners_filters arg1 arg2)) (\<lambda>(transitivity, annotations).
     map_io (elements_of_parts ''attribute_type_get_owners_res_part'' ''thing_types'' (ofThingTypeProto (we_show we)))
       (ThingType_stream we t (Type_AttributeType_getOwnersReq (ty_label this) transitivity annotations)))"

definition AttributeType_getRegex ::
  "'w world_env \<Rightarrow> nat \<Rightarrow> 'z type_impl_scheme \<Rightarrow> ('w, string) drv_io" where
  "AttributeType_getRegex we t this =
     answer
       (\<lambda>res. res_bind (unpack ''attribute_type_get_regex_res'' ''regex'' res) (\<lambda>p. Inr (p_string p)))
       (ThingType_execute we t (Type_AttributeType_getRegexReq (ty_label this)))"

definition AttributeType_setRegex ::
  "'w world_env \<Rightarrow> nat \<Rightarrow> 'z type_impl_scheme \<Rightarrow> string \<Rightarrow> ('w, unit) drv_io" where
  "AttributeType_setRegex we t this regex =
     io_ignore (ThingType_execute we t (Type_AttributeType_setRegexReq (ty_label this) regex))"

definition AttributeType_unsetRegex ::
  "'w world_env \<Rightarrow> nat \<Rightarrow> 'z type_impl_scheme \<Rightarrow> ('w, unit) drv_io" where
  "AttributeType_unsetRegex we t this = AttributeType_setRegex we t this []"

section \<open>Role types\<close>

definition RoleType_execute :: "'w world_env \<Rightarrow> nat \<Rightarrow> proto \<Rightarrow> ('w, proto) drv_io" where
  "RoleType_execute we t request =
     answer (unpack ''type_res'' ''role_type_res'') (rpcExecute we t request (Some False))"

definition RoleType_stream :: "'w world_env \<Rightarrow> nat \<Rightarrow> proto \<Rightarrow> ('w, proto stream) drv_io" where
  "RoleType_stream we t request =
     map_io (s_map (unpack ''type_res_part'' ''role_type_res_part'')) (rpcStream we t request)"

definition RoleType_delete :: "'w world_env \<Rightarrow> nat \<Rightarrow> 'z type_impl_scheme \<Rightarrow> ('w, unit) drv_io" where
  "RoleType_delete we t this =
     io_ignore (RoleType_execute we t (Type_RoleType_deleteReq (ty_label this)))"

text \<open>The label of a role type has the scope its constructor was given.\<close>

definition RoleType_getRelationType ::
  "'w world_env \<Rightarrow> nat \<Rightarrow> 'z type_impl_scheme \<Rightarrow> ('w, type_impl option) drv_io" where
  "RoleType_getRelationType we t this =
     getRelationType we t (case label_scope (ty_label this) of None \<Rightarrow> [] | Some scope \<Rightarrow> scope)"

definition RoleType_isDeleted :: "'w world_env \<Rightarrow> nat \<Rightarrow> 'z type_impl_scheme \<Rightarrow> ('w, bool) drv_io" where
  "RoleType_isDeleted we t this =
     io_bind (RoleType_getRelationType we t this) (\<lambda>relationType.
     case relationType of
       None \<Rightarrow> io_return True
     | Some ty \<Rightarrow>
         map_io (\<lambda>role. role = None) (RelationType_getRelatesForRoleLabel we t ty (label_name (ty_label this))))"

definition RoleType_setLabel ::
  "'w world_env \<Rightarrow> nat \<Rightarrow> 'z type_impl_scheme \<Rightarrow> string \<Rightarrow> ('w, unit) drv_io" where
  "RoleType_setLabel we t this newLabel =
     io_ignore (RoleType_execute we t (Type_RoleType_setLabelReq (ty_label this) newLabel))"

definition RoleType_getSupertype ::
  "'w world_env \<Rightarrow> nat \<Rightarrow> 'z type_impl_scheme \<Rightarrow> ('w, type_impl option) drv_io" where
  "RoleType_getSupertype we t this =
     answer
       (\<lambda>res. res_bind (unpack ''role_type_get_supertype_res'' ''role_type'' res) (\<lambda>p. Inr (ofRoleTypeProto p)))
       (RoleType_execute we t (Type_RoleType_getSupertypeReq (ty_label this)))"

definition RoleType_getSupertypes ::
  "'w world_env \<Rightarrow> nat \<Rightarrow> 'z type_impl_scheme \<Rightarrow> ('w, type_impl option stream) drv_io" where
  "RoleType_getSupertypes we t this =
     map_io (elements_of_parts ''role_type_get_supertypes_res_part'' ''role_types'' (\<lambda>p. Inr (ofRoleTypeProto p)))
       (RoleType_stream we t (Type_RoleType_getSupertypesReq (ty_label this)))"

definition RoleType_getSubtypes ::
  "'w world_env \<Rightarrow> nat \<Rightarrow> 'z type_impl_scheme \<Rightarrow> transitivity option \<Rightarrow> ('w, type_impl option stream) drv_io" where
  "RoleType_getSubtypes we t this transitivity =
     map_io (elements_of_parts ''role_type_get_subtypes_res_part'' ''role_types'' (\<lambda>p. Inr (ofRoleTypeProto p)))
       (RoleType_stream we t (Type_RoleType_getSubtypesReq (ty_label this) (default_transitivity transitivity)))"

definition RoleType_getRelationTypes ::
  "'w world_env \<Rightarrow> nat \<Rightarrow> 'z type_impl_scheme \<Rightarrow> ('w, type_impl option stream) drv_io" where
  "RoleType_getRelationTypes we t this =
     map_io (elements_of_parts ''role_type_get_relation_types_res_part'' ''relation_types'' (\<lambda>p. Inr (ofRelationTypeProto p)))
       (RoleType_stream we t (Type_RoleType_getRelationTypesReq (ty_label this)))"

definition RoleType_getPlayerTypes ::
  "'w world_env \<Rightarrow> nat \<Rightarrow> 'z type_impl_scheme \<Rightarrow> transitivity option \<Rightarrow> ('w, concept option stream) drv_io" where
  "RoleType_getPlayerTypes we t this transitivity =
     map_io (elements_of_parts ''role_type_get_player_types_res_part'' ''thing_types'' (ofThingTypeProto (we_show we)))
       (RoleType_stream we t (Type_RoleType_getPlayerTypesReq (ty_label this) (default_transitivity transitivity)))"

definition RoleType_getRelationInstances ::
  "'w world_env \<Rightarrow> nat \<Rightarrow> 'z type_impl_scheme \<Rightarrow> transitivity option \<Rightarrow> ('w, relation_impl option stream) drv_io" where
  "RoleType_getRelationInstances we t this transitivity =
     map_io (elements_of_parts ''role_type_get_relation_instances_res_part'' ''relations'' ofRelationProto)
       (RoleType_stream we t (Type_RoleType_getRelationInstancesReq (ty_label this) (default_transitivity transitivity)))"

definition RoleType_getPlayerInstances ::
  "'w world_env \<Rightarrow> nat \<Rightarrow> 'z type_impl_scheme \<Rightarrow> transitivity option \<Rightarrow> ('w, concept option stream) drv_io" where
  "RoleType_getPlayerInstances we t this transitivity =
     map_io (elements_of_parts ''role_type_get_player_instances_res_part'' ''things'' (ofThingProto (we_show we)))
       (RoleType_stream we t (Type_RoleType_getPlayerInstancesReq (ty_label this) (default_transitivity transitivity)))"

section \<open>The root type\<close>

text \<open>
  \<open>getSubtypes\<close> and \<open>getInstances\<close> of the root ask for the three root types at once and then open one stream after the other,
  as the result is consumed. They are modelled together with the consumer \<open>collect\<close>: \<open>None\<close> is a promise that is never
  settled. \<open>attempt\<close> makes a promise without awaiting it.
\<close>

definition attempt :: "('w, 'a) drv_io \<Rightarrow> ('w, thrown + 'a) drv_io" where
  "attempt m s = (case m s of (r, s') \<Rightarrow> (Inr r, s'))"

definition root_types :: "'w world_env \<Rightarrow> nat \<Rightarrow> ('w, concept option stream) drv_io" where
  "root_types we t =
     io_bind (attempt (map_io (map_option EntityTypeImpl) (getRootEntityType we t))) (\<lambda>p1.
     io_bind (attempt (map_io (map_option RelationTypeImpl) (getRootRelationType we t))) (\<lambda>p2.
     io_bind (attempt (map_io (map_option AttributeTypeImpl) (getRootAttributeType we t))) (\<lambda>p3.
     io_return (s_promises [p1, p2, p3]))))"

text \<open>\<open>s.flatMap(f).collect()\<close> for a callback that sends requests.\<close>

fun flatMap_collect ::
  "('a \<Rightarrow> ('w, 'b stream) drv_io) \<Rightarrow> 'b list \<Rightarrow> 'a stream \<Rightarrow> ('w, 'b list option) drv_io" where
  "flatMap_collect f answers (SNext x s) =
     io_bind (f x) (\<lambda>inner.
     case s_collect inner of
       None \<Rightarrow> io_return None
     | Some (Inl e) \<Rightarrow> io_throw e
     | Some (Inr ys) \<Rightarrow> flatMap_collect f (answers @ ys) s)"
| "flatMap_collect f answers SEnd = io_return (Some answers)"
| "flatMap_collect f answers (SThrow e) = io_throw e"
| "flatMap_collect f answers SPending = io_return None"

text \<open>The method of a thing type that is one of the three root types, which may be \<open>null\<close>.\<close>

fun thing_type_getSubtypes ::
  "'w world_env \<Rightarrow> nat \<Rightarrow> transitivity \<Rightarrow> concept option \<Rightarrow> ('w, concept option stream) drv_io" where
  "thing_type_getSubtypes we t tr (Some (EntityTypeImpl ty)) =
     map_io (s_map (\<lambda>x. Inr (map_option EntityTypeImpl x))) (EntityType_getSubtypes we t ty (Some tr))"
| "thing_type_getSubtypes we t tr (Some (RelationTypeImpl ty)) =
     map_io (s_map (\<lambda>x. Inr (map_option RelationTypeImpl x))) (RelationType_getSubtypes we t ty (Some tr))"
| "thing_type_getSubtypes we t tr (Some (AttributeTypeImpl ty)) =
     map_io (s_map (\<lambda>x. Inr (map_option AttributeTypeImpl x)))
       (AttributeType_getSubtypes we t ty (SubtypesTransitivity tr) None)"
| "thing_type_getSubtypes we t tr _ = io_throw (type_error ''getSubtypes'')"

fun thing_type_getInstances ::
  "'w world_env \<Rightarrow> nat \<Rightarrow> transitivity \<Rightarrow> concept option \<Rightarrow> ('w, concept option stream) drv_io" where
  "thing_type_getInstances we t tr (Some (EntityTypeImpl ty)) =
     map_io (s_map (\<lambda>x. Inr (map_option EntityImpl x))) (EntityType_getInstances we t ty (Some tr))"
| "thing_type_getInstances we t tr (Some (RelationTypeImpl ty)) =
     map_io (s_map (\<lambda>x. Inr (map_option RelationImpl x))) (RelationType_getInstances we t ty (Some tr))"
| "thing_type_getInstances we t tr (Some (AttributeTypeImpl ty)) =
     map_io (s_map (\<lambda>x. Inr (map_option AttributeImpl x))) (AttributeType_getInstances we t ty (Some tr))"
| "thing_type_getInstances we t tr _ = io_throw (type_error ''getInstances'')"

definition Root_isDeleted :: "('w, bool) drv_io" where
  "Root_isDeleted = io_return False"

definition Root_getSupertype :: "('w, concept option) drv_io" where
  "Root_getSupertype = io_return None"

definition Root_getSupertypes :: "type_impl \<Rightarrow> concept stream" where
  "Root_getSupertypes this = s_array [ThingTypeRoot this]"

definition Root_getSubtypes_collect ::
  "'w world_env \<Rightarrow> nat \<Rightarrow> transitivity option \<Rightarrow> ('w, concept option list option) drv_io" where
  "Root_getSubtypes_collect we t transitivity =
     (let tr = (case transitivity of None \<Rightarrow> TRANSITIVE | Some x \<Rightarrow> x) in
      io_bind (root_types we t) (\<lambda>roots.
      if tr = EXPLICIT then
        (case s_collect roots of
           None \<Rightarrow> io_return None
         | Some (Inl e) \<Rightarrow> io_throw e
         | Some (Inr xs) \<Rightarrow> io_return (Some xs))
      else flatMap_collect (thing_type_getSubtypes we t tr) [] roots))"

definition Root_getInstances_collect ::
  "'w world_env \<Rightarrow> nat \<Rightarrow> transitivity option \<Rightarrow> ('w, concept option list option) drv_io" where
  "Root_getInstances_collect we t transitivity =
     (let tr = (case transitivity of None \<Rightarrow> TRANSITIVE | Some x \<Rightarrow> x) in
      if tr = EXPLICIT then io_return (Some [])
      else io_bind (root_types we t) (flatMap_collect (thing_type_getInstances we t tr) []))"

section \<open>Lemmas\<close>

text \<open>
  With a callback that sends nothing, the loop is the consumer of the flat-mapped stream.
\<close>

lemma flatMap_collect_pure:
  "flatMap_collect (\<lambda>x. io_lift (f x)) answers s st =
     (case s_collect (s_flatMap f s) of
        None \<Rightarrow> (Inr None, st)
      | Some (Inl e) \<Rightarrow> (Inl e, st)
      | Some (Inr ys) \<Rightarrow> (Inr (Some (answers @ ys)), st))"
  by (induction s arbitrary: answers)
    (auto simp: io_simps s_collect_append split: option.splits sum.splits)

end
