(* ===== verification/Thing_Operations.thy ===== *)
theory Thing_Operations
  imports Type_Operations
begin

text \<open>
  The operations of things: \<open>concept/thing/ThingImpl.ts\<close>, \<open>EntityImpl.ts\<close>, \<open>RelationImpl.ts\<close> and
  \<open>AttributeImpl.ts\<close>. As for types, an operation builds one request from the identifier of the thing, sends it on the transaction and
  reads the answer. \<open>this\<close> is the record of the thing.
\<close>

section \<open>Things\<close>

definition Thing_execute :: "'w world_env \<Rightarrow> nat \<Rightarrow> proto \<Rightarrow> ('w, proto) drv_io" where
  "Thing_execute we t request = answer (field ''thing_res'') (rpcExecute we t request (Some False))"

definition Thing_stream :: "'w world_env \<Rightarrow> nat \<Rightarrow> proto \<Rightarrow> ('w, proto stream) drv_io" where
  "Thing_stream we t request = map_io (s_map (field ''thing_res_part'')) (rpcStream we t request)"

definition Thing_delete :: "'w world_env \<Rightarrow> nat \<Rightarrow> 'z thing_impl_scheme \<Rightarrow> ('w, unit) drv_io" where
  "Thing_delete we t this =
     io_bind (io_lift (Thing_deleteReq (th_iid this))) (\<lambda>request. io_ignore (Thing_execute we t request))"

text \<open>
  The overloads of \<open>getHas\<close>. An array is taken for annotations when its first element is not an attribute type; the empty array counts as
  attribute types.
\<close>

datatype has_arg =
    HasUndefined
  | HasAttributeType attribute_type
  | HasAttributeTypes "attribute_type list"
  | HasAnnotations "annotation list"

definition getHas_filters ::
  "has_arg \<Rightarrow> annotation list option \<Rightarrow> thrown + (proto list \<times> proto list)" where
  "getHas_filters annotationOrAttrTypeOrAttrTypes maybeAnnotations =
     (let annotations = (\<lambda>m. case m of None \<Rightarrow> [] | Some xs \<Rightarrow> map Annotation_proto xs) in
      case annotationOrAttrTypeOrAttrTypes of
        HasUndefined \<Rightarrow>
          res_bind (js_assert (maybeAnnotations = None)) (\<lambda>_. Inr ([], annotations maybeAnnotations))
      | HasAttributeTypes tys \<Rightarrow> Inr (map AttributeType_proto tys, annotations maybeAnnotations)
      | HasAnnotations [] \<Rightarrow> Inr ([], annotations maybeAnnotations)
      | HasAnnotations (x # xs) \<Rightarrow>
          res_bind (js_assert (maybeAnnotations = None)) (\<lambda>_. Inr ([], annotations (Some (x # xs))))
      | HasAttributeType ty \<Rightarrow>
          res_bind (js_assert (maybeAnnotations = None)) (\<lambda>_.
          Inr ([AttributeType_proto ty], annotations maybeAnnotations)))"

definition Thing_getHas ::
  "'w world_env \<Rightarrow> nat \<Rightarrow> 'z thing_impl_scheme \<Rightarrow> has_arg \<Rightarrow> annotation list option \<Rightarrow>
    ('w, attribute option stream) drv_io" where
  "Thing_getHas we t this arg1 maybeAnnotations =
     io_bind (io_lift (getHas_filters arg1 maybeAnnotations)) (\<lambda>(attributeTypes, annotations).
     io_bind (io_lift (Thing_getHasReq (th_iid this) attributeTypes annotations)) (\<lambda>request.
     map_io (elements_of_parts ''thing_get_has_res_part'' ''attributes'' (ofAttributeProto (we_show we)))
       (Thing_stream we t request)))"

definition Thing_setHas ::
  "'w world_env \<Rightarrow> nat \<Rightarrow> 'z thing_impl_scheme \<Rightarrow> 'y thing_impl_scheme \<Rightarrow> ('w, unit) drv_io" where
  "Thing_setHas we t this attribute =
     io_bind (io_lift (res_bind (Attribute_proto attribute) (Thing_setHasReq (th_iid this)))) (\<lambda>request.
     io_ignore (Thing_execute we t request))"

definition Thing_unsetHas ::
  "'w world_env \<Rightarrow> nat \<Rightarrow> 'z thing_impl_scheme \<Rightarrow> 'y thing_impl_scheme \<Rightarrow> ('w, unit) drv_io" where
  "Thing_unsetHas we t this attribute =
     io_bind (io_lift (res_bind (Attribute_proto attribute) (Thing_unsetHasReq (th_iid this)))) (\<lambda>request.
     io_ignore (Thing_execute we t request))"

definition Thing_getPlaying ::
  "'w world_env \<Rightarrow> nat \<Rightarrow> 'z thing_impl_scheme \<Rightarrow> ('w, type_impl option stream) drv_io" where
  "Thing_getPlaying we t this =
     io_bind (io_lift (Thing_getPlayingReq (th_iid this))) (\<lambda>request.
     map_io (elements_of_parts ''thing_get_playing_res_part'' ''role_types'' (\<lambda>p. Inr (ofRoleTypeProto p)))
       (Thing_stream we t request))"

definition Thing_getRelations ::
  "'w world_env \<Rightarrow> nat \<Rightarrow> 'z thing_impl_scheme \<Rightarrow> type_impl list option \<Rightarrow> ('w, relation_impl option stream) drv_io" where
  "Thing_getRelations we t this roleTypes =
     io_bind (io_lift (Thing_getRelationsReq (th_iid this)
       (map RoleType_proto (case roleTypes of None \<Rightarrow> [] | Some xs \<Rightarrow> xs)))) (\<lambda>request.
     map_io (elements_of_parts ''thing_get_relations_res_part'' ''relations'' ofRelationProto)
       (Thing_stream we t request))"

section \<open>Entities\<close>

definition Entity_isDeleted :: "'w world_env \<Rightarrow> nat \<Rightarrow> 'z thing_impl_scheme \<Rightarrow> ('w, bool) drv_io" where
  "Entity_isDeleted we t this = map_io (\<lambda>x. x = None) (getEntity we t (th_iid this))"

section \<open>Relations\<close>

definition Relation_isDeleted :: "'w world_env \<Rightarrow> nat \<Rightarrow> 'z thing_impl_scheme \<Rightarrow> ('w, bool) drv_io" where
  "Relation_isDeleted we t this = map_io (\<lambda>x. x = None) (getRelation we t (th_iid this))"

definition Relation_addRolePlayer ::
  "'w world_env \<Rightarrow> nat \<Rightarrow> 'z thing_impl_scheme \<Rightarrow> type_impl \<Rightarrow> concept \<Rightarrow> ('w, unit) drv_io" where
  "Relation_addRolePlayer we t this roleType player =
     io_bind (io_lift (res_bind (Thing_proto player)
       (Thing_Relation_addRolePlayerReq (th_iid this) (RoleType_proto roleType)))) (\<lambda>request.
     io_ignore (Thing_execute we t request))"

definition Relation_removeRolePlayer ::
  "'w world_env \<Rightarrow> nat \<Rightarrow> 'z thing_impl_scheme \<Rightarrow> type_impl \<Rightarrow> concept \<Rightarrow> ('w, unit) drv_io" where
  "Relation_removeRolePlayer we t this roleType player =
     io_bind (io_lift (res_bind (Thing_proto player)
       (Thing_Relation_removeRolePlayerReq (th_iid this) (RoleType_proto roleType)))) (\<lambda>request.
     io_ignore (Thing_execute we t request))"

definition Relation_getPlayersByRoleType ::
  "'w world_env \<Rightarrow> nat \<Rightarrow> 'z thing_impl_scheme \<Rightarrow> type_impl list option \<Rightarrow> ('w, concept option stream) drv_io" where
  "Relation_getPlayersByRoleType we t this roleTypes =
     io_bind (io_lift (Thing_Relation_getPlayersByRoleTypeReq (th_iid this)
       (map RoleType_proto (case roleTypes of None \<Rightarrow> [] | Some xs \<Rightarrow> xs)))) (\<lambda>request.
     map_io
       (elements_of_parts ''relation_get_players_by_role_type_res_part'' ''things'' (ofThingProto (we_show we)))
       (Thing_stream we t request))"

text \<open>
  The map of role players. Its keys are role type objects, which a JavaScript \<open>Map\<close> compares by identity; \<open>findRole\<close> looks for a key with the
  same scoped name, and reads the label of a key that is \<open>null\<close> in vain. A key that is not found is a new
  object, so setting it appends.
\<close>

type_synonym role_players = "(type_impl option \<times> concept option list) list"

fun findRole :: "role_players \<Rightarrow> type_impl option \<Rightarrow> thrown + nat option" where
  "findRole [] role = Inr None"
| "findRole ((None, _) # m) role = Inl (type_error ''label'')"
| "findRole ((Some roleType, _) # m) None = Inl (type_error ''label'')"
| "findRole ((Some roleType, _) # m) (Some role) =
     (if scopedName (ty_label roleType) = scopedName (ty_label role) then Inr (Some 0)
      else map_sum id (map_option Suc) (findRole m (Some role)))"

definition push_player :: "nat \<Rightarrow> concept option \<Rightarrow> role_players \<Rightarrow> role_players" where
  "push_player i player m = m[i := (fst (m ! i), snd (m ! i) @ [player])]"

definition add_role_player ::
  "(proto \<Rightarrow> string) \<Rightarrow> proto \<Rightarrow> role_players \<Rightarrow> (thrown + unit) \<times> role_players" where
  "add_role_player show_msg item m =
     (let role = ofRoleTypeProto (proto_get ''role_type'' item) in
      case ofThingProto show_msg (proto_get ''player'' item) of
        Inl e \<Rightarrow> (Inl e, m)
      | Inr player \<Rightarrow>
          (case findRole m role of
             Inl e \<Rightarrow> (Inl e, m)
           | Inr None \<Rightarrow> (Inr (), push_player (length m) player (m @ [(role, [])]))
           | Inr (Some i) \<Rightarrow> (Inr (), push_player i player m)))"

text \<open>\<open>None\<close> is a promise that is never settled, because the stream stops delivering.\<close>

definition Relation_getRolePlayers ::
  "'w world_env \<Rightarrow> nat \<Rightarrow> 'z thing_impl_scheme \<Rightarrow> ('w, role_players option) drv_io" where
  "Relation_getRolePlayers we t this =
     io_bind (io_lift (Thing_Relation_getRolePlayersReq (th_iid this))) (\<lambda>request.
     io_bind (Thing_stream we t request) (\<lambda>parts.
     case s_forEach (add_role_player (we_show we))
            (s_flatMap (part_elements ''relation_get_role_players_res_part'' ''role_players'') parts) [] of
       (None, _) \<Rightarrow> io_return None
     | (Some (Inl e), _) \<Rightarrow> io_throw e
     | (Some (Inr _), m) \<Rightarrow> io_return (Some m)))"

definition Relation_getRelating ::
  "'w world_env \<Rightarrow> nat \<Rightarrow> 'z thing_impl_scheme \<Rightarrow> ('w, type_impl option stream) drv_io" where
  "Relation_getRelating we t this =
     io_bind (io_lift (Thing_Relation_getRelatingReq (th_iid this))) (\<lambda>request.
     map_io (elements_of_parts ''relation_get_relating_res_part'' ''role_types'' (\<lambda>p. Inr (ofRoleTypeProto p)))
       (Thing_stream we t request))"

section \<open>Attributes\<close>

definition Attribute_valueType :: "attribute \<Rightarrow> thrown + value_type option" where
  "Attribute_valueType this =
     (case at_type this of None \<Rightarrow> Inl (type_error ''valueType'') | Some ty \<Rightarrow> Inr (at_valueType ty))"

definition Attribute_value :: "attribute \<Rightarrow> thrown + js_value" where
  "Attribute_value this =
     (case at_value this of None \<Rightarrow> Inl (type_error ''value'') | Some v \<Rightarrow> Inr (val_value v))"

definition Attribute_isDeleted :: "'w world_env \<Rightarrow> nat \<Rightarrow> 'z thing_impl_scheme \<Rightarrow> ('w, bool) drv_io" where
  "Attribute_isDeleted we t this = map_io (\<lambda>x. x = None) (getAttribute we t (th_iid this))"

definition Attribute_getOwners ::
  "'w world_env \<Rightarrow> nat \<Rightarrow> 'z thing_impl_scheme \<Rightarrow> concept option \<Rightarrow> ('w, concept option stream) drv_io" where
  "Attribute_getOwners we t this ownerType =
     io_bind
       (io_lift
          (case ownerType of
             None \<Rightarrow> Thing_Attribute_getOwnersReq (th_iid this) None
           | Some ty \<Rightarrow> res_bind (ThingType_proto ty) (\<lambda>p. Thing_Attribute_getOwnersReq (th_iid this) (Some p))))
       (\<lambda>request.
          map_io (elements_of_parts ''attribute_get_owners_res_part'' ''things'' (ofThingProto (we_show we)))
            (Thing_stream we t request))"

section \<open>Grouping role players\<close>

text \<open>
  The specification of the grouping: the roles in the order of their first players, each with its players in the
  order of arrival. Roles are told apart by their scoped names.
\<close>

abbreviation role_name :: "type_impl \<Rightarrow> string" where
  "role_name r \<equiv> scopedName (ty_label r)"

definition add_role :: "type_impl \<Rightarrow> type_impl list \<Rightarrow> type_impl list" where
  "add_role r rs = (if role_name r \<in> role_name ` set rs then rs else rs @ [r])"

definition first_roles :: "(type_impl \<times> concept) list \<Rightarrow> type_impl list" where
  "first_roles ps = fold add_role (map fst ps) []"

definition players_of :: "(type_impl \<times> concept) list \<Rightarrow> type_impl \<Rightarrow> concept option list" where
  "players_of ps r = map (\<lambda>p. Some (snd p)) (filter (\<lambda>p. role_name (fst p) = role_name r) ps)"

definition grouped :: "(type_impl \<times> concept) list \<Rightarrow> role_players" where
  "grouped ps = map (\<lambda>r. (Some r, players_of ps r)) (first_roles ps)"

definition role_player_item :: "type_impl \<times> concept \<Rightarrow> proto" where
  "role_player_item p =
     PMsg ''RelationRolePlayer''
       [(''role_type'', role_type_encoding (fst p)), (''player'', concept_encoding ''Thing'' (snd p))]"

definition role_player_wf :: "type_impl \<times> concept \<Rightarrow> bool" where
  "role_player_wf p \<longleftrightarrow> label_scope (ty_label (fst p)) \<noteq> None \<and> concept_wf (snd p) \<and> isThing (snd p)"

lemma first_roles_snoc: "first_roles (ps @ [(r, c)]) = add_role r (first_roles ps)"
  by (simp add: first_roles_def)

lemma first_roles_names: "role_name ` set (first_roles ps) = role_name ` fst ` set ps"
proof (induction ps rule: rev_induct)
  case (snoc p ps)
  obtain r c where "p = (r, c)" by fastforce
  with snoc show ?case by (auto simp: first_roles_snoc add_role_def)
qed (simp add: first_roles_def)

lemma first_roles_distinct: "distinct (map role_name (first_roles ps))"
proof (induction ps rule: rev_induct)
  case (snoc p ps)
  obtain r c where "p = (r, c)" by fastforce
  with snoc show ?case by (auto simp: first_roles_snoc add_role_def)
qed (simp add: first_roles_def)

lemma takeWhile_stops: "x \<in> set xs \<Longrightarrow> \<not> P x \<Longrightarrow> length (takeWhile P xs) < length xs"
  by (induction xs) auto

lemma findRole_keys:
  "findRole (map (\<lambda>r. (Some r, g r)) rs) (Some role) =
     Inr (if role_name role \<in> role_name ` set rs
          then Some (length (takeWhile (\<lambda>r. role_name r \<noteq> role_name role) rs)) else None)"
  by (induction rs) auto

lemma players_of_snoc:
  "players_of (ps @ [(r, c)]) q = players_of ps q @ (if role_name r = role_name q then [Some c] else [])"
  by (simp add: players_of_def)

lemma add_role_player_grouped:
  assumes "role_player_wf (r, c)"
  shows "add_role_player show_msg (role_player_item (r, c)) (grouped ps) = (Inr (), grouped (ps @ [(r, c)]))"
proof (cases "role_name r \<in> role_name ` set (first_roles ps)")
  case False
  then have "players_of ps r = []"
    unfolding first_roles_names by (auto simp: players_of_def filter_empty_conv image_image image_iff)
  moreover have "\<forall>q \<in> set (first_roles ps). role_name r \<noteq> role_name q" using False by force
  ultimately show ?thesis
    using assms False
    by (simp add: add_role_player_def role_player_item_def role_player_wf_def role_type_read concept_read(2) findRole_keys
        grouped_def first_roles_snoc add_role_def push_player_def nth_append players_of_snoc
        Let_def list_update_append)
next
  case True
  define rs where "rs = first_roles ps"
  define i where "i = length (takeWhile (\<lambda>q. role_name q \<noteq> role_name r) rs)"
  from True obtain q where "q \<in> set rs" "role_name q = role_name r" by (force simp: rs_def)
  then have "i < length rs" unfolding i_def by (intro takeWhile_stops [where x = q]) auto
  with nth_length_takeWhile [of "\<lambda>q. role_name q \<noteq> role_name r" rs]
  have i: "i < length rs" "role_name (rs ! i) = role_name r" by (auto simp: i_def)
  have unique: "j = i" if "j < length rs" "role_name (rs ! j) = role_name r" for j
    using that i first_roles_distinct [of ps] nth_eq_iff_index_eq [of "map role_name rs" j i]
    by (simp add: rs_def)
  have "push_player i (Some c) (grouped ps) ! j = (Some (rs ! j), players_of (ps @ [(r, c)]) (rs ! j))"
    if "j < length rs" for j
  proof (cases "j = i")
    case True
    with i show ?thesis by (simp add: push_player_def grouped_def players_of_snoc flip: rs_def)
  next
    case False
    then have "role_name r \<noteq> role_name (rs ! j)" using unique [OF that] by metis
    with False that i show ?thesis by (simp add: push_player_def grouped_def players_of_snoc flip: rs_def)
  qed
  then have "push_player i (Some c) (grouped ps) = map (\<lambda>q. (Some q, players_of (ps @ [(r, c)]) q)) rs"
    by (intro nth_equalityI) (simp_all add: push_player_def grouped_def rs_def)
  then have "push_player i (Some c) (grouped ps) = grouped (ps @ [(r, c)])"
    using True by (simp add: grouped_def [of "ps @ _"] first_roles_snoc add_role_def rs_def)
  moreover have "findRole (grouped ps) (Some r) = Inr (Some i)"
    using True by (simp add: grouped_def findRole_keys i_def rs_def)
  ultimately show ?thesis
    using assms by (simp add: add_role_player_def role_player_item_def role_player_wf_def role_type_read concept_read(2))
qed

lemma forEach_grouped:
  assumes "\<And>p. p \<in> set qs \<Longrightarrow> role_player_wf p"
  shows "s_forEach (add_role_player show_msg) (s_array (map role_player_item qs)) (grouped ps) =
           (Some (Inr ()), grouped (ps @ qs))"
  using assms
proof (induction qs arbitrary: ps)
  case (Cons q qs)
  obtain r c where "q = (r, c)" by fastforce
  with Cons add_role_player_grouped [of r c show_msg ps] Cons.IH [of "ps @ [q]"] show ?case by simp
qed simp

section \<open>Properties\<close>

text \<open>
  C19. Collecting the players of a relation loses and confuses nothing: when the server streams the role players of a
  relation in any number of parts, the map has one entry per role, told apart by scoped name, in the order in which the
  roles first appear, and each entry lists the players of that role in the order of their arrival.
\<close>

theorem role_players_grouped:
  assumes "tx_isOpen (dr_transaction s t)"
    and "Thing_Relation_getRolePlayersReq (th_iid this) = Inr request"
    and "we_stream we (tx_address (dr_transaction s t)) request (net_world s) =
      (s_array (encoded_parts role_player_item
         [''thing_res_part'', ''relation_get_role_players_res_part'', ''role_players''] pss), w)"
    and "\<forall>p \<in> set (concat pss). role_player_wf p"
  shows "Relation_getRolePlayers we t this s = (Inr (Some (grouped (concat pss))), s\<lparr>net_world := w\<rparr>) \<and>
    distinct (map role_name (first_roles (concat pss)))"
proof -
  let ?path = "[''relation_get_role_players_res_part'', ''role_players'']"
  have "s_map (field ''thing_res_part'') (s_array (encoded_parts role_player_item (''thing_res_part'' # ?path) pss)) =
      s_array (encoded_parts role_player_item ?path pss)"
    by (subst s_map_array [where g = "proto_get ''thing_res_part''"])
      (auto simp: encoded_parts_def nest_def field_def intro!: arg_cong [where f = s_array])
  moreover have "s_flatMap (part_elements (?path ! 0) (?path ! 1)) (s_array (encoded_parts role_player_item ?path pss)) =
      s_array (map role_player_item (concat pss))"
    by (subst s_flatMap_array [where g = "\<lambda>p. p_list (proto_get (?path ! 1) (proto_get (?path ! 0) p))"])
      (auto simp: encoded_parts_def part_elements_def nest_def unpack_def field_def map_concat comp_def)
  moreover have "s_forEach (add_role_player (we_show we)) (s_array (map role_player_item (concat pss))) [] =
      (Some (Inr ()), grouped (concat pss))"
    using forEach_grouped [of "concat pss" "we_show we" "[]"] assms(4) by (simp add: grouped_def first_roles_def)
  ultimately show ?thesis
    using assms(1-3) first_roles_distinct
    by (simp add: Relation_getRolePlayers_def Thing_stream_def map_io_def rpcStream_def io_simps)
qed

definition demo_thing :: "byte list \<Rightarrow> concept" where
  "demo_thing iid = EntityImpl \<lparr>th_iid = bytesToHexString iid, th_inferred = False, en_type = None\<rparr>"

definition demo_role :: "string \<Rightarrow> type_impl" where
  "demo_role name = RoleTypeImpl_new ''marriage'' name False False"

definition demo_players :: "(type_impl \<times> concept) list list" where
  "demo_players =
     [[(demo_role ''wife'', demo_thing [1]), (demo_role ''witness'', demo_thing [2])],
      [(demo_role ''wife'', demo_thing [3])]]"

definition demo_concept_env :: "proto stream \<Rightarrow> nat world_env" where
  "demo_concept_env parts = demo_world_env\<lparr>we_stream := (\<lambda>a req w. (parts, w + 1))\<rparr>"

lemma demo_thing_wf: "concept_wf (demo_thing iid)" "isThing (demo_thing iid)"
  by (simp_all add: demo_thing_def iid_wf_def)

theorem role_players_grouped_witness:
  "fst (Relation_getRolePlayers
     (demo_concept_env (s_array (encoded_parts role_player_item
        [''thing_res_part'', ''relation_get_role_players_res_part'', ''role_players''] demo_players)))
     0 \<lparr>th_iid = bytesToHexString [9], th_inferred = False\<rparr> demo_driver) =
   Inr (Some [(Some (demo_role ''wife''), [Some (demo_thing [1]), Some (demo_thing [3])]),
              (Some (demo_role ''witness''), [Some (demo_thing [2])])])"
proof -
  let ?env = "demo_concept_env (s_array (encoded_parts role_player_item
    [''thing_res_part'', ''relation_get_role_players_res_part'', ''role_players''] demo_players))"
  let ?rel = "\<lparr>th_iid = bytesToHexString [9], th_inferred = False\<rparr>"
  have wf: "\<forall>p \<in> set (concat demo_players). role_player_wf p"
    by (simp add: demo_players_def role_player_wf_def demo_thing_wf demo_role_def RoleTypeImpl_new_def label_scoped_def)
  have is_open: "tx_isOpen (dr_transaction demo_driver 0)" by (simp add: demo_driver_def)
  have request: "Thing_Relation_getRolePlayersReq (th_iid ?rel) = Inr (Thing_thingReq (PMsg ''ThingReq''
      [(''iid'', PBytes [9]), (''relation_get_role_players_req'', PMsg ''RelationGetRolePlayersReq'' [])]))"
    by (simp add: Thing_Relation_getRolePlayersReq_def)
  have "grouped (concat demo_players) =
      [(Some (demo_role ''wife''), [Some (demo_thing [1]), Some (demo_thing [3])]),
       (Some (demo_role ''witness''), [Some (demo_thing [2])])]"
    by (simp add: grouped_def first_roles_def add_role_def players_of_def demo_players_def demo_role_def
        RoleTypeImpl_new_def label_scoped_def scopedName_def)
  with role_players_grouped [OF is_open request _ wf, of ?env "Suc (net_world demo_driver)"] show ?thesis
    by (simp add: demo_concept_env_def)
qed

text \<open>
  C30. An identifier that comes from the server goes back unchanged: a thing read from an answer, of any class, passed
  to a request is a message of its class that carries the bytes of the identifier in the answer, and an attribute passed as such
  likewise.
\<close>

theorem thing_reference_roundtrip:
  assumes "ofThingProto show_msg p = Inr (Some c)"
  shows "\<exists>k. k \<in> {''entity'', ''relation'', ''attribute''} \<and>
    (let iid = proto_get ''iid'' (proto_get k p) in
     \<exists>cls. Thing_proto c = Inr (PMsg ''Thing'' [(k, PMsg cls [(''iid'', PBytes (p_bytes iid))])]) \<and>
       (k = ''attribute'' \<longrightarrow>
          map_sum id th_iid (asThing c) = Inr (bytesToHexString (p_bytes iid)) \<and>
          res_bind (asAttribute c) Attribute_proto = Inr (PMsg cls [(''iid'', PBytes (p_bytes iid))])))"
proof -
  note defs = Thing_proto_def Thing_protoThingEntity_def Thing_Entity_protoEntity_def Thing_protoThingRelation_def
    Thing_Relation_protoRelation_def Thing_protoThingAttribute_def Thing_Attribute_protoAttribute_def
    Attribute_proto_def thing_impl.defs entity.defs relation_impl.defs attribute.defs
  have "\<exists>k \<in> {''entity'', ''relation'', ''attribute''}. \<exists>cls.
      Thing_proto c = Inr (PMsg ''Thing'' [(k, PMsg cls [(''iid'', PBytes (p_bytes (proto_get ''iid'' (proto_get k p))))])]) \<and>
      (k = ''attribute'' \<longrightarrow>
        map_sum id th_iid (asThing c) = Inr (bytesToHexString (p_bytes (proto_get ''iid'' (proto_get k p)))) \<and>
        res_bind (asAttribute c) Attribute_proto = Inr (PMsg cls [(''iid'', PBytes (p_bytes (proto_get ''iid'' (proto_get k p))))]))"
  proof (cases "has_field ''entity'' p")
    case True
    with assms show ?thesis
      by (auto simp: ofThingProto_def ofEntityProto_def ThingImpl_new_def defs split: if_splits)
  next
    case no_entity: False
    show ?thesis
    proof (cases "has_field ''relation'' p")
      case True
      with assms no_entity show ?thesis
        by (auto simp: ofThingProto_def ofRelationProto_def ThingImpl_new_def defs split: if_splits)
    next
      case False
      with assms no_entity show ?thesis
        by (auto simp: ofThingProto_def ofAttributeProto_def ThingImpl_new_def defs res_bind_def
            split: if_splits sum.splits)
    qed
  qed
  then show ?thesis by (auto simp: Let_def)
qed

theorem thing_reference_roundtrip_witness:
  "\<exists>k cls. Thing_proto (demo_thing [1, 255]) = Inr (PMsg ''Thing'' [(k, PMsg cls [(''iid'', PBytes (p_bytes (proto_get ''iid''
     (proto_get k (concept_encoding ''Thing'' (demo_thing [1, 255]))))))])])"
proof -
  have "ofThingProto proto_class (concept_encoding ''Thing'' (demo_thing [1, 255])) = Inr (Some (demo_thing [1, 255]))"
    using concept_read(2) [OF demo_thing_wf(1)] demo_thing_wf(2) by simp
  from thing_reference_roundtrip [OF this] show ?thesis by (auto simp: Let_def)
qed

text \<open>The argument lists of the documented overloads.\<close>

definition owns_overload :: "value_type option \<Rightarrow> annotation list option \<Rightarrow> transitivity option \<Rightarrow> owns_arg list" where
  "owns_overload v as tr =
     (case v of None \<Rightarrow> [] | Some x \<Rightarrow> [OwnsValueType x]) @ (case as of None \<Rightarrow> [] | Some xs \<Rightarrow> [OwnsAnnotations xs]) @
     (case tr of None \<Rightarrow> [] | Some x \<Rightarrow> [OwnsTransitivity x]) @ replicate 3 OwnsUndefined"

definition owners_overload :: "annotation list option \<Rightarrow> transitivity option \<Rightarrow> owners_arg list" where
  "owners_overload as tr =
     (case as of None \<Rightarrow> [] | Some xs \<Rightarrow> [OwnersAnnotations xs]) @
     (case tr of None \<Rightarrow> [] | Some x \<Rightarrow> [OwnersTransitivity x]) @ replicate 2 OwnersUndefined"

abbreviation annotations_or_none :: "annotation list option \<Rightarrow> proto list" where
  "annotations_or_none as \<equiv> map Annotation_proto (case as of None \<Rightarrow> [] | Some xs \<Rightarrow> xs)"

text \<open>
  C31. Every declared overload resolves to the filters it names: whichever of the optional arguments of \<open>getOwns\<close>, \<open>getHas\<close> (with
  no type, one type or a list of types), \<open>setOwns\<close>, and \<open>getOwners\<close> and \<open>getSubtypes\<close> of an attribute type a caller passes, in the declared order, the
  request gets exactly those, and the defaults for the others. One attribute type together with annotations, which is not declared but is the
  example in the documentation of \<open>getHas\<close>, throws.
\<close>

theorem overloads_resolved:
  "getOwns_filters (owns_overload v as tr ! 0) (owns_overload v as tr ! 1) (owns_overload v as tr ! 2) =
     Inr (map_option value_type_toProto v, annotations_or_none as, map_option transitivity_toProto tr) \<and>
   getOwners_filters (owners_overload as tr ! 0) (owners_overload as tr ! 1) =
     Inr (map_option transitivity_toProto tr, annotations_or_none as) \<and>
   getSubtypes_filters
       (case v of Some x \<Rightarrow> SubtypesValueType x
        | None \<Rightarrow> (case tr of None \<Rightarrow> SubtypesUndefined | Some x \<Rightarrow> SubtypesTransitivity x))
       (if v = None then None else tr) =
     Inr (case tr of None \<Rightarrow> TRANSITIVE | Some x \<Rightarrow> x, v) \<and>
   setOwns_arguments
       (case over of Some ty \<Rightarrow> SetOwnsOverridden ty
        | None \<Rightarrow> (case as of None \<Rightarrow> SetOwnsUndefined | Some xs \<Rightarrow> SetOwnsAnnotations xs))
       (if over = None then None else as) =
     Inr (map_option AttributeType_proto over, annotations_or_none as) \<and>
   getHas_filters
       (case tys of Some x \<Rightarrow> HasAttributeTypes x
        | None \<Rightarrow> (case as of None \<Rightarrow> HasUndefined | Some xs \<Rightarrow> HasAnnotations xs))
       (if tys = None then None else as) =
     Inr (map AttributeType_proto (case tys of None \<Rightarrow> [] | Some x \<Rightarrow> x), annotations_or_none as) \<and>
   getHas_filters (HasAttributeType ty) None = Inr ([AttributeType_proto ty], []) \<and>
   (\<exists>e. getHas_filters (HasAttributeType ty) (Some xs) = Inl e)"
proof -
  note defs = getOwns_filters_def owns_overload_def getOwners_filters_def owners_overload_def getSubtypes_filters_def
    setOwns_arguments_def getHas_filters_def js_assert_def Let_def
  show ?thesis
  proof (intro conjI)
    show "getOwns_filters (owns_overload v as tr ! 0) (owns_overload v as tr ! 1) (owns_overload v as tr ! 2) =
        Inr (map_option value_type_toProto v, annotations_or_none as, map_option transitivity_toProto tr)"
      by (cases v; cases as; cases tr) (simp_all add: defs numeral_2_eq_2 numeral_3_eq_3)
    show "getOwners_filters (owners_overload as tr ! 0) (owners_overload as tr ! 1) =
        Inr (map_option transitivity_toProto tr, annotations_or_none as)"
      by (cases as; cases tr) (simp_all add: defs numeral_2_eq_2)
  qed (cases v; cases as; cases tr; cases over; cases tys; simp add: defs split: list.split; fail)+
qed

text \<open>
  C39. The documented filter of an attribute's owners by type cannot be used: whatever thing type is passed, the call throws an
  illegal state error and no request is sent, because the type is asked whether it is an entity, a relation or an attribute.
\<close>

theorem owners_by_type_always_fails:
  assumes "isThingType ownerType"
  shows "Attribute_getOwners we t this (Some ownerType) s = (Inl (throw_message ILLEGAL_STATE []), s)"
  using assms by (cases ownerType) (simp_all add: Attribute_getOwners_def ThingType_proto_def io_simps)

theorem owners_by_type_always_fails_witness:
  "fst (Attribute_getOwners demo_world_env 0 demo_attribute (Some (EntityTypeImpl (ThingTypeImpl_new ''person'' False False)))
     demo_driver) = Inl (throw_message ILLEGAL_STATE [])"
  using owners_by_type_always_fails [of "EntityTypeImpl (ThingTypeImpl_new ''person'' False False)" demo_world_env 0
      demo_attribute demo_driver] by simp

text \<open>
  Streams of elements arrive whole and in order: when the server answers the request for the players of a role in any number of
  parts, each listing things of any class, the operation gives the things of all parts in the order of their arrival.
\<close>

lemma player_instances_in_order:
  assumes "tx_isOpen (dr_transaction s t)"
    and "we_stream we (tx_address (dr_transaction s t))
        (Type_RoleType_getPlayerInstancesReq (ty_label this) (default_transitivity tr)) (net_world s) =
      (s_array (encoded_parts (concept_encoding ''Thing'')
         [''type_res_part'', ''role_type_res_part'', ''role_type_get_player_instances_res_part'', ''things''] css), w)"
    and "\<forall>c \<in> set (concat css). concept_wf c \<and> isThing c"
  shows "RoleType_getPlayerInstances we t this tr s =
    (Inr (s_array (map Some (concat css))), s\<lparr>net_world := w\<rparr>)"
proof -
  have "elements_of_parts ''role_type_get_player_instances_res_part'' ''things'' (ofThingProto (we_show we))
      (s_map (unpack ''type_res_part'' ''role_type_res_part'')
        (s_array (encoded_parts (concept_encoding ''Thing'')
           [''type_res_part'', ''role_type_res_part'', ''role_type_get_player_instances_res_part'', ''things''] css))) =
      s_array (map Some (concat css))"
    by (rule things.unwrapped_elements_in_order) (use assms(3) in auto)
  with assms(1,2) show ?thesis
    by (simp add: RoleType_getPlayerInstances_def RoleType_stream_def map_io_def rpcStream_def io_simps)
qed

lemma player_instances_in_order_example:
  "fst (RoleType_getPlayerInstances
     (demo_concept_env (s_array (encoded_parts (concept_encoding ''Thing'')
        [''type_res_part'', ''role_type_res_part'', ''role_type_get_player_instances_res_part'', ''things'']
        [[demo_thing [1]], [demo_thing [2]]]))) 0 (demo_role ''wife'') None demo_driver) =
   Inr (s_array [Some (demo_thing [1]), Some (demo_thing [2])])"
proof -
  have is_open: "tx_isOpen (dr_transaction demo_driver 0)" by (simp add: demo_driver_def)
  have wf: "\<forall>c \<in> set (concat [[demo_thing [1]], [demo_thing [2]]]). concept_wf c \<and> isThing c"
    by (simp add: demo_thing_wf)
  show ?thesis
    by (subst player_instances_in_order [OF is_open _ wf, where w = "Suc (net_world demo_driver)"])
      (simp_all add: demo_concept_env_def)
qed

end
