(* ===== verification/Answer_Model.thy ===== *)
theory Answer_Model
  imports Thing_Operations "HOL-Library.Multiset"
begin

text \<open>
  The answers of queries: concept maps with their explainables (\<open>concept/answer/ConceptMapImpl.ts\<close>), groups
  (\<open>ConceptMapGroupImpl.ts\<close>, \<open>ValueGroupImpl.ts\<close>) and the trees of fetch queries that are rendered as JSON
  (\<open>ReadableConceptTreeImpl.ts\<close>). A map field of a message is the list of its entries in the order in which
  the generated code iterates over it.
\<close>

definition p_map :: "proto \<Rightarrow> (string \<times> proto) list" where
  "p_map p = map (\<lambda>e. (p_string (proto_get ''key'' e), proto_get ''value'' e)) (p_list p)"

section \<open>Concept maps\<close>

record explainable =
  ex_conjunction :: string
  ex_id :: js_number

record explainables =
  ex_relations :: "(string, explainable) jmap"
  ex_attributes :: "(string, explainable) jmap"
  ex_ownerships :: "((string \<times> string) \<times> explainable) list"

record concept_map =
  cm_concepts :: "(string, concept option) jmap"
  cm_explainables :: explainables

definition ofExplainable :: "proto \<Rightarrow> explainable" where
  "ofExplainable p =
     \<lparr>ex_conjunction = p_string (proto_get ''conjunction'' p), ex_id = p_number (proto_get ''id'' p)\<rparr>"

text \<open>
  The second loop also fills the map of relations. The keys of the map of ownerships are new arrays, so setting a key appends.
\<close>

definition ofExplainables :: "proto \<Rightarrow> explainables" where
  "ofExplainables p =
     (let relations = fold (\<lambda>(var, e). jmap_set var (ofExplainable e)) (p_map (proto_get ''relations'' p)) [];
          relations = fold (\<lambda>(var, e). jmap_set var (ofExplainable e)) (p_map (proto_get ''attributes'' p)) relations;
          attributes = [];
          ownerships =
            concat (map (\<lambda>(owner, owned).
              map (\<lambda>(attr, e). ((owner, attr), ofExplainable e)) (p_map (proto_get ''owned'' owned)))
              (p_map (proto_get ''ownerships'' p)))
      in \<lparr>ex_relations = relations, ex_attributes = attributes, ex_ownerships = ownerships\<rparr>)"

definition emptyExplainables :: explainables where
  "emptyExplainables = \<lparr>ex_relations = [], ex_attributes = [], ex_ownerships = []\<rparr>"

definition ConceptMap_of :: "(proto \<Rightarrow> string) \<Rightarrow> proto \<Rightarrow> thrown + concept_map" where
  "ConceptMap_of show_msg p =
     (if p = PUndefined then Inl (type_error ''map'')
      else
        res_bind (map_throw (\<lambda>(var, c). map_sum id (Pair var) (Concept_of show_msg c)) (p_map (proto_get ''map'' p)))
          (\<lambda>entries.
             Inr \<lparr>cm_concepts = jmap_of_entries entries,
                  cm_explainables =
                    (if has_field ''explainables'' p then ofExplainables (proto_get ''explainables'' p)
                     else emptyExplainables)\<rparr>))"

definition cm_variables :: "concept_map \<Rightarrow> string list" where
  "cm_variables m = jmap_keys (cm_concepts m)"

definition cm_values :: "concept_map \<Rightarrow> concept option list" where
  "cm_values m = jmap_values (cm_concepts m)"

definition cm_get :: "concept_map \<Rightarrow> string \<Rightarrow> concept option option" where
  "cm_get m var = jmap_get (cm_concepts m) var"

definition explainables_relation :: "explainables \<Rightarrow> string \<Rightarrow> thrown + explainable" where
  "explainables_relation e var =
     (case jmap_get (ex_relations e) var of
        None \<Rightarrow> Inl (throw_message NONEXISTENT_EXPLAINABLE_CONCEPT [var])
      | Some x \<Rightarrow> Inr x)"

definition explainables_attribute :: "explainables \<Rightarrow> string \<Rightarrow> thrown + explainable" where
  "explainables_attribute e var =
     (case jmap_get (ex_attributes e) var of
        None \<Rightarrow> Inl (throw_message NONEXISTENT_EXPLAINABLE_CONCEPT [var])
      | Some x \<Rightarrow> Inr x)"

definition explainables_ownership :: "explainables \<Rightarrow> string \<Rightarrow> string \<Rightarrow> thrown + explainable" where
  "explainables_ownership e owner attr =
     (case find (\<lambda>entry. fst (fst entry) = owner \<and> snd (fst entry) = attr) (ex_ownerships e) of
        Some entry \<Rightarrow> Inr (snd entry)
      | None \<Rightarrow> Inl (throw_message NONEXISTENT_EXPLAINABLE_OWNERSHIP [owner, attr]))"

section \<open>Groups\<close>

record concept_map_group =
  cg_owner :: "concept option"
  cg_conceptMaps :: "concept_map list"

definition ConceptMapGroup_of :: "(proto \<Rightarrow> string) \<Rightarrow> proto \<Rightarrow> thrown + concept_map_group" where
  "ConceptMapGroup_of show_msg p =
     res_bind (Concept_of show_msg (proto_get ''owner'' p)) (\<lambda>owner.
     res_bind (map_throw (ConceptMap_of show_msg) (p_list (proto_get ''concept_maps'' p))) (\<lambda>maps.
     Inr \<lparr>cg_owner = owner, cg_conceptMaps = maps\<rparr>))"

record value_group =
  vg_owner :: "concept option"
  vg_value :: "value_impl option"

definition ValueGroup_of :: "(proto \<Rightarrow> string) \<Rightarrow> proto \<Rightarrow> thrown + value_group" where
  "ValueGroup_of show_msg p =
     (if has_field ''value'' p then
        res_bind (Concept_of show_msg (proto_get ''owner'' p)) (\<lambda>owner.
        res_bind (ofValueProto show_msg (proto_get ''value'' p)) (\<lambda>v.
        Inr \<lparr>vg_owner = owner, vg_value = v\<rparr>))
      else
        res_bind (Concept_of show_msg (proto_get ''owner'' p)) (\<lambda>owner.
        Inr \<lparr>vg_owner = owner, vg_value = None\<rparr>))"

section \<open>Dates as text\<close>

text \<open>
  \<open>Date.prototype.toISOString\<close>: the proleptic Gregorian date of the time value, in years of 146097 days per four centuries counted from
  March of the year 0.
\<close>

definition civil_from_days :: "int \<Rightarrow> int \<times> int \<times> int" where
  "civil_from_days d =
     (let z = d + 719468;
          era = z div 146097;
          doe = z mod 146097;
          yoe = (doe - doe div 1460 + doe div 36524 - doe div 146096) div 365;
          doy = doe - (365 * yoe + yoe div 4 - yoe div 100);
          mp = (5 * doy + 2) div 153;
          day = doy - (153 * mp + 2) div 5 + 1;
          month = (if mp < 10 then mp + 3 else mp - 9)
      in (yoe + era * 400 + (if month \<le> 2 then 1 else 0), month, day))"

definition zero_padded :: "nat \<Rightarrow> int \<Rightarrow> string" where
  "zero_padded width n = (let ds = string_of_nat (nat n) in replicate (width - length ds) CHR ''0'' @ ds)"

definition iso_year :: "int \<Rightarrow> string" where
  "iso_year y =
     (if 0 \<le> y \<and> y \<le> 9999 then zero_padded 4 y
      else if y < 0 then ''-'' @ zero_padded 6 (- y)
      else ''+'' @ zero_padded 6 y)"

fun toISOString :: "js_number \<Rightarrow> thrown + string" where
  "toISOString (Num q) =
     (let ms = \<lfloor>q\<rfloor>; (y, m, d) = civil_from_days (ms div 86400000); r = ms mod 86400000
      in Inr (iso_year y @ ''-'' @ zero_padded 2 m @ ''-'' @ zero_padded 2 d @ ''T'' @
           zero_padded 2 (r div 3600000) @ '':'' @ zero_padded 2 (r div 60000 mod 60) @ '':'' @
           zero_padded 2 (r div 1000 mod 60) @ ''.'' @ zero_padded 3 (r mod 1000) @ ''Z''))"
| "toISOString _ = Inl (NativeError ''RangeError'' ''Invalid time value'' None)"

section \<open>Trees of readable concepts\<close>

text \<open>
  The JSON values of \<open>api/answer/JSON.ts\<close>; an object is the list of its own properties in the order in which JavaScript enumerates them.
\<close>

datatype json =
    JSNull
  | JSBool bool
  | JSNumber js_number
  | JSString string
  | JSArray "json list"
  | JSObject "(string \<times> json) list"

text \<open>A leaf holds a readable concept, or nothing when the message has no alternative the reader knows.\<close>

datatype node =
    NodeMap "(string \<times> node) list"
  | NodeList "node list"
  | Leaf "concept option option"

definition ReadableConcept_of :: "(proto \<Rightarrow> string) \<Rightarrow> proto \<Rightarrow> thrown + concept option option" where
  "ReadableConcept_of show_msg p =
     (if has_field ''entity_type'' p then
        Inr (Some (map_option EntityTypeImpl (ofEntityTypeProto (proto_get ''entity_type'' p))))
      else if has_field ''relation_type'' p then
        Inr (Some (map_option RelationTypeImpl (ofRelationTypeProto (proto_get ''relation_type'' p))))
      else if has_field ''attribute_type'' p then
        Inr (Some (map_option AttributeTypeImpl (ofAttributeTypeProto (proto_get ''attribute_type'' p))))
      else if has_field ''role_type'' p then
        Inr (Some (map_option RoleTypeImpl (ofRoleTypeProto (proto_get ''role_type'' p))))
      else if has_field ''attribute'' p then
        map_sum id (\<lambda>x. Some (map_option AttributeImpl x)) (ofAttributeProto show_msg (proto_get ''attribute'' p))
      else if has_field ''value'' p then
        map_sum id (\<lambda>x. Some (map_option ValueImpl x)) (ofValueProto show_msg (proto_get ''value'' p))
      else if has_field ''thing_type_root'' p then
        Inr (Some (Some (ThingTypeRoot (ofThingTypeRootProto (proto_get ''thing_type_root'' p)))))
      else Inr None)"

text \<open>The messages of a tree get smaller towards the leaves, so reading it ends.\<close>

lemma proto_get_size: "size (proto_get k p) \<le> size p"
proof (cases p)
  case (PMsg c fs)
  then show ?thesis by (induction fs arbitrary: p) (auto simp: proto_get_def split: option.splits)
qed (auto simp: proto_get_def)

lemma p_list_size: "x \<in> set (p_list p) \<Longrightarrow> size x < size p"
  by (cases p) (auto simp: less_Suc_eq_le size_list_estimation')

lemma p_map_size: "(k, v) \<in> set (p_map p) \<Longrightarrow> size v < size p"
  using p_list_size proto_get_size by (fastforce simp: p_map_def intro: le_less_trans)

function Node_of :: "(proto \<Rightarrow> string) \<Rightarrow> proto \<Rightarrow> thrown + node" where
  "Node_of show_msg p =
     (if has_field ''map'' p then
        res_bind
          (map_throw (\<lambda>(label, node). map_sum id (Pair label) (Node_of show_msg node))
             (p_map (proto_get ''map'' (proto_get ''map'' p))))
          (\<lambda>entries. Inr (NodeMap (jmap_of_entries entries)))
      else if has_field ''list'' p then
        map_sum id NodeList (map_throw (Node_of show_msg) (p_list (proto_get ''list'' (proto_get ''list'' p))))
      else if has_field ''readable_concept'' p then
        map_sum id Leaf (ReadableConcept_of show_msg (proto_get ''readable_concept'' p))
      else Inl (throw_message ILLEGAL_STATE []))"
  by pat_completeness auto
termination
  by (relation "measure (\<lambda>(_, p). size p)")
    (auto dest!: p_map_size p_list_size elim!: less_le_trans intro!: proto_get_size [THEN order_trans])

declare Node_of.simps [simp del]

definition NodeMap_of :: "(proto \<Rightarrow> string) \<Rightarrow> proto \<Rightarrow> thrown + node" where
  "NodeMap_of show_msg p =
     (if p = PUndefined then Inl (type_error ''map'')
      else
        res_bind
          (map_throw (\<lambda>(label, node). map_sum id (Pair label) (Node_of show_msg node)) (p_map (proto_get ''map'' p)))
          (\<lambda>entries. Inr (NodeMap (jmap_of_entries entries))))"

definition ReadableConceptTree_of :: "(proto \<Rightarrow> string) \<Rightarrow> proto \<Rightarrow> thrown + node" where
  "ReadableConceptTree_of show_msg p = res_bind (field ''root'' p) (NodeMap_of show_msg)"

text \<open>
  \<open>object[key] = value\<close>. An object enumerates the keys that are array indices, the decimal numbers below 4294967295, first and in ascending order, and
  the other keys in the order in which they were set; and setting \<open>__proto__\<close> sets the prototype and makes no property.
\<close>

definition array_index :: "string \<Rightarrow> nat option" where
  "array_index key =
     (let n = foldl (\<lambda>n c. 10 * n + (of_char c - 48)) 0 key in
      if string_of_nat n = key \<and> n < 4294967295 then Some n else None)"

fun insert_index :: "nat \<Rightarrow> string \<Rightarrow> 'a \<Rightarrow> (string \<times> 'a) list \<Rightarrow> (string \<times> 'a) list" where
  "insert_index n key x [] = [(key, x)]"
| "insert_index n key x ((k, y) # es) =
     (case array_index k of
        None \<Rightarrow> (key, x) # (k, y) # es
      | Some m \<Rightarrow>
          if n < m then (key, x) # (k, y) # es
          else if n = m then (key, x) # es
          else (k, y) # insert_index n key x es)"

definition object_set :: "string \<Rightarrow> 'a \<Rightarrow> (string \<times> 'a) list \<Rightarrow> (string \<times> 'a) list" where
  "object_set key x es =
     (if key = ''__proto__'' then es
      else case array_index key of None \<Rightarrow> jmap_set key x es | Some n \<Rightarrow> insert_index n key x es)"

fun json_of_value :: "js_value \<Rightarrow> thrown + json" where
  "json_of_value (JBoolean b) = Inr (JSBool b)"
| "json_of_value (JNumber n) = Inr (JSNumber n)"
| "json_of_value (JString s) = Inr (JSString s)"
| "json_of_value (JDate t) = map_sum id (\<lambda>s. JSString (butlast s)) (toISOString t)"

definition value_type_json :: "value_type option \<Rightarrow> thrown + json" where
  "value_type_json v = (case v of None \<Rightarrow> Inl (type_error ''name'') | Some v \<Rightarrow> Inr (JSString (value_type_name v)))"

definition typeAsObject :: "concept \<Rightarrow> thrown + (string, json) jmap" where
  "typeAsObject ty =
     res_bind (asType ty) (\<lambda>x.
     let asObject = jmap_set ''label'' (JSString (scopedName (ty_label x))) [] in
     if isEntityType ty then Inr (jmap_set ''root'' (JSString ''entity'') asObject)
     else if isRelationType ty then Inr (jmap_set ''root'' (JSString ''relation'') asObject)
     else if isAttributeType ty then
       res_bind (asAttributeType ty) (\<lambda>att.
       res_bind (value_type_json (at_valueType att)) (\<lambda>v.
       Inr (jmap_set ''root'' (JSString ''attribute'') (jmap_set ''value_type'' v asObject))))
     else if isRoleType ty then Inr (jmap_set ''root'' (JSString ''relation:role'') asObject)
     else if isThingType ty \<and> ty_root x then Inr (jmap_set ''root'' (JSString ''thing'') asObject)
     else Inl (throw_message ILLEGAL_STATE []))"

definition ReadableConcept_asObject :: "concept option \<Rightarrow> thrown + json" where
  "ReadableConcept_asObject concept =
     (case concept of
        None \<Rightarrow> Inl (type_error ''isType'')
      | Some c \<Rightarrow>
          if isType c then map_sum id JSObject (typeAsObject c)
          else if isAttribute c then
            res_bind (asAttribute c) (\<lambda>a.
            res_bind
              (case at_type a of None \<Rightarrow> Inl (type_error ''label'') | Some ty \<Rightarrow> typeAsObject (AttributeTypeImpl ty))
              (\<lambda>ty.
            res_bind (res_bind (Attribute_value a) json_of_value) (\<lambda>v.
            Inr (JSObject (jmap_set ''value'' v (jmap_set ''type'' (JSObject ty) []))))))
          else if isValue c then
            res_bind (asValue c) (\<lambda>v.
            res_bind (json_of_value (val_value v)) (\<lambda>j.
            Inr (JSObject (jmap_set ''value_type'' (JSString (value_type_name (val_valueType v)))
              (jmap_set ''value'' j [])))))
          else Inl (throw_message ILLEGAL_STATE []))"

definition Leaf_asJSON :: "concept option option \<Rightarrow> thrown + json" where
  "Leaf_asJSON readableConcept =
     (case readableConcept of None \<Rightarrow> Inr JSNull | Some concept \<Rightarrow> ReadableConcept_asObject concept)"

fun node_asJSON :: "node \<Rightarrow> thrown + json" where
  "node_asJSON (NodeMap m) =
     res_bind (map_throw (\<lambda>(key, value). map_sum id (Pair key) (node_asJSON value)) m)
       (\<lambda>entries. Inr (JSObject (fold (\<lambda>(key, json). object_set key json) entries [])))"
| "node_asJSON (NodeList list) = map_sum id JSArray (map_throw node_asJSON list)"
| "node_asJSON (Leaf readableConcept) = Leaf_asJSON readableConcept"

section \<open>What the protocol says\<close>

definition map_encoding :: "('a \<Rightarrow> proto) \<Rightarrow> (string \<times> 'a) list \<Rightarrow> proto" where
  "map_encoding f m = PList (map (\<lambda>(k, v). PMsg ''Entry'' [(''key'', PString k), (''value'', f v)]) m)"

definition concept_map_encoding :: "(string \<times> concept) list \<Rightarrow> proto \<Rightarrow> proto" where
  "concept_map_encoding m expl =
     PMsg ''ConceptMap'' [(''map'', map_encoding (concept_encoding ''Concept'') m), (''explainables'', expl)]"

fun node_encoding :: "node \<Rightarrow> proto" where
  "node_encoding (NodeMap m) =
     PMsg ''Node'' [(''map'', PMsg ''NodeMap''
       [(''map'', PList (map (\<lambda>(k, n). PMsg ''Entry'' [(''key'', PString k), (''value'', node_encoding n)]) m))])]"
| "node_encoding (NodeList ns) =
     PMsg ''Node'' [(''list'', PMsg ''NodeList'' [(''list'', PList (map node_encoding ns))])]"
| "node_encoding (Leaf None) = PMsg ''Node'' [(''readable_concept'', PMsg ''ReadableConcept'' [])]"
| "node_encoding (Leaf (Some None)) = PMsg ''Node'' []"
| "node_encoding (Leaf (Some (Some c))) =
     PMsg ''Node'' [(''readable_concept'', concept_encoding ''ReadableConcept'' c)]"

text \<open>
  A readable concept is a type, an attribute or a value. It can be rendered when its value type is one the driver knows
  and a date is a date.
\<close>

fun printable :: "js_value \<Rightarrow> bool" where
  "printable (JDate t) = (case t of Num _ \<Rightarrow> True | _ \<Rightarrow> False)"
| "printable _ = True"

fun renderable :: "concept \<Rightarrow> bool" where
  "renderable (AttributeTypeImpl ty) = (at_valueType ty \<noteq> None)"
| "renderable (AttributeImpl a) =
     (case (at_type a, at_value a) of
        (Some ty, Some v) \<Rightarrow> at_valueType ty \<noteq> None \<and> printable (val_value v)
      | _ \<Rightarrow> False)"
| "renderable (ValueImpl v) = printable (val_value v)"
| "renderable c = isType c"

fun node_wf :: "node \<Rightarrow> bool" where
  "node_wf (NodeMap m) = (distinct (map fst m) \<and> (\<forall>(k, n) \<in> set m. node_wf n))"
| "node_wf (NodeList ns) = (\<forall>n \<in> set ns. node_wf n)"
| "node_wf (Leaf None) = True"
| "node_wf (Leaf (Some None)) = False"
| "node_wf (Leaf (Some (Some c))) = (concept_wf c \<and> renderable c)"

text \<open>The rendering that is expected.\<close>

fun type_json :: "concept \<Rightarrow> json" where
  "type_json (EntityTypeImpl ty) =
     JSObject [(''label'', JSString (scopedName (ty_label ty))), (''root'', JSString ''entity'')]"
| "type_json (RelationTypeImpl ty) =
     JSObject [(''label'', JSString (scopedName (ty_label ty))), (''root'', JSString ''relation'')]"
| "type_json (AttributeTypeImpl ty) =
     JSObject [(''label'', JSString (scopedName (ty_label ty))),
       (''value_type'', JSString (case at_valueType ty of None \<Rightarrow> [] | Some v \<Rightarrow> value_type_name v)),
       (''root'', JSString ''attribute'')]"
| "type_json (RoleTypeImpl ty) =
     JSObject [(''label'', JSString (scopedName (ty_label ty))), (''root'', JSString ''relation:role'')]"
| "type_json _ = JSObject [(''label'', JSString ''thing''), (''root'', JSString ''thing'')]"

definition value_json :: "js_value \<Rightarrow> json" where
  "value_json v =
     (case v of
        JBoolean b \<Rightarrow> JSBool b
      | JNumber n \<Rightarrow> JSNumber n
      | JString s \<Rightarrow> JSString s
      | JDate t \<Rightarrow> JSString (case toISOString t of Inl _ \<Rightarrow> [] | Inr s \<Rightarrow> butlast s))"

fun concept_json :: "concept \<Rightarrow> json" where
  "concept_json (AttributeImpl a) =
     (case (at_type a, at_value a) of
        (Some ty, Some v) \<Rightarrow>
          JSObject [(''type'', type_json (AttributeTypeImpl ty)), (''value'', value_json (val_value v))]
      | _ \<Rightarrow> JSNull)"
| "concept_json (ValueImpl v) =
     JSObject [(''value'', value_json (val_value v)), (''value_type'', JSString (value_type_name (val_valueType v)))]"
| "concept_json c = type_json c"

text \<open>The properties an object is left with when the entries of a map are set one after the other.\<close>

definition is_index :: "string \<times> 'a \<Rightarrow> bool" where
  "is_index e \<longleftrightarrow> array_index (fst e) \<noteq> None"

definition own_properties :: "(string \<times> 'a) list \<Rightarrow> (string \<times> 'a) list" where
  "own_properties es =
     sort_key (\<lambda>e. the (array_index (fst e))) (filter is_index es) @
     filter (\<lambda>e. \<not> is_index e \<and> fst e \<noteq> ''__proto__'') es"

fun node_json :: "node \<Rightarrow> json" where
  "node_json (NodeMap m) = JSObject (own_properties (map (\<lambda>(k, n). (k, node_json n)) m))"
| "node_json (NodeList ns) = JSArray (map node_json ns)"
| "node_json (Leaf (Some (Some c))) = concept_json c"
| "node_json (Leaf _) = JSNull"

section \<open>Lemmas\<close>

lemma jmap_of_distinct: "distinct (map fst es) \<Longrightarrow> jmap_of_entries es = es"
proof -
  have "fold (\<lambda>(k, v). jmap_set k v) es m = m @ es" if "distinct (map fst (m @ es))" for m
    using that
  proof (induction es arbitrary: m)
    case (Cons e es)
    obtain k v where e: "e = (k, v)" by fastforce
    have "k \<notin> fst ` set m" using Cons.prems e by auto
    then have "jmap_set k v m = m @ [(k, v)]" by (induction m) auto
    with Cons e show ?case by simp
  qed simp
  then show "distinct (map fst es) \<Longrightarrow> jmap_of_entries es = es"
    using jmap_of_entries_def by (metis append_Nil)
qed

lemma array_index_iff: "array_index key = Some n \<longleftrightarrow> key = string_of_nat n \<and> n < 4294967295"
proof -
  have digit: "of_char (digit_char d) - 48 = d" if "d < 10" for d :: nat
    using that by (simp add: of_char_of)
  have "foldl (\<lambda>n c. 10 * n + (of_char c - 48)) 0 (string_of_nat n) = n" for n :: nat
    by (induction n rule: string_of_nat.induct) (subst string_of_nat.simps, auto simp: digit)
  then show ?thesis by (auto simp: array_index_def Let_def)
qed

lemma array_index_inj: "array_index k = Some n \<Longrightarrow> array_index k' = Some n \<Longrightarrow> k = k'"
  by (simp add: array_index_iff)

lemma array_index_no_digit: "c \<in> set key \<Longrightarrow> c \<notin> set ''0123456789'' \<Longrightarrow> array_index key = None"
proof -
  define D where "D = set ''0123456789''"
  have "map digit_char [0..<10] = ''0123456789''" by code_simp
  then have digit: "digit_char d \<in> D" if "d < 10" for d
    using that unfolding D_def by (metis (no_types) atLeast0LessThan image_eqI lessThan_iff set_map set_upt)
  have "set (string_of_nat n) \<subseteq> D" for n
  proof (induction n rule: string_of_nat.induct)
    case (1 n)
    show ?case
    proof (cases "n < 10")
      case False
      then have "string_of_nat n = string_of_nat (n div 10) @ [digit_char (n mod 10)]" by (subst string_of_nat.simps) simp
      with 1 [OF False] digit [of "n mod 10"] show ?thesis by (simp del: digit_char.simps)
    qed (use digit in \<open>simp add: string_of_nat_small del: digit_char.simps\<close>)
  qed
  moreover assume "c \<in> set key" "c \<notin> set ''0123456789''"
  ultimately show ?thesis using array_index_iff [of key] unfolding D_def [symmetric] by (metis not_None_eq subsetD)
qed

lemma array_index_proto: "array_index ''__proto__'' = None"
  by (rule array_index_no_digit [of "CHR ''_''"]) simp_all

lemma insert_index_mset:
  assumes "array_index key = Some n" "key \<notin> fst ` set es"
  shows "mset (insert_index n key x es) = add_mset (key, x) (mset es)"
  using assms
  by (induction n key x es rule: insert_index.induct) (auto split: option.split dest: array_index_inj)

lemma insert_index_sorted:
  assumes "array_index key = Some n" "key \<notin> fst ` set is" "\<forall>e \<in> set is. is_index e" "\<forall>e \<in> set es. \<not> is_index e"
    and "sorted (map (\<lambda>e. the (array_index (fst e))) is)"
  shows "\<exists>is'. insert_index n key x (is @ es) = is' @ es \<and> mset is' = add_mset (key, x) (mset is) \<and>
    sorted (map (\<lambda>e. the (array_index (fst e))) is')"
  using assms
proof (induction "is")
  case Nil
  then show ?case by (cases es) (auto simp: is_index_def intro: exI [of _ "[(key, x)]"])
next
  case (Cons e "is")
  obtain k y where e: "e = (k, y)" by fastforce
  with Cons.prems(3) obtain m where m: "array_index k = Some m" by (auto simp: is_index_def)
  with Cons.prems(1,2) e have "n \<noteq> m" using array_index_inj by fastforce
  show ?case
  proof (cases "n < m")
    case True
    with Cons.prems e m show ?thesis by (intro exI [of _ "(key, x) # e # is"]) auto
  next
    case False
    from Cons obtain is' where is': "insert_index n key x (is @ es) = is' @ es" "mset is' = add_mset (key, x) (mset is)"
      "sorted (map (\<lambda>e. the (array_index (fst e))) is')" by auto
    from is'(2) have "set is' = insert (key, x) (set is)" by (metis set_mset_add_mset_insert set_mset_mset)
    with False \<open>n \<noteq> m\<close> Cons.prems(1,5) e m is' show ?thesis by (intro exI [of _ "e # is'"]) auto
  qed
qed

lemma own_properties_snoc:
  assumes "key \<notin> fst ` set es" and "distinct (map fst es)"
  shows "object_set key x (own_properties es) = own_properties (es @ [(key, x)])"
proof -
  let ?f = "\<lambda>e. the (array_index (fst e))" and ?rest = "filter (\<lambda>e. \<not> is_index e \<and> fst e \<noteq> ''__proto__'') es"
  have inj: "inj_on ?f (set (filter is_index (es @ [(key, x)])))"
  proof (rule inj_onI)
    fix a b assume "a \<in> set (filter is_index (es @ [(key, x)]))" "b \<in> set (filter is_index (es @ [(key, x)]))" and f: "?f a = ?f b"
    then have member: "a \<in> set (es @ [(key, x)])" "b \<in> set (es @ [(key, x)])" and "is_index a" "is_index b"
      unfolding set_filter by blast+
    with f have "fst a = fst b" by (auto simp: is_index_def dest: array_index_inj)
    moreover have "distinct (map fst (es @ [(key, x)]))" using assms by auto
    ultimately show "a = b" using member by (metis eq_key_imp_eq_value prod.collapse)
  qed
  show ?thesis
  proof (cases "array_index key")
    case None
    then have new: "\<not> is_index (key, x :: 'a)" by (simp add: is_index_def)
    have "jmap_set key x m = m @ [(key, x)]" if "key \<notin> fst ` set m" for m :: "(string \<times> 'a) list"
      using that by (induction m) auto
    moreover have "key \<notin> fst ` set (own_properties es)" using assms(1) by (auto simp: own_properties_def)
    ultimately show ?thesis using None new by (auto simp: object_set_def own_properties_def)
  next
    case (Some n)
    then have new: "is_index (key, x :: 'a)" "key \<noteq> ''__proto__''" using array_index_proto by (auto simp: is_index_def)
    have "\<exists>is'. insert_index n key x (sort_key ?f (filter is_index es) @ ?rest) = is' @ ?rest \<and>
        mset is' = add_mset (key, x) (mset (sort_key ?f (filter is_index es))) \<and> sorted (map ?f is')"
      using assms(1) Some by (intro insert_index_sorted) auto
    then obtain is' where is': "insert_index n key x (sort_key ?f (filter is_index es) @ ?rest) = is' @ ?rest"
      "mset is' = mset (filter is_index (es @ [(key, x)]))" "sorted (map ?f is')"
      using new by auto
    from sort_key_inj_key_eq [OF is'(2) [symmetric] inj is'(3)] is'(1) show ?thesis
      using Some new by (simp add: object_set_def own_properties_def)
  qed
qed

lemma object_of_entries: "distinct (map fst es) \<Longrightarrow> fold (\<lambda>(key, x). object_set key x) es [] = own_properties es"
proof (induction es rule: rev_induct)
  case (snoc e es)
  obtain k x where e: "e = (k, x)" by fastforce
  with snoc have "k \<notin> fst ` set es" "distinct (map fst es)" by auto
  with own_properties_snoc [of k es x] snoc.IH e show ?case by simp
qed (simp add: own_properties_def)

text \<open>Keys like labels and most variables keep their order.\<close>

lemma own_properties_plain: "\<forall>(k, x) \<in> set es. array_index k = None \<and> k \<noteq> ''__proto__'' \<Longrightarrow> own_properties es = es"
proof -
  assume "\<forall>(k, x) \<in> set es. array_index k = None \<and> k \<noteq> ''__proto__''"
  then have "filter is_index es = []" "filter (\<lambda>e. \<not> is_index e \<and> fst e \<noteq> ''__proto__'') es = es"
    by (auto simp: is_index_def filter_empty_conv intro!: filter_True)
  then show ?thesis by (simp add: own_properties_def)
qed

lemma p_map_encoding [simp]: "p_map (map_encoding f m) = map (\<lambda>(k, v). (k, f v)) m"
  by (simp add: p_map_def map_encoding_def case_prod_unfold comp_def)

lemma map_throw_pairs:
  assumes "\<And>k v. (k, v) \<in> set m \<Longrightarrow> f (g v) = Inr (h v)"
  shows "map_throw (\<lambda>(k, v). map_sum id (Pair k) (f v)) (map (\<lambda>(k, v). (k, g v)) m) = Inr (map (\<lambda>(k, v). (k, h v)) m)"
  using assms
proof (induction m)
  case (Cons e m)
  obtain k v where e: "e = (k, v)" by fastforce
  then have "f (g v) = Inr (h v)" using Cons.prems [of k v] by simp
  moreover have "map_throw (\<lambda>(k, v). map_sum id (Pair k) (f v)) (map (\<lambda>(k, v). (k, g v)) m) = Inr (map (\<lambda>(k, v). (k, h v)) m)"
    by (rule Cons.IH) (use Cons.prems in auto)
  ultimately show ?case using e by (simp add: id_def)
qed simp

lemmas Node_of_message = Node_of.simps [of _ "PMsg c fs" for c fs]

lemma readable_read:
  assumes "concept_wf c" and "renderable c"
  shows "ReadableConcept_of show_msg (concept_encoding m c) = Inr (Some (Some c))"
  using assms thing_alternative_read(3) [of _ show_msg]
  by (cases c)
    (simp_all add: ReadableConcept_of_def concept_encoding_def has_field_def type_fields_read attribute_type_read
      role_type_read value_read ofThingTypeRootProto_def del: value_wf.simps)

lemma map_of_values: "map_of (map (\<lambda>(k, v). (k, f v)) m) k = map_option f (map_of m k)"
  by (induction m) auto

lemma value_type_name_long: "value_type_name ValueType_LONG = ''long''"
  by code_simp

lemma value_type_name_root: "scopedName (ty_label ThingTypeRoot_new) = ''thing''" "ty_root ThingTypeRoot_new"
  by (simp_all add: ThingTypeRoot_new_def ThingTypeImpl_new_def scopedName_def label_of_def)

lemma type_rendered:
  assumes "isType c" and "concept_wf c" and "renderable c"
  shows "map_sum id JSObject (typeAsObject c) = Inr (type_json c)"
  using assms
  by (cases c) (auto simp: typeAsObject_def value_type_json_def value_type_name_root type_impl.defs)

lemma value_rendered: "printable v \<Longrightarrow> json_of_value v = Inr (value_json v)"
proof (cases v)
  case (JDate t)
  moreover assume "printable v"
  ultimately obtain q where "t = Num q" by (auto split: js_number.splits)
  moreover have "\<exists>s. toISOString (Num q) = Inr s" by (simp add: Let_def case_prod_unfold)
  ultimately show ?thesis using JDate by (auto simp: value_json_def simp del: toISOString.simps)
qed (simp_all add: value_json_def)

lemma concept_rendered:
  assumes "concept_wf c" and "renderable c"
  shows "ReadableConcept_asObject (Some c) = Inr (concept_json c)"
proof (cases c)
  case (AttributeImpl a)
  with assms obtain ty v where a: "at_type a = Some ty" "at_value a = Some v" "at_valueType ty \<noteq> None"
    "printable (val_value v)" "thing_type_wf ty"
    by (auto split: option.splits)
  then have "map_sum id JSObject (typeAsObject (AttributeTypeImpl ty)) = Inr (type_json (AttributeTypeImpl ty))"
    by (intro type_rendered) simp_all
  then obtain o' where "typeAsObject (AttributeTypeImpl ty) = Inr o'" "JSObject o' = type_json (AttributeTypeImpl ty)"
    by (cases "typeAsObject (AttributeTypeImpl ty)") auto
  with AttributeImpl a show ?thesis
    by (simp add: ReadableConcept_asObject_def Attribute_value_def value_rendered del: type_json.simps)
qed (use assms type_rendered [of c] in \<open>simp_all add: ReadableConcept_asObject_def value_rendered del: type_json.simps\<close>)

lemma node_read_rendered:
  assumes "node_wf n"
  shows "Node_of show_msg (node_encoding n) = Inr n \<and> node_asJSON n = Inr (node_json n)"
  using assms
proof (induction n rule: node_wf.induct)
  case (1 m)
  have entries: "p_map (PList (map (\<lambda>(k, n). PMsg ''Entry'' [(''key'', PString k), (''value'', node_encoding n)]) m)) =
      map (\<lambda>(k, n). (k, node_encoding n)) m"
    by (simp add: p_map_def case_prod_unfold comp_def)
  have IH: "Node_of show_msg (node_encoding n) = Inr n" "node_asJSON n = Inr (node_json n)" if "(k, n) \<in> set m" for k n
    using 1 that by fastforce+
  have "map_throw (\<lambda>(label, node). map_sum id (Pair label) (Node_of show_msg node))
      (map (\<lambda>(k, n). (k, node_encoding n)) m) = Inr m"
    using map_throw_pairs [of m "Node_of show_msg" node_encoding "\<lambda>n. n"] IH(1) by simp
  moreover have "map_throw (\<lambda>(key, value). map_sum id (Pair key) (node_asJSON value)) m =
      Inr (map (\<lambda>(k, n). (k, node_json n)) m)"
    using map_throw_pairs [of m node_asJSON "\<lambda>n. n" node_json] IH(2) by simp
  moreover have "jmap_of_entries m = m"
    "fold (\<lambda>(key, json). object_set key json) (map (\<lambda>(k, n). (k, node_json n)) m) [] =
      own_properties (map (\<lambda>(k, n). (k, node_json n)) m)"
    using 1(2) by (simp add: jmap_of_distinct) (rule object_of_entries, use 1(2) in \<open>simp add: case_prod_unfold comp_def\<close>)
  ultimately show ?case
    using entries by (simp add: Node_of_message has_field_def)
next
  case (2 ns)
  then have "map_throw (Node_of show_msg) (map node_encoding ns) = Inr ns" "map_throw node_asJSON ns = Inr (map node_json ns)"
    by (induction ns) auto
  then show ?case by (simp add: Node_of_message has_field_def)
next
  case 3
  show ?case by (simp add: Node_of_message has_field_def ReadableConcept_of_def Leaf_asJSON_def)
next
  case (5 c)
  have "concept_encoding ''ReadableConcept'' c \<noteq> PUndefined" by (simp add: concept_encoding_def)
  with 5 show ?case
    by (simp add: Node_of_message has_field_def readable_read
        Leaf_asJSON_def concept_rendered)
qed simp

lemma node_read:
  assumes "node_wf n"
  shows "Node_of show_msg (node_encoding n) = Inr n" and "node_asJSON n = Inr (node_json n)"
  using node_read_rendered [OF assms] by blast+

section \<open>Properties\<close>

text \<open>
  C21. Trees of fetch queries are read and rendered faithfully: a tree of any depth, encoded as the protocol says, is read back as itself, and
  its JSON has the shape of the tree, an object for every map, an array for every list, and the
  rendering of the concept, or null, at every leaf. An object has the entries of its map as far as a JavaScript object keeps them: a key \<open>__proto__\<close> is lost, keys that
  are array indices come first in ascending order, and the others follow in the order of the map; without such keys it has the same keys in
  the same order. Reading and rendering end without an error.
\<close>

theorem fetch_tree_rendered:
  assumes "node_wf n"
  shows "Node_of show_msg (node_encoding n) = Inr n \<and> node_asJSON n = Inr (node_json n) \<and>
    (\<forall>m. n = NodeMap m \<and> (\<forall>(k, x) \<in> set m. array_index k = None \<and> k \<noteq> ''__proto__'') \<longrightarrow>
       node_asJSON n = Inr (JSObject (map (\<lambda>(k, x). (k, node_json x)) m)))"
proof -
  have "node_json (NodeMap m) = JSObject (map (\<lambda>(k, x). (k, node_json x)) m)"
    if "\<forall>(k, x) \<in> set m. array_index k = None \<and> k \<noteq> ''__proto__''" for m
    using that by (simp only: node_json.simps, subst own_properties_plain) (force, simp)
  then show ?thesis using node_read [OF assms] by auto
qed

theorem fetch_tree_rendered_witness:
  "node_asJSON (NodeMap [(''x'', NodeList [Leaf (Some (Some (AttributeImpl demo_attribute))), Leaf None]), (''9'', Leaf None),
       (''__proto__'', Leaf None), (''2'', NodeList [])]) =
     Inr (JSObject [(''2'', JSArray []), (''9'', JSNull), (''x'', JSArray [JSObject
       [(''type'', JSObject [(''label'', JSString ''age''), (''value_type'', JSString ''long''), (''root'', JSString ''attribute'')]),
        (''value'', JSNumber (Num 42))], JSNull])])"
proof -
  let ?n = "NodeMap [(''x'', NodeList [Leaf (Some (Some (AttributeImpl demo_attribute))), Leaf None]), (''9'', Leaf None),
       (''__proto__'', Leaf None), (''2'', NodeList [])]"
  have "node_wf ?n"
    by (simp add: demo_attribute_def iid_wf_def thing_type_wf_def label_of_def)
  moreover have digits: "digit_char 9 = CHR ''9''" "digit_char 2 = CHR ''2''" by code_simp+
  moreover have "array_index ''x'' = None" "array_index ''9'' = Some 9" "array_index ''2'' = Some 2"
    using digits by (simp_all add: array_index_iff string_of_nat_small array_index_no_digit del: digit_char.simps)
  ultimately show ?thesis
    using fetch_tree_rendered [of ?n proto_class]
    by (simp add: demo_attribute_def value_json_def value_type_name_long scopedName_def label_of_def own_properties_def is_index_def
        array_index_proto)
qed

text \<open>
  C32. A concept map gives every variable of an answer its concept: for an answer with distinct variables, \<open>variables\<close> lists them in the order of
  the answer and \<open>get\<close> finds the concept of each, and nothing else.
\<close>

theorem concept_map_complete:
  assumes "distinct (map fst m)" and "\<forall>(var, c) \<in> set m. concept_wf c"
  shows "\<exists>cm. ConceptMap_of show_msg (concept_map_encoding m expl) = Inr cm \<and> cm_variables cm = map fst m \<and>
    cm_values cm = map (\<lambda>e. Some (snd e)) m \<and> (\<forall>var. cm_get cm var = map_option Some (map_of m var))"
proof -
  have "map_throw (\<lambda>(var, c). map_sum id (Pair var) (Concept_of show_msg c))
      (map (\<lambda>(k, c). (k, concept_encoding ''Concept'' c)) m) = Inr (map (\<lambda>(k, c). (k, Some c)) m)"
    using assms(2) by (intro map_throw_pairs) (auto simp: concept_read)
  moreover have "jmap_of_entries (map (\<lambda>(k, c). (k, Some c)) m) = map (\<lambda>(k, c). (k, Some c)) m"
    using assms(1) by (intro jmap_of_distinct) (simp add: case_prod_unfold comp_def)
  ultimately have "\<exists>cm. ConceptMap_of show_msg (concept_map_encoding m expl) = Inr cm \<and>
      cm_concepts cm = map (\<lambda>(k, c). (k, Some c)) m"
    by (simp add: ConceptMap_of_def concept_map_encoding_def)
  then show ?thesis
    by (auto simp: cm_variables_def cm_values_def cm_get_def map_of_values)
qed

theorem concept_map_complete_witness:
  "\<exists>cm. ConceptMap_of proto_class (concept_map_encoding [(''x'', demo_thing [1]), (''y'', demo_thing [2])] PUndefined) = Inr cm \<and>
     cm_get cm ''y'' = Some (Some (demo_thing [2])) \<and> cm_get cm ''z'' = None"
  using concept_map_complete [of "[(''x'', demo_thing [1]), (''y'', demo_thing [2])]" proto_class PUndefined]
  by (auto simp: demo_thing_wf)

text \<open>
  C38. The explanation of an attribute is filed with the relations: whatever the answer holds, asking for the explainable of an attribute
  throws, and the explainable of the attribute is found, in place of a relation of the same variable, by asking for a relation.
\<close>

theorem attribute_explainables_misfiled:
  assumes "ConceptMap_of show_msg p = Inr cm"
    and "map_of (rev (p_map (proto_get ''attributes'' (proto_get ''explainables'' p)))) var = Some e"
  shows "explainables_attribute (cm_explainables cm) var = Inl (throw_message NONEXISTENT_EXPLAINABLE_CONCEPT [var]) \<and>
    explainables_relation (cm_explainables cm) var = Inr (ofExplainable e)"
proof -
  have "proto_get ''explainables'' p \<noteq> PUndefined" using assms(2) by (auto simp: proto_get_def p_map_def)
  then have "cm_explainables cm = ofExplainables (proto_get ''explainables'' p)"
    using assms(1) by (auto simp: ConceptMap_of_def has_field_def res_bind_def split: if_splits sum.splits)
  moreover have "jmap_get (fold (\<lambda>(var, e). jmap_set var (ofExplainable e)) es m) var =
      (case map_of (rev es) var of None \<Rightarrow> jmap_get m var | Some e \<Rightarrow> Some (ofExplainable e))" for es m
    by (induction es arbitrary: m) (auto split: option.splits simp: map_add_def)
  ultimately show ?thesis
    using assms(2) by (simp add: explainables_attribute_def explainables_relation_def ofExplainables_def)
qed

definition demo_explainable :: proto where
  "demo_explainable = PMsg ''Explainable'' [(''conjunction'', PString ''{$a}''), (''id'', PNumber (Num 3))]"

theorem attribute_explainables_misfiled_witness:
  "\<exists>cm. ConceptMap_of proto_class (concept_map_encoding [(''a'', demo_thing [1])]
       (PMsg ''Explainables'' [(''attributes'', map_encoding (\<lambda>p. p) [(''a'', demo_explainable)])])) = Inr cm \<and>
     explainables_attribute (cm_explainables cm) ''a'' = Inl (throw_message NONEXISTENT_EXPLAINABLE_CONCEPT [''a'']) \<and>
     explainables_relation (cm_explainables cm) ''a'' = Inr \<lparr>ex_conjunction = ''{$a}'', ex_id = Num 3\<rparr>"
proof -
  let ?p = "concept_map_encoding [(''a'', demo_thing [1])]
       (PMsg ''Explainables'' [(''attributes'', map_encoding (\<lambda>p. p) [(''a'', demo_explainable)])])"
  obtain cm where cm: "ConceptMap_of proto_class ?p = Inr cm"
    by (auto simp: ConceptMap_of_def concept_map_encoding_def concept_read demo_thing_wf)
  have "map_of (rev (p_map (proto_get ''attributes'' (proto_get ''explainables'' ?p)))) ''a'' = Some demo_explainable"
    by (simp add: concept_map_encoding_def)
  from attribute_explainables_misfiled [OF cm this] cm show ?thesis
    by (auto simp: ofExplainable_def demo_explainable_def)
qed

text \<open>
  The explainable of an ownership is found under its owner and its attribute: for an answer that lists every owner once and
  every attribute once per owner, the lookup gives the explainable the answer has for the pair, and throws exactly when it has none.
\<close>

lemma ownership_explainables_found:
  assumes "distinct (map fst (p_map (proto_get ''ownerships'' p)))"
  shows "explainables_ownership (ofExplainables p) owner attr =
    (case Option.bind (map_of (p_map (proto_get ''ownerships'' p)) owner)
            (\<lambda>owned. map_of (p_map (proto_get ''owned'' owned)) attr) of
       None \<Rightarrow> Inl (throw_message NONEXISTENT_EXPLAINABLE_OWNERSHIP [owner, attr])
     | Some e \<Rightarrow> Inr (ofExplainable e))"
proof -
  let ?is = "\<lambda>entry :: (string \<times> string) \<times> explainable. fst (fst entry) = owner \<and> snd (fst entry) = attr"
  have found: "find ?is (map (\<lambda>(a, e). ((owner, a), ofExplainable e)) es) =
      map_option (\<lambda>e. ((owner, attr), ofExplainable e)) (map_of es attr)" for es
    by (induction es) auto
  have other: "find ?is (map (\<lambda>(a, e). ((o', a), ofExplainable e)) es) = None" if "o' \<noteq> owner" for o' es
    using that by (induction es) auto
  have append: "find Q (xs @ ys) = (case find Q xs of None \<Rightarrow> find Q ys | Some x \<Rightarrow> Some x)" for Q :: "'z \<Rightarrow> bool" and xs ys
    by (induction xs) auto
  have none: "find ?is (concat (map (\<lambda>(o', owned). map (\<lambda>(a, e). ((o', a), ofExplainable e)) (g owned)) ms)) = None"
    if "owner \<notin> fst ` set ms" for g ms
    using that by (induction ms) (auto simp: append other split: option.split)
  have "find ?is (concat (map (\<lambda>(o', owned). map (\<lambda>(a, e). ((o', a), ofExplainable e)) (g owned)) ms)) =
      map_option (\<lambda>e. ((owner, attr), ofExplainable e)) (Option.bind (map_of ms owner) (\<lambda>owned. map_of (g owned) attr))"
    if "distinct (map fst ms)" for g ms
    using that by (induction ms) (auto simp: append found other none split: option.split)
  from this [OF assms] show ?thesis
    by (auto simp: explainables_ownership_def ofExplainables_def Let_def split: option.split)
qed

lemma ownership_explainables_found_example:
  "explainables_ownership (ofExplainables (PMsg ''Explainables'' [(''ownerships'',
      map_encoding (\<lambda>m. PMsg ''Owned'' [(''owned'', m)]) [(''p'', map_encoding (\<lambda>p. p) [(''a'', demo_explainable)])])]))
      ''p'' ''a'' = Inr \<lparr>ex_conjunction = ''{$a}'', ex_id = Num 3\<rparr>"
  by (subst ownership_explainables_found) (simp_all add: ofExplainable_def demo_explainable_def)

text \<open>Two dates as \<open>toISOString\<close> prints them.\<close>

lemma iso_epoch: "toISOString (Num 0) = Inr ''1970-01-01T00:00:00.000Z''"
  by code_simp

lemma iso_leap_day: "toISOString (Num 951868799123) = Inr ''2000-02-29T23:59:59.123Z''"
  by code_simp

end
