(* ===== verification/Query_Logic.thy ===== *)
theory Query_Logic
  imports Answer_Model
begin

text \<open>
  Queries and rules on a transaction: \<open>query/QueryManagerImpl.ts\<close>, \<open>logic/LogicManagerImpl.ts\<close>, \<open>logic/RuleImpl.ts\<close> and
  \<open>logic/ExplanationImpl.ts\<close>. A rule object is a record; the one method that changes it, \<open>setLabel\<close>, gives
  the changed rule.
\<close>

section \<open>Rules and explanations\<close>

record rule_impl =
  ru_label :: string
  ru_when :: string
  ru_then :: string

definition Rule_of :: "proto \<Rightarrow> thrown + rule_impl" where
  "Rule_of p =
     (if p = PUndefined then Inl (type_error ''label'')
      else
        Inr \<lparr>ru_label = p_string (proto_get ''label'' p), ru_when = p_string (proto_get ''when'' p),
             ru_then = p_string (proto_get ''then'' p)\<rparr>)"

definition Rule_toString :: "rule_impl \<Rightarrow> string" where
  "Rule_toString this = ''Rule['' @ ru_label this @ '']''"

record explanation =
  xp_rule :: rule_impl
  xp_condition :: concept_map
  xp_conclusion :: concept_map
  xp_variableMapping :: "(string, string set) jmap"

definition Explanation_of :: "(proto \<Rightarrow> string) \<Rightarrow> proto \<Rightarrow> thrown + explanation" where
  "Explanation_of show_msg p =
     (let varMapping =
        fold (\<lambda>(key, vars). jmap_set key (set (map p_string (p_list (proto_get ''vars'' vars)))))
          (p_map (proto_get ''var_mapping'' p)) []
      in
        res_bind (Rule_of (proto_get ''rule'' p)) (\<lambda>rule.
        res_bind (ConceptMap_of show_msg (proto_get ''condition'' p)) (\<lambda>condition.
        res_bind (ConceptMap_of show_msg (proto_get ''conclusion'' p)) (\<lambda>conclusion.
        Inr \<lparr>xp_rule = rule, xp_condition = condition, xp_conclusion = conclusion,
             xp_variableMapping = varMapping\<rparr>))))"

section \<open>The query manager\<close>

definition QueryManager_query :: "'w world_env \<Rightarrow> nat \<Rightarrow> proto \<Rightarrow> ('w, proto) drv_io" where
  "QueryManager_query we t req = answer (field ''query_manager_res'') (rpcExecute we t req None)"

definition QueryManager_stream :: "'w world_env \<Rightarrow> nat \<Rightarrow> proto \<Rightarrow> ('w, proto stream) drv_io" where
  "QueryManager_stream we t req = map_io (s_map (field ''query_manager_res_part'')) (rpcStream we t req)"

text \<open>\<open>flatMap(part => Stream.array(part.a.b).map(f))\<close>.\<close>

definition mapped_parts :: "string \<Rightarrow> string \<Rightarrow> (proto \<Rightarrow> thrown + 'a) \<Rightarrow> proto stream \<Rightarrow> 'a stream" where
  "mapped_parts a b f parts = s_flatMap (\<lambda>part. map_sum id (s_map f) (part_elements a b part)) parts"

definition query_options :: "options option \<Rightarrow> proto" where
  "query_options opts = options_proto (case opts of None \<Rightarrow> options_default | Some x \<Rightarrow> x)"

definition QueryManager_get ::
  "'w world_env \<Rightarrow> nat \<Rightarrow> string \<Rightarrow> options option \<Rightarrow> ('w, concept_map stream) drv_io" where
  "QueryManager_get we t query opts =
     map_io (mapped_parts ''get_res_part'' ''answers'' (ConceptMap_of (we_show we)))
       (QueryManager_stream we t (QueryManager_getReq query (query_options opts)))"

definition QueryManager_getAggregate ::
  "'w world_env \<Rightarrow> nat \<Rightarrow> string \<Rightarrow> options option \<Rightarrow> ('w, value_impl option) drv_io" where
  "QueryManager_getAggregate we t query opts =
     answer
       (\<lambda>res. res_bind (field ''get_aggregate_res'' res) (\<lambda>r.
          if r \<noteq> PUndefined then ofValueProto (we_show we) (proto_get ''answer'' r) else Inr None))
       (QueryManager_query we t (QueryManager_getAggregateReq query (query_options opts)))"

definition QueryManager_getGroup ::
  "'w world_env \<Rightarrow> nat \<Rightarrow> string \<Rightarrow> options option \<Rightarrow> ('w, concept_map_group stream) drv_io" where
  "QueryManager_getGroup we t query opts =
     map_io (mapped_parts ''get_group_res_part'' ''answers'' (ConceptMapGroup_of (we_show we)))
       (QueryManager_stream we t (QueryManager_getGroupReq query (query_options opts)))"

definition QueryManager_getGroupAggregate ::
  "'w world_env \<Rightarrow> nat \<Rightarrow> string \<Rightarrow> options option \<Rightarrow> ('w, value_group stream) drv_io" where
  "QueryManager_getGroupAggregate we t query opts =
     map_io (mapped_parts ''get_group_aggregate_res_part'' ''answers'' (ValueGroup_of (we_show we)))
       (QueryManager_stream we t (QueryManager_getGroupAggregateReq query (query_options opts)))"

definition QueryManager_fetch ::
  "'w world_env \<Rightarrow> nat \<Rightarrow> string \<Rightarrow> options option \<Rightarrow> ('w, json stream) drv_io" where
  "QueryManager_fetch we t query opts =
     map_io
       (mapped_parts ''fetch_res_part'' ''answers''
          (\<lambda>p. res_bind (ReadableConceptTree_of (we_show we) p) node_asJSON))
       (QueryManager_stream we t (QueryManager_fetchReq query (query_options opts)))"

definition QueryManager_insert ::
  "'w world_env \<Rightarrow> nat \<Rightarrow> string \<Rightarrow> options option \<Rightarrow> ('w, concept_map stream) drv_io" where
  "QueryManager_insert we t query opts =
     map_io (mapped_parts ''insert_res_part'' ''answers'' (ConceptMap_of (we_show we)))
       (QueryManager_stream we t (QueryManager_insertReq query (query_options opts)))"

definition QueryManager_delete :: "'w world_env \<Rightarrow> nat \<Rightarrow> string \<Rightarrow> options option \<Rightarrow> ('w, unit) drv_io" where
  "QueryManager_delete we t query opts =
     io_ignore (QueryManager_query we t (QueryManager_deleteReq query (query_options opts)))"

definition QueryManager_update ::
  "'w world_env \<Rightarrow> nat \<Rightarrow> string \<Rightarrow> options option \<Rightarrow> ('w, concept_map stream) drv_io" where
  "QueryManager_update we t query opts =
     map_io (mapped_parts ''update_res_part'' ''answers'' (ConceptMap_of (we_show we)))
       (QueryManager_stream we t (QueryManager_updateReq query (query_options opts)))"

definition QueryManager_define :: "'w world_env \<Rightarrow> nat \<Rightarrow> string \<Rightarrow> options option \<Rightarrow> ('w, unit) drv_io" where
  "QueryManager_define we t query opts =
     io_ignore (QueryManager_query we t (QueryManager_defineReq query (query_options opts)))"

definition QueryManager_undefine :: "'w world_env \<Rightarrow> nat \<Rightarrow> string \<Rightarrow> options option \<Rightarrow> ('w, unit) drv_io" where
  "QueryManager_undefine we t query opts =
     io_ignore (QueryManager_query we t (QueryManager_undefineReq query (query_options opts)))"

definition QueryManager_explain ::
  "'w world_env \<Rightarrow> nat \<Rightarrow> explainable \<Rightarrow> options option \<Rightarrow> ('w, explanation stream) drv_io" where
  "QueryManager_explain we t expl opts =
     map_io (elements_of_parts ''explain_res_part'' ''explanations'' (Explanation_of (we_show we)))
       (QueryManager_stream we t (QueryManager_explainReq (ex_id expl) (query_options opts)))"

section \<open>The logic manager\<close>

definition LogicManager_execute :: "'w world_env \<Rightarrow> nat \<Rightarrow> proto \<Rightarrow> ('w, proto) drv_io" where
  "LogicManager_execute we t request = answer (field ''logic_manager_res'') (rpcExecute we t request None)"

definition LogicManager_stream :: "'w world_env \<Rightarrow> nat \<Rightarrow> proto \<Rightarrow> ('w, proto stream) drv_io" where
  "LogicManager_stream we t request = map_io (s_map (field ''logic_manager_res_part'')) (rpcStream we t request)"

definition LogicManager_getRule :: "'w world_env \<Rightarrow> nat \<Rightarrow> string \<Rightarrow> ('w, rule_impl option) drv_io" where
  "LogicManager_getRule we t label =
     answer
       (\<lambda>res. res_bind (field ''get_rule_res'' res) (\<lambda>r.
          if r = PUndefined then Inl (type_error ''has_rule'')
          else if has_field ''rule'' r then map_sum id Some (Rule_of (proto_get ''rule'' r))
          else Inr None))
       (LogicManager_execute we t (LogicManager_getRuleReq label))"

definition LogicManager_getRules :: "'w world_env \<Rightarrow> nat \<Rightarrow> ('w, rule_impl stream) drv_io" where
  "LogicManager_getRules we t =
     map_io (mapped_parts ''get_rules_res_part'' ''rules'' Rule_of) (LogicManager_stream we t LogicManager_getRulesReq)"

definition LogicManager_putRule ::
  "'w world_env \<Rightarrow> nat \<Rightarrow> string \<Rightarrow> string \<Rightarrow> string \<Rightarrow> ('w, rule_impl) drv_io" where
  "LogicManager_putRule we t label whn thn =
     answer (\<lambda>res. res_bind (unpack ''put_rule_res'' ''rule'' res) Rule_of)
       (LogicManager_execute we t (LogicManager_putRuleReq label whn thn))"

section \<open>Operations of rules\<close>

definition Rule_delete :: "'w world_env \<Rightarrow> nat \<Rightarrow> rule_impl \<Rightarrow> ('w, unit) drv_io" where
  "Rule_delete we t this = io_ignore (rpcExecute we t (Rule_deleteReq (ru_label this)) None)"

definition Rule_isDeleted :: "'w world_env \<Rightarrow> nat \<Rightarrow> rule_impl \<Rightarrow> ('w, bool) drv_io" where
  "Rule_isDeleted we t this = map_io (\<lambda>r. r = None) (LogicManager_getRule we t (ru_label this))"

definition Rule_setLabel :: "'w world_env \<Rightarrow> nat \<Rightarrow> rule_impl \<Rightarrow> string \<Rightarrow> ('w, rule_impl) drv_io" where
  "Rule_setLabel we t this label =
     io_bind (rpcExecute we t (Rule_setLabelReq (ru_label this) label) None) (\<lambda>_.
     io_return (this\<lparr>ru_label := label\<rparr>))"

section \<open>Lemmas\<close>

lemma s_map_append: "s_map f (s_append s t) = s_append (s_map f s) (s_map f t)"
  by (induction s) (simp_all split: sum.split)

lemma mapped_parts_elements: "mapped_parts a b f parts = elements_of_parts a b f parts"
  unfolding mapped_parts_def elements_of_parts_def
  by (induction parts) (simp_all add: s_map_append split: sum.split)

text \<open>
  An answer of a query as the protocol encodes it, its concepts by variable and the message of its explainables, if any; and the concept map a user sees.
\<close>

definition answer_wf :: "(string \<times> concept) list \<times> proto option \<Rightarrow> bool" where
  "answer_wf ans \<longleftrightarrow>
     distinct (map fst (fst ans)) \<and> (\<forall>(var, c) \<in> set (fst ans). concept_wf c) \<and> snd ans \<noteq> Some PUndefined"

definition answer_encoding :: "(string \<times> concept) list \<times> proto option \<Rightarrow> proto" where
  "answer_encoding ans = concept_map_encoding (fst ans) (opt_proto id (snd ans))"

definition answer_view :: "(string \<times> concept) list \<times> proto option \<Rightarrow> concept_map" where
  "answer_view ans =
     \<lparr>cm_concepts = map (\<lambda>(var, c). (var, Some c)) (fst ans),
      cm_explainables = (case snd ans of None \<Rightarrow> emptyExplainables | Some expl \<Rightarrow> ofExplainables expl)\<rparr>"

lemma answer_read:
  assumes "answer_wf ans"
  shows "ConceptMap_of show_msg (answer_encoding ans) = Inr (answer_view ans)"
proof -
  obtain m expl where ans: "ans = (m, expl)" by fastforce
  have "map_throw (\<lambda>(var, c). map_sum id (Pair var) (Concept_of show_msg c))
      (map (\<lambda>(k, c). (k, concept_encoding ''Concept'' c)) m) = Inr (map (\<lambda>(k, c). (k, Some c)) m)"
    using assms ans by (intro map_throw_pairs) (auto simp: answer_wf_def concept_read)
  moreover have "jmap_of_entries (map (\<lambda>(k, c). (k, Some c)) m) = map (\<lambda>(k, c). (k, Some c)) m"
    using assms ans by (intro jmap_of_distinct) (simp add: answer_wf_def case_prod_unfold comp_def)
  ultimately show ?thesis
    using assms ans
    by (cases expl) (auto simp: ConceptMap_of_def answer_encoding_def concept_map_encoding_def answer_view_def answer_wf_def has_field_def)
qed

interpretation answers: message_reader "ConceptMap_of show_msg" answer_encoding answer_wf answer_view
  for show_msg
  by unfold_locales (rule answer_read)

text \<open>A tree of a fetch query has a map at its root.\<close>

definition tree_encoding :: "(string \<times> node) list \<Rightarrow> proto" where
  "tree_encoding m = PMsg ''ReadableConceptTree'' [(''root'', PMsg ''NodeMap'' [(''map'', map_encoding node_encoding m)])]"

lemma tree_read:
  assumes "node_wf (NodeMap m)"
  shows "res_bind (ReadableConceptTree_of show_msg (tree_encoding m)) node_asJSON = Inr (node_json (NodeMap m))"
proof -
  have "map_throw (\<lambda>(label, node). map_sum id (Pair label) (Node_of show_msg node))
      (map (\<lambda>(k, n). (k, node_encoding n)) m) = Inr m"
    using map_throw_pairs [of m "Node_of show_msg" node_encoding "\<lambda>n. n"] assms node_read
    by fastforce
  moreover have "jmap_of_entries m = m" using assms by (simp add: jmap_of_distinct)
  ultimately have "ReadableConceptTree_of show_msg (tree_encoding m) = Inr (NodeMap m)"
    by (simp add: ReadableConceptTree_of_def NodeMap_of_def tree_encoding_def field_def)
  then show ?thesis using node_read(2) [OF assms] by simp
qed

interpretation trees: message_reader "\<lambda>p. res_bind (ReadableConceptTree_of show_msg p) node_asJSON" tree_encoding
  "\<lambda>m. node_wf (NodeMap m)" "\<lambda>m. node_json (NodeMap m)"
  for show_msg
  by unfold_locales (rule tree_read)

section \<open>Properties\<close>

text \<open>
  C11. A get query delivers every answer, once and in order: when the server answers in any number of parts of any size, the
  stream the user gets consists of the concept maps of the answers of all parts, in the order of their arrival, and ends. Each concept map has
  every concept of its answer under its variable. Its explainables are empty when the answer has none, and otherwise those that the reader
  of explainables makes of the message; that reader misfiles the explainables of attributes (see the property on it).
\<close>

theorem query_answers_in_order:
  assumes "tx_isOpen (dr_transaction s t)"
    and "we_stream we (tx_address (dr_transaction s t)) (QueryManager_getReq query (query_options opts)) (net_world s) =
      (s_array (encoded_parts answer_encoding [''query_manager_res_part'', ''get_res_part'', ''answers''] anss), w)"
    and "\<forall>ans \<in> set (concat anss). answer_wf ans"
  shows "\<exists>answers. QueryManager_get we t query opts s = (Inr answers, s\<lparr>net_world := w\<rparr>) \<and>
    s_collect answers = Some (Inr (map
      (\<lambda>(m, expl). \<lparr>cm_concepts = map (\<lambda>(var, c). (var, Some c)) m,
         cm_explainables = (case expl of None \<Rightarrow> emptyExplainables | Some e \<Rightarrow> ofExplainables e)\<rparr>)
      (concat anss)))"
proof -
  have "elements_of_parts ''get_res_part'' ''answers'' (ConceptMap_of (we_show we))
      (s_map (field ''query_manager_res_part'')
        (s_array (encoded_parts answer_encoding [''query_manager_res_part'', ''get_res_part'', ''answers''] anss))) =
      s_array (map answer_view (concat anss))"
    by (rule answers.unwrapped_elements_in_order) (use assms(3) in auto)
  with assms(1,2) show ?thesis
    by (simp add: QueryManager_get_def QueryManager_stream_def map_io_def rpcStream_def io_simps mapped_parts_elements
        answer_view_def case_prod_unfold)
qed

theorem query_answers_in_order_witness:
  "let expl = PMsg ''Explainables'' [(''relations'', map_encoding (\<lambda>n. PMsg ''Explainable'' [(''id'', PNumber (Num n))]) [(''x'', 5)])];
       parts = encoded_parts answer_encoding [''query_manager_res_part'', ''get_res_part'', ''answers'']
         [[([(''x'', demo_thing [1])], None)], [], [([(''x'', demo_thing [2])], Some expl)]] in
   \<exists>answers a b s'. QueryManager_get (demo_concept_env (s_array parts)) 0 ''match $x isa thing; get;'' None demo_driver =
       (Inr answers, s') \<and>
     s_collect answers = Some (Inr [a, b]) \<and> cm_get a ''x'' = Some (Some (demo_thing [1])) \<and>
     cm_get b ''x'' = Some (Some (demo_thing [2])) \<and>
     explainables_relation (cm_explainables b) ''x'' = Inr \<lparr>ex_conjunction = [], ex_id = Num 5\<rparr>"
proof -
  let ?expl = "PMsg ''Explainables'' [(''relations'', map_encoding (\<lambda>n. PMsg ''Explainable'' [(''id'', PNumber (Num n))]) [(''x'', 5)])]"
  let ?parts = "[[([(''x'', demo_thing [1])], None)], [], [([(''x'', demo_thing [2])], Some ?expl)]]"
  have is_open: "tx_isOpen (dr_transaction demo_driver 0)" by (simp add: demo_driver_def)
  have wf: "\<forall>ans \<in> set (concat ?parts). answer_wf ans" by (simp add: answer_wf_def demo_thing_wf)
  have stream: "we_stream (demo_concept_env ps) a req w = (ps, Suc w)" for ps a req w by (simp add: demo_concept_env_def)
  have empty: "p_map PUndefined = []" by (simp add: p_map_def)
  have "explainables_relation (ofExplainables ?expl) ''x'' = Inr \<lparr>ex_conjunction = [], ex_id = Num 5\<rparr>"
    by (simp add: ofExplainables_def ofExplainable_def explainables_relation_def Let_def empty)
  with query_answers_in_order [OF is_open stream wf] show ?thesis by (fastforce simp: cm_get_def)
qed

text \<open>
  C20. A fetch query renders every tree: when the server answers in any number of parts, the user gets the JSON objects of the trees of all
  parts in the order of their arrival.
\<close>

theorem fetch_answers_in_order:
  assumes "tx_isOpen (dr_transaction s t)"
    and "we_stream we (tx_address (dr_transaction s t)) (QueryManager_fetchReq query (query_options opts)) (net_world s) =
      (s_array (encoded_parts tree_encoding [''query_manager_res_part'', ''fetch_res_part'', ''answers''] mss), w)"
    and "\<forall>m \<in> set (concat mss). node_wf (NodeMap m)"
  shows "QueryManager_fetch we t query opts s =
    (Inr (s_array (map (\<lambda>m. node_json (NodeMap m)) (concat mss))), s\<lparr>net_world := w\<rparr>)"
proof -
  have "elements_of_parts ''fetch_res_part'' ''answers''
      (\<lambda>p. res_bind (ReadableConceptTree_of (we_show we) p) node_asJSON)
      (s_map (field ''query_manager_res_part'')
        (s_array (encoded_parts tree_encoding [''query_manager_res_part'', ''fetch_res_part'', ''answers''] mss))) =
      s_array (map (\<lambda>m. node_json (NodeMap m)) (concat mss))"
    by (rule trees.unwrapped_elements_in_order) (use assms(3) in auto)
  with assms(1,2) show ?thesis
    by (simp add: QueryManager_fetch_def QueryManager_stream_def map_io_def rpcStream_def io_simps mapped_parts_elements)
qed

theorem fetch_answers_in_order_witness:
  "fst (QueryManager_fetch
     (demo_concept_env (s_array (encoded_parts tree_encoding [''query_manager_res_part'', ''fetch_res_part'', ''answers'']
        [[[(''a'', Leaf None)]], [[(''a'', NodeList [])]]]))) 0 ''match $x isa thing; fetch $x;'' None demo_driver) =
   Inr (s_array [JSObject [(''a'', JSNull)], JSObject [(''a'', JSArray [])]])"
proof -
  let ?parts = "[[[(''a'', Leaf None)]], [[(''a'', NodeList [])]]]"
  have is_open: "tx_isOpen (dr_transaction demo_driver 0)" by (simp add: demo_driver_def)
  have wf: "\<forall>m \<in> set (concat ?parts). node_wf (NodeMap m)" by simp
  have "we_stream (demo_concept_env ps) a req w = (ps, Suc w)" for ps a req w by (simp add: demo_concept_env_def)
  from fetch_answers_in_order [OF is_open this wf] show ?thesis by (simp add: own_properties_plain array_index_no_digit)
qed

end
