(* ===== verification/Blocking_Queue.thy ===== *)
theory Blocking_Queue
  imports TDB_Prelude
begin

text \<open>
  The queue of \<open>common/util/BlockingQueue.ts\<close>. It keeps two arrays: promises nobody has taken yet
  and resolvers nobody has called yet. A promise is its number, given in order of creation; the
  resolver of a promise has the same number; \<open>bq_settled\<close> says which promises are resolved and
  with what. \<open>take\<close> returns the number of the promise the caller awaits.

  The locale \<open>fifo_queue\<close> is the contract the response queues rely on: the n-th call of \<open>take\<close>
  awaits the n-th element ever added, whichever of the two calls comes first.
\<close>

record 'a blocking_queue =
  bq_promises :: "nat list"
  bq_resolvers :: "nat list"
  bq_next :: nat
  bq_settled :: "nat \<Rightarrow> 'a option"

definition bq_new :: "'a blocking_queue" where
  "bq_new = \<lparr>bq_promises = [], bq_resolvers = [], bq_next = 0, bq_settled = (\<lambda>_. None)\<rparr>"

definition addPromise :: "'a blocking_queue \<Rightarrow> 'a blocking_queue" where
  "addPromise q =
     q\<lparr>bq_promises := bq_promises q @ [bq_next q], bq_resolvers := bq_resolvers q @ [bq_next q],
       bq_next := Suc (bq_next q)\<rparr>"

definition bq_add :: "'a \<Rightarrow> 'a blocking_queue \<Rightarrow> 'a blocking_queue" where
  "bq_add x q =
     (let q' = (if bq_resolvers q = [] then addPromise q else q) in
      case bq_resolvers q' of
        [] \<Rightarrow> q'
      | r # rs \<Rightarrow> q'\<lparr>bq_resolvers := rs, bq_settled := (bq_settled q')(r := Some x)\<rparr>)"

definition bq_take :: "'a blocking_queue \<Rightarrow> nat \<times> 'a blocking_queue" where
  "bq_take q =
     (let q' = (if bq_promises q = [] then addPromise q else q) in
      case bq_promises q' of
        [] \<Rightarrow> (bq_next q', q')
      | p # ps \<Rightarrow> (p, q'\<lparr>bq_promises := ps\<rparr>))"

text \<open>A run of calls from several clients, in the order the event loop makes them.\<close>

datatype 'a bq_call = AddCall 'a | TakeCall

fun bq_run :: "'a bq_call list \<Rightarrow> 'a blocking_queue \<Rightarrow> nat list \<times> 'a blocking_queue" where
  "bq_run [] q = ([], q)"
| "bq_run (AddCall x # cs) q = bq_run cs (bq_add x q)"
| "bq_run (TakeCall # cs) q =
     (let (p, q') = bq_take q; (ps, q'') = bq_run cs q' in (p # ps, q''))"

fun calls_added :: "'a bq_call list \<Rightarrow> 'a list" where
  "calls_added [] = []"
| "calls_added (AddCall x # cs) = x # calls_added cs"
| "calls_added (TakeCall # cs) = calls_added cs"

fun calls_taken :: "'a bq_call list \<Rightarrow> nat" where
  "calls_taken [] = 0"
| "calls_taken (AddCall x # cs) = calls_taken cs"
| "calls_taken (TakeCall # cs) = Suc (calls_taken cs)"

section \<open>Abstraction: what was added, how many were taken\<close>

definition bq_added :: "'a blocking_queue \<Rightarrow> 'a list" where
  "bq_added q = map (\<lambda>i. the (bq_settled q i)) [0..<bq_next q - length (bq_resolvers q)]"

definition bq_taken :: "'a blocking_queue \<Rightarrow> nat" where
  "bq_taken q = bq_next q - length (bq_promises q)"

text \<open>
  The shape of a queue after \<open>a\<close> calls of \<open>add\<close> and \<open>t\<close> calls of \<open>take\<close>: one of the two arrays is
  empty, the other holds the surplus, in order.
\<close>

definition bq_shape :: "nat \<Rightarrow> nat \<Rightarrow> 'a blocking_queue \<Rightarrow> bool" where
  "bq_shape a t q \<longleftrightarrow>
     bq_promises q = [t..<a] \<and> bq_resolvers q = [a..<t] \<and> bq_next q = max a t \<and>
     (\<forall>i. bq_settled q i \<noteq> None \<longleftrightarrow> i < a)"

definition bq_invar :: "'a blocking_queue \<Rightarrow> bool" where
  "bq_invar q \<longleftrightarrow> bq_shape (bq_next q - length (bq_resolvers q)) (bq_next q - length (bq_promises q)) q"

section \<open>The contract of the queue\<close>

locale fifo_queue =
  fixes new :: 'q
    and add :: "'a \<Rightarrow> 'q \<Rightarrow> 'q"
    and take :: "'q \<Rightarrow> nat \<times> 'q"
    and settled :: "'q \<Rightarrow> nat \<Rightarrow> 'a option"
    and added :: "'q \<Rightarrow> 'a list"
    and taken :: "'q \<Rightarrow> nat"
    and invar :: "'q \<Rightarrow> bool"
  assumes new_laws: "invar new" "added new = []" "taken new = 0"
    and invar_add: "invar q \<Longrightarrow> invar (add x q)"
    and added_add: "invar q \<Longrightarrow> added (add x q) = added q @ [x]"
    and taken_add: "invar q \<Longrightarrow> taken (add x q) = taken q"
    and invar_take: "invar q \<Longrightarrow> invar (snd (take q))"
    and take_ticket: "invar q \<Longrightarrow> fst (take q) = taken q"
    and added_take: "invar q \<Longrightarrow> added (snd (take q)) = added q"
    and taken_take: "invar q \<Longrightarrow> taken (snd (take q)) = Suc (taken q)"
    and settled_added:
      "invar q \<Longrightarrow> settled q i = (if i < length (added q) then Some (added q ! i) else None)"
begin

lemma add_all:
  "invar q \<Longrightarrow> invar (fold add xs q) \<and> added (fold add xs q) = added q @ xs \<and> taken (fold add xs q) = taken q"
  by (induction xs arbitrary: q) (simp_all add: invar_add added_add taken_add)

lemma add_all_new: "invar (fold add xs new)" "added (fold add xs new) = xs" "taken (fold add xs new) = 0"
  using add_all [of new xs] by (simp_all add: new_laws)

lemma settled_stable: "invar q \<Longrightarrow> settled q i = Some x \<Longrightarrow> settled (add y q) i = Some x"
  by (auto simp: settled_added invar_add added_add nth_append split: if_splits)

lemma take_delivers:
  assumes "invar q"
  shows "settled (fold add xs (snd (take q))) (fst (take q)) =
     (let all = added q @ xs in if taken q < length all then Some (all ! taken q) else None)"
  using assms add_all [OF invar_take [OF assms], of xs]
  by (simp add: settled_added take_ticket added_take Let_def)

lemmas fifo_laws =
  new_laws invar_add added_add taken_add invar_take take_ticket added_take taken_take settled_added

end

section \<open>The queue keeps the contract\<close>

lemma bq_shape_counts:
  assumes "bq_shape a t q"
  shows "bq_next q - length (bq_resolvers q) = a" "bq_next q - length (bq_promises q) = t"
  using assms by (auto simp: bq_shape_def)

lemma bq_invar_iff: "bq_invar q \<longleftrightarrow> (\<exists>a t. bq_shape a t q)"
  by (metis bq_invar_def bq_shape_counts)

lemma bq_shape_new: "bq_shape 0 0 bq_new"
  by (simp add: bq_shape_def bq_new_def)

lemma bq_shape_add:
  assumes "bq_shape a t q"
  shows "bq_shape (Suc a) t (bq_add x q)" "bq_settled (bq_add x q) = (bq_settled q)(a \<mapsto> x)"
proof -
  have "bq_shape (Suc a) t (bq_add x q) \<and> bq_settled (bq_add x q) = (bq_settled q)(a \<mapsto> x)"
  proof (cases "t \<le> a")
    case True
    with assms show ?thesis
      by (auto simp: bq_shape_def bq_add_def addPromise_def less_Suc_eq)
  next
    case False
    with assms have "bq_resolvers q = a # [Suc a..<t]"
      by (simp add: bq_shape_def upt_conv_Cons)
    then have "bq_add x q = q\<lparr>bq_resolvers := [Suc a..<t], bq_settled := (bq_settled q)(a \<mapsto> x)\<rparr>"
      by (simp add: bq_add_def)
    with False assms show ?thesis
      by (auto simp: bq_shape_def less_Suc_eq)
  qed
  then show "bq_shape (Suc a) t (bq_add x q)" "bq_settled (bq_add x q) = (bq_settled q)(a \<mapsto> x)"
    by simp_all
qed

lemma bq_shape_take:
  assumes "bq_shape a t q"
  shows "fst (bq_take q) = t" "bq_shape a (Suc t) (snd (bq_take q))"
    "bq_settled (snd (bq_take q)) = bq_settled q"
proof -
  have "fst (bq_take q) = t \<and> bq_shape a (Suc t) (snd (bq_take q)) \<and>
      bq_settled (snd (bq_take q)) = bq_settled q"
  proof (cases "a \<le> t")
    case True
    with assms show ?thesis
      by (auto simp: bq_shape_def bq_take_def addPromise_def)
  next
    case False
    with assms have "bq_promises q = t # [Suc t..<a]"
      by (simp add: bq_shape_def upt_conv_Cons)
    then have "bq_take q = (t, q\<lparr>bq_promises := [Suc t..<a]\<rparr>)"
      by (simp add: bq_take_def)
    with False assms show ?thesis
      by (auto simp: bq_shape_def)
  qed
  then show "fst (bq_take q) = t" "bq_shape a (Suc t) (snd (bq_take q))"
    "bq_settled (snd (bq_take q)) = bq_settled q"
    by simp_all
qed

lemma bq_added_shape: "bq_shape a t q \<Longrightarrow> bq_added q = map (\<lambda>i. the (bq_settled q i)) [0..<a]"
  by (simp add: bq_added_def bq_shape_counts)

lemma bq_taken_shape: "bq_shape a t q \<Longrightarrow> bq_taken q = t"
  by (simp add: bq_taken_def bq_shape_counts)

lemma bq_added_add: "bq_shape a t q \<Longrightarrow> bq_added (bq_add x q) = bq_added q @ [x]"
  using bq_shape_add [of a t q x] by (simp add: bq_added_shape)

lemma bq_settled_shape:
  "bq_shape a t q \<Longrightarrow> bq_settled q i = (if i < length (bq_added q) then Some (bq_added q ! i) else None)"
  using bq_added_shape [of a t q] by (auto simp: bq_shape_def)

interpretation bq: fifo_queue bq_new bq_add bq_take bq_settled bq_added bq_taken bq_invar
proof unfold_locales
  show "bq_invar bq_new" "bq_added bq_new = []" "bq_taken bq_new = 0"
    using bq_shape_new bq_added_shape [OF bq_shape_new] bq_taken_shape [OF bq_shape_new]
    by (auto simp: bq_invar_iff)
next
  fix q :: "'a blocking_queue" and x i
  assume "bq_invar q"
  then obtain a t where shape: "bq_shape a t q" by (auto simp: bq_invar_iff)
  note steps = bq_shape_add [OF shape, of x] bq_shape_take [OF shape]
  show "bq_invar (bq_add x q)" "bq_invar (snd (bq_take q))"
    using steps by (auto simp: bq_invar_iff)
  show "bq_added (bq_add x q) = bq_added q @ [x]" by (rule bq_added_add [OF shape])
  show "bq_taken (bq_add x q) = bq_taken q" "fst (bq_take q) = bq_taken q"
    "bq_taken (snd (bq_take q)) = Suc (bq_taken q)"
    using steps shape by (simp_all add: bq_taken_shape)
  show "bq_added (snd (bq_take q)) = bq_added q"
    using steps shape by (simp add: bq_added_shape)
  show "bq_settled q i = (if i < length (bq_added q) then Some (bq_added q ! i) else None)"
    by (rule bq_settled_shape [OF shape])
qed

lemma bq_run_laws:
  assumes "bq_run cs q = (ps, q')" "bq_invar q"
  shows "bq_invar q' \<and> ps = [bq_taken q..<bq_taken q + calls_taken cs] \<and>
    bq_added q' = bq_added q @ calls_added cs \<and> bq_taken q' = bq_taken q + calls_taken cs"
  using assms
proof (induction cs q arbitrary: ps q' rule: bq_run.induct)
  case (1 q)
  then show ?case by simp
next
  case (2 x cs q)
  then show ?case by (simp add: bq.fifo_laws)
next
  case (3 cs q)
  obtain qs q'' where run: "bq_run cs (snd (bq_take q)) = (qs, q'')" by fastforce
  with "3.prems" have ps: "ps = bq_taken q # qs" "q' = q''"
    by (auto simp: bq.fifo_laws Let_def split_beta)
  have "bq_invar q'' \<and> qs = [Suc (bq_taken q)..<Suc (bq_taken q) + calls_taken cs] \<and>
      bq_added q'' = bq_added q @ calls_added cs \<and> bq_taken q'' = Suc (bq_taken q) + calls_taken cs"
    using "3.IH" [OF refl prod.collapse run] "3.prems"(2)
    by (simp add: bq.fifo_laws)
  then show ?case by (simp add: ps upt_conv_Cons del: upt_Suc)
qed

section \<open>Properties\<close>

text \<open>
  C16. The blocking queue is first-in first-out for every interleaving of calls: the promises handed
  to the takers are the promises number 0, 1, 2, ... in the order of the calls, and promise number
  \<open>k\<close> is settled exactly when \<open>k\<close> elements were added before its own, with the k-th element. So
  the n-th taker gets the n-th element, whether it came before the element or after.
\<close>

theorem blocking_queue_fifo:
  "fst (bq_run cs bq_new) = [0..<calls_taken cs] \<and>
   bq_settled (snd (bq_run cs bq_new)) k =
     (if k < length (calls_added cs) then Some (calls_added cs ! k) else None)"
proof -
  obtain ps q where run: "bq_run cs bq_new = (ps, q)" by (cases "bq_run cs bq_new")
  from bq_run_laws [OF run] have "bq_invar q" "ps = [0..<calls_taken cs]" "bq_added q = calls_added cs"
    by (simp_all add: bq.fifo_laws)
  with run show ?thesis by (simp add: bq.fifo_laws)
qed

text \<open>
  The queue keeps no more than the surplus: after any run one of its two arrays is empty, and
  the lengths of the arrays are the elements nobody took and the takers nobody served.
\<close>

lemma blocking_queue_surplus:
  "length (bq_promises (snd (bq_run cs bq_new))) = length (calls_added cs) - calls_taken cs \<and>
   length (bq_resolvers (snd (bq_run cs bq_new))) = calls_taken cs - length (calls_added cs)"
proof -
  obtain ps q where run: "bq_run cs bq_new = (ps, q)" by (cases "bq_run cs bq_new")
  from bq_run_laws [OF run] have laws: "bq_invar q" "bq_added q = calls_added cs" "bq_taken q = calls_taken cs"
    by (simp_all add: bq.fifo_laws)
  then obtain a t where shape: "bq_shape a t q" by (auto simp: bq_invar_iff)
  with laws have "a = length (calls_added cs)" "t = calls_taken cs"
    by (auto simp: bq_added_shape bq_taken_shape dest: arg_cong [of _ _ length])
  with shape run show ?thesis by (simp add: bq_shape_def)
qed

end
