(* ===== verification/Response_Collector.thy ===== *)
theory Response_Collector
  imports Error_Messages Blocking_Queue
begin

text \<open>
  The response queues of \<open>stream/ResponseCollector.ts\<close>: one blocking queue for each outstanding request
  of a transaction, found by request id. A queue element is a response or the mark that the stream is
  done, perhaps with an error. An asynchronous \<open>take\<close> has two halves: the call, which hands the caller a
  promise, and what the caller resumes with once the promise is settled.

  The locale \<open>mailbox\<close> is what the bidirectional stream relies on: a history of elements for each
  request, which \<open>put\<close> extends for one request and \<open>close\<close> for all of them.
\<close>

section \<open>Queue elements\<close>

datatype 'a queue_element =
    QueueElement
  | Value 'a
  | Done "error_arg option"

fun isValue :: "'a queue_element \<Rightarrow> bool" where
  "isValue (Value _) = True"
| "isValue _ = False"

fun isDone :: "'a queue_element \<Rightarrow> bool" where
  "isDone (Done _) = True"
| "isDone _ = False"

fun hasError :: "'a queue_element \<Rightarrow> bool" where
  "hasError (Done e) \<longleftrightarrow> e \<noteq> None"
| "hasError _ = False"

section \<open>One queue\<close>

type_synonym 'a response_queue = "'a queue_element blocking_queue"

definition rq_new :: "'a response_queue" where
  "rq_new = bq_new"

definition rq_put :: "'a \<Rightarrow> 'a response_queue \<Rightarrow> 'a response_queue" where
  "rq_put x q = bq_add (Value x) q"

definition rq_close :: "error_arg option \<Rightarrow> 'a response_queue \<Rightarrow> 'a response_queue" where
  "rq_close err q = bq_add (Done err) q"

text \<open>What \<open>take\<close> does with the element it has waited for.\<close>

fun rq_resume :: "'a queue_element \<Rightarrow> thrown + 'a" where
  "rq_resume (Value x) = Inr x"
| "rq_resume (Done (Some err)) = Inl (typedb_driver_error err)"
| "rq_resume (Done None) = Inl (throw_template TRANSACTION_CLOSED)"
| "rq_resume QueueElement = Inl (throw_template ILLEGAL_STATE)"

definition rq_take :: "'a response_queue \<Rightarrow> nat \<times> 'a response_queue" where
  "rq_take q = bq_take q"

text \<open>What the caller that was handed promise \<open>p\<close> has: nothing yet, an exception, or a response.\<close>

definition rq_await :: "'a response_queue \<Rightarrow> nat \<Rightarrow> (thrown + 'a) option" where
  "rq_await q p = map_option rq_resume (bq_settled q p)"

section \<open>The collector\<close>

type_synonym 'a collector = "(string \<times> 'a response_queue) list"

definition rc_new :: "'a collector" where
  "rc_new = []"

definition rc_queue :: "string \<Rightarrow> 'a collector \<Rightarrow> 'a collector" where
  "rc_queue uuid c = jmap_set uuid rq_new c"

definition rc_get :: "string \<Rightarrow> 'a collector \<Rightarrow> 'a response_queue option" where
  "rc_get uuid c = jmap_get c uuid"

definition rc_remove :: "string \<Rightarrow> 'a collector \<Rightarrow> 'a collector" where
  "rc_remove requestId c = jmap_delete requestId c"

definition rc_close :: "error_arg option \<Rightarrow> 'a collector \<Rightarrow> 'a collector" where
  "rc_close err c = map (\<lambda>(k, q). (k, rq_close err q)) c"

text \<open>The queue found for a request is an object that callers share: an update changes it in place.\<close>

definition rc_update :: "string \<Rightarrow> ('a response_queue \<Rightarrow> 'a response_queue) \<Rightarrow> 'a collector \<Rightarrow> 'a collector" where
  "rc_update uuid f c = map (\<lambda>(k, q). (k, if k = uuid then f q else q)) c"

definition rc_put :: "string \<Rightarrow> 'a \<Rightarrow> 'a collector \<Rightarrow> 'a collector" where
  "rc_put uuid x c = rc_update uuid (rq_put x) c"

definition rc_take :: "string \<Rightarrow> 'a collector \<Rightarrow> nat option \<times> 'a collector" where
  "rc_take uuid c =
     (map_option (\<lambda>q. fst (rq_take q)) (rc_get uuid c), rc_update uuid (\<lambda>q. snd (rq_take q)) c)"

definition rc_await :: "string \<Rightarrow> nat \<Rightarrow> 'a collector \<Rightarrow> (thrown + 'a) option" where
  "rc_await uuid p c = (case rc_get uuid c of None \<Rightarrow> None | Some q \<Rightarrow> rq_await q p)"

section \<open>Abstraction\<close>

definition rc_history :: "'a collector \<Rightarrow> string \<Rightarrow> 'a queue_element list option" where
  "rc_history c uuid = map_option bq_added (rc_get uuid c)"

definition rc_invar :: "'a collector \<Rightarrow> bool" where
  "rc_invar c \<longleftrightarrow> jmap_wf c \<and> (\<forall>q \<in> set (jmap_values c). bq_invar q)"

section \<open>The contract of the collector\<close>

locale mailbox =
  fixes new :: 'c
    and register :: "string \<Rightarrow> 'c \<Rightarrow> 'c"
    and put :: "string \<Rightarrow> 'a \<Rightarrow> 'c \<Rightarrow> 'c"
    and close :: "error_arg option \<Rightarrow> 'c \<Rightarrow> 'c"
    and take :: "string \<Rightarrow> 'c \<Rightarrow> nat option \<times> 'c"
    and history :: "'c \<Rightarrow> string \<Rightarrow> 'a queue_element list option"
    and invar :: "'c \<Rightarrow> bool"
  assumes invar_new: "invar new"
    and history_new: "history new k = None"
    and invar_ops: "invar c \<Longrightarrow> invar (register k c)" "invar c \<Longrightarrow> invar (put k x c)"
      "invar c \<Longrightarrow> invar (close err c)" "invar c \<Longrightarrow> invar (snd (take k c))"
    and history_register: "invar c \<Longrightarrow> history (register k c) j = (if j = k then Some [] else history c j)"
    and history_put:
      "invar c \<Longrightarrow> history (put k x c) j =
         (if j = k then map_option (\<lambda>h. h @ [Value x]) (history c j) else history c j)"
    and history_close: "invar c \<Longrightarrow> history (close err c) j = map_option (\<lambda>h. h @ [Done err]) (history c j)"
    and history_take: "invar c \<Longrightarrow> history (snd (take k c)) j = history c j"
begin

lemma known_put: "invar c \<Longrightarrow> history (put k x c) j = None \<longleftrightarrow> history c j = None"
  by (simp add: history_put)

lemma known_close: "invar c \<Longrightarrow> history (close err c) j = None \<longleftrightarrow> history c j = None"
  by (simp add: history_close)

lemma put_all:
  "invar c \<Longrightarrow> invar (fold (\<lambda>(k, x). put k x) xs c) \<and>
   history (fold (\<lambda>(k, x). put k x) xs c) j =
     map_option (\<lambda>h. h @ map (\<lambda>(k, x). Value x) (filter (\<lambda>(k, x). k = j) xs)) (history c j)"
proof (induction xs arbitrary: c)
  case Nil
  then show ?case by (simp add: option.map_ident)
next
  case (Cons x xs)
  then show ?case
    by (cases x) (auto simp: invar_ops history_put option.map_comp comp_def)
qed

lemmas mailbox_laws =
  invar_new history_new invar_ops history_register history_put history_close history_take

end

lemma rc_get_map: "rc_get k (map (\<lambda>(k, q). (k, f k q)) c) = map_option (f k) (rc_get k c)"
  unfolding rc_get_def by (induction c) auto

lemma rc_get_update: "rc_get k (rc_update uuid f c) = (if k = uuid then map_option f (rc_get k c) else rc_get k c)"
  unfolding rc_update_def using rc_get_map [of k "\<lambda>k q. if k = uuid then f q else q" c]
  by (simp add: option.map_ident)

lemma rc_get_close: "rc_get k (rc_close err c) = map_option (rq_close err) (rc_get k c)"
  unfolding rc_close_def by (rule rc_get_map)

lemma rc_get_queue: "rc_get k (rc_queue uuid c) = (if k = uuid then Some rq_new else rc_get k c)"
  by (simp add: rc_get_def rc_queue_def jmap_get_set)

lemma jmap_wf_map: "jmap_wf (map (\<lambda>(k, q). (k, f k q)) c) \<longleftrightarrow> jmap_wf c"
  by (simp add: jmap_wf_def split_beta comp_def)

lemma rc_invar_get: "rc_invar c \<Longrightarrow> rc_get k c = Some q \<Longrightarrow> bq_invar q"
  unfolding rc_invar_def rc_get_def by (metis image_eqI map_of_SomeD set_map snd_conv)

lemma rc_invar_map:
  "rc_invar c \<Longrightarrow> (\<And>k q. bq_invar q \<Longrightarrow> bq_invar (f k q)) \<Longrightarrow> rc_invar (map (\<lambda>(k, q). (k, f k q)) c)"
  unfolding rc_invar_def jmap_wf_map by auto

lemma rc_invar_queue: "rc_invar c \<Longrightarrow> rc_invar (rc_queue uuid c)"
  unfolding rc_invar_def rc_queue_def rq_new_def
  using set_jmap_set [of uuid bq_new c] by (fastforce simp: jmap_wf_set bq.fifo_laws)

lemma rc_invar_update:
  "rc_invar c \<Longrightarrow> (\<And>q. bq_invar q \<Longrightarrow> bq_invar (f q)) \<Longrightarrow> rc_invar (rc_update uuid f c)"
  unfolding rc_update_def by (rule rc_invar_map) auto

interpretation rc: mailbox rc_new rc_queue rc_put rc_close rc_take rc_history rc_invar
proof unfold_locales
  show "rc_invar rc_new" by (simp add: rc_invar_def rc_new_def jmap_wf_def)
  show "rc_history rc_new k = None" for k by (simp add: rc_history_def rc_get_def rc_new_def)
next
  fix c :: "'a collector" and k j x err
  assume inv: "rc_invar c"
  show "rc_invar (rc_queue k c)" using inv by (rule rc_invar_queue)
  show "rc_invar (rc_put k x c)"
    using inv by (simp add: rc_put_def rq_put_def rc_invar_update bq.fifo_laws)
  show "rc_invar (rc_close err c)"
    using inv unfolding rc_close_def by (rule rc_invar_map) (simp add: rq_close_def bq.fifo_laws)
  show "rc_invar (snd (rc_take k c))"
    using inv by (simp add: rc_take_def rq_take_def rc_invar_update bq.fifo_laws)
  show "rc_history (rc_queue k c) j = (if j = k then Some [] else rc_history c j)"
    by (simp add: rc_history_def rc_get_queue rq_new_def bq.fifo_laws)
  show "rc_history (rc_put k x c) j =
      (if j = k then map_option (\<lambda>h. h @ [Value x]) (rc_history c j) else rc_history c j)"
    using rc_invar_get [OF inv]
    by (cases "rc_get j c") (auto simp: rc_history_def rc_put_def rc_get_update rq_put_def bq.fifo_laws)
  show "rc_history (rc_close err c) j = map_option (\<lambda>h. h @ [Done err]) (rc_history c j)"
    using rc_invar_get [OF inv]
    by (cases "rc_get j c") (simp_all add: rc_history_def rc_get_close rq_close_def bq.fifo_laws)
  show "rc_history (snd (rc_take k c)) j = rc_history c j"
    using rc_invar_get [OF inv]
    by (cases "rc_get j c") (auto simp: rc_history_def rc_take_def rc_get_update rq_take_def bq.fifo_laws)
qed

text \<open>A caller that waits with promise number \<open>p\<close> sees the p-th element of the history.\<close>

lemma rc_await_history:
  assumes "rc_invar c" "rc_history c k = Some h"
  shows "rc_await k p c = (if p < length h then Some (rq_resume (h ! p)) else None)"
proof -
  from assms(2) obtain q where q: "rc_get k c = Some q" "bq_added q = h"
    by (auto simp: rc_history_def)
  with rc_invar_get [OF assms(1)] show ?thesis
    by (simp add: rc_await_def rq_await_def bq.fifo_laws)
qed

section \<open>Properties\<close>

text \<open>
  Closing the collector releases every caller that waits. After the responses \<open>xs\<close> have been
  collected and the collector is closed, a caller of any known request with the k-th promise has the
  k-th response of its own request, in order of arrival; the first caller beyond the responses has the
  exception of the closing: the error that closed the stream as a driver error, or the template
  \<open>TRANSACTION_CLOSED\<close> when it was closed without one.
\<close>

lemma close_releases_takers:
  assumes "rc_invar c" and "rc_history c uuid = Some []"
    and ys: "ys = map snd (filter (\<lambda>(k, x). k = uuid) xs)"
    and c': "c' = rc_close err (fold (\<lambda>(k, x). rc_put k x) xs c)"
  shows "(\<forall>p < length ys. rc_await uuid p c' = Some (Inr (ys ! p))) \<and>
    rc_await uuid (length ys) c' =
      Some (Inl (case err of Some e \<Rightarrow> typedb_driver_error e | None \<Rightarrow> throw_template TRANSACTION_CLOSED))"
proof -
  let ?h = "map Value ys @ [Done err]"
  have "rc_invar (fold (\<lambda>(k, x). rc_put k x) xs c)"
    "rc_history (fold (\<lambda>(k, x). rc_put k x) xs c) uuid = Some (map Value ys)"
    using rc.put_all [OF assms(1), of xs uuid] assms(2) by (simp_all add: ys split_beta comp_def)
  then have "rc_invar c'" "rc_history c' uuid = Some ?h"
    by (simp_all add: c' rc.mailbox_laws)
  then have "rc_await uuid p c' = (if p < length ?h then Some (rq_resume (?h ! p)) else None)" for p
    by (rule rc_await_history)
  then show ?thesis by (simp add: nth_append split: option.split)
qed

lemma close_releases_takers_example:
  "rc_await ''a'' 0 (rc_close None (fold (\<lambda>(k, x). rc_put k x) [(''b'', False), (''a'', True)]
     (rc_queue ''b'' (rc_queue ''a'' rc_new)))) = Some (Inr True) \<and>
   rc_await ''a'' 1 (rc_close None (fold (\<lambda>(k, x). rc_put k x) [(''b'', False), (''a'', True)]
     (rc_queue ''b'' (rc_queue ''a'' rc_new)))) = Some (Inl (throw_template TRANSACTION_CLOSED))"
  using close_releases_takers [of "rc_queue ''b'' (rc_queue ''a'' rc_new)" "''a''" "[True]"
    "[(''b'', False), (''a'', True)]" _ None]
  by (simp add: rc.mailbox_laws)

end
