(* ===== verification/Batch_Dispatcher.thy ===== *)
theory Batch_Dispatcher
  imports Request_Builder
begin

text \<open>
  The request batching of \<open>stream/RequestTransmitter.ts\<close>. A dispatcher buffers the requests of one
  transaction and writes them to its gRPC stream in batches. The stream is outside the repository: what
  the dispatcher does to it is the list of its calls, in order. A pending \<open>setTimeout\<close> is an entry of
  the list of pending timers with its delay; the event loop fires it as a step of its own.

  The transmitter of a driver owns the dispatchers of all its transactions; a dispatcher is its number.
\<close>

section \<open>The dispatcher\<close>

datatype stream_call = Write proto | End

record dispatcher =
  bd_bufferedRequests :: "proto list"
  bd_isRunning :: bool
  bd_timers :: "nat list"
  bd_stream :: "stream_call list"

definition BATCH_WINDOW_SMALL_MILLIS :: nat where
  "BATCH_WINDOW_SMALL_MILLIS = 1"

definition BATCH_WINDOW_LARGE_MILLIS :: nat where
  "BATCH_WINDOW_LARGE_MILLIS = 3"

definition bd_new :: dispatcher where
  "bd_new = \<lparr>bd_bufferedRequests = [], bd_isRunning = False, bd_timers = [], bd_stream = []\<rparr>"

definition bd_sendNow :: "dispatcher \<Rightarrow> dispatcher" where
  "bd_sendNow d =
     d\<lparr>bd_stream := bd_stream d @ [Write (Transaction_clientReq (bd_bufferedRequests d))],
       bd_bufferedRequests := []\<rparr>"

definition bd_setSchedule :: "bool \<Rightarrow> dispatcher \<Rightarrow> dispatcher" where
  "bd_setSchedule first d =
     (let wait = (if first then BATCH_WINDOW_SMALL_MILLIS else BATCH_WINDOW_LARGE_MILLIS)
      in d\<lparr>bd_timers := bd_timers d @ [wait]\<rparr>)"

definition bd_sendScheduledBatch :: "dispatcher \<Rightarrow> dispatcher" where
  "bd_sendScheduledBatch d =
     (if bd_isRunning d then d else bd_setSchedule True (d\<lparr>bd_isRunning := True\<rparr>))"

definition bd_dispatch :: "proto \<Rightarrow> dispatcher \<Rightarrow> dispatcher" where
  "bd_dispatch req d =
     bd_sendScheduledBatch (d\<lparr>bd_bufferedRequests := bd_bufferedRequests d @ [req]\<rparr>)"

definition bd_dispatchNow :: "proto \<Rightarrow> dispatcher \<Rightarrow> dispatcher" where
  "bd_dispatchNow req d =
     bd_sendNow (d\<lparr>bd_bufferedRequests := bd_bufferedRequests d @ [req]\<rparr>)"

definition bd_end :: "dispatcher \<Rightarrow> dispatcher" where
  "bd_end d = d\<lparr>bd_stream := bd_stream d @ [End]\<rparr>"

text \<open>The callback that \<open>setSchedule\<close> gives to \<open>setTimeout\<close>, and the event loop that runs it.\<close>

definition bd_onTimeout :: "dispatcher \<Rightarrow> dispatcher" where
  "bd_onTimeout d =
     (if bd_bufferedRequests d \<noteq> [] then bd_setSchedule False (bd_sendNow d)
      else d\<lparr>bd_isRunning := False\<rparr>)"

definition bd_fire :: "dispatcher \<Rightarrow> dispatcher" where
  "bd_fire d =
     (case bd_timers d of
        [] \<Rightarrow> d
      | _ # ts \<Rightarrow> bd_onTimeout (d\<lparr>bd_timers := ts\<rparr>))"

datatype dispatcher_step =
    Dispatch proto
  | DispatchNow proto
  | Fire
  | Close

fun bd_step :: "dispatcher_step \<Rightarrow> dispatcher \<Rightarrow> dispatcher" where
  "bd_step (Dispatch r) d = bd_dispatch r d"
| "bd_step (DispatchNow r) d = bd_dispatchNow r d"
| "bd_step Fire d = bd_fire d"
| "bd_step Close d = bd_end d"

abbreviation bd_run :: "dispatcher_step list \<Rightarrow> dispatcher \<Rightarrow> dispatcher" where
  "bd_run steps d \<equiv> fold bd_step steps d"

section \<open>What was handed over and what was written\<close>

fun steps_requests :: "dispatcher_step list \<Rightarrow> proto list" where
  "steps_requests [] = []"
| "steps_requests (Dispatch r # ss) = r # steps_requests ss"
| "steps_requests (DispatchNow r # ss) = r # steps_requests ss"
| "steps_requests (_ # ss) = steps_requests ss"

fun batch_requests :: "stream_call \<Rightarrow> proto list" where
  "batch_requests (Write m) = p_list (proto_get ''reqs'' m)"
| "batch_requests End = []"

definition bd_written :: "dispatcher \<Rightarrow> proto list" where
  "bd_written d = concat (map batch_requests (bd_stream d))"

text \<open>
  The invariant: there is a timer exactly while the dispatcher is running, and only one; requests wait
  in the buffer only while it is running; every batch written so far carries a request; and no timer is
  longer than the large window.
\<close>

definition bd_invar :: "dispatcher \<Rightarrow> bool" where
  "bd_invar d \<longleftrightarrow>
     length (bd_timers d) = (if bd_isRunning d then 1 else 0) \<and>
     (bd_bufferedRequests d \<noteq> [] \<longrightarrow> bd_isRunning d) \<and>
     list_all (\<lambda>c. c \<noteq> End \<longrightarrow> batch_requests c \<noteq> []) (bd_stream d) \<and>
     list_all (\<lambda>w. w \<in> {BATCH_WINDOW_SMALL_MILLIS, BATCH_WINDOW_LARGE_MILLIS}) (bd_timers d)"

lemmas dispatcher_defs =
  bd_dispatch_def bd_dispatchNow_def bd_fire_def bd_end_def bd_sendNow_def bd_setSchedule_def
  bd_sendScheduledBatch_def bd_onTimeout_def

lemma clientReq_reqs [simp]: "p_list (proto_get ''reqs'' (Transaction_clientReq rs)) = rs"
  by (simp add: Transaction_clientReq_def)

lemma bd_invar_new: "bd_invar bd_new"
  by (simp add: bd_invar_def bd_new_def)

lemma bd_invar_step: "bd_invar d \<Longrightarrow> bd_invar (bd_step s d)"
  by (cases s) (auto simp: bd_invar_def dispatcher_defs Let_def length_Suc_conv split: list.split if_splits)

lemma bd_invar_run: "bd_invar d \<Longrightarrow> bd_invar (bd_run ss d)"
  by (induction ss arbitrary: d) (simp_all add: bd_invar_step)

lemma bd_step_requests:
  "bd_written (bd_step s d) @ bd_bufferedRequests (bd_step s d) =
     bd_written d @ bd_bufferedRequests d @ steps_requests [s]"
  by (cases s) (auto simp: bd_written_def dispatcher_defs Let_def split: list.split)

lemma bd_run_requests:
  "bd_written (bd_run ss d) @ bd_bufferedRequests (bd_run ss d) =
     bd_written d @ bd_bufferedRequests d @ steps_requests ss"
proof (induction ss arbitrary: d)
  case (Cons s ss)
  have "steps_requests (s # ss) = steps_requests [s] @ steps_requests ss"
    by (cases s) simp_all
  with Cons show ?case using bd_step_requests [of s d] by simp
qed simp

lemma bd_fire_flushes:
  assumes "bd_invar d"
  shows "bd_bufferedRequests (bd_fire d) = []"
proof (cases "bd_timers d")
  case Nil
  with assms show ?thesis by (auto simp: bd_invar_def bd_fire_def split: if_splits)
next
  case (Cons t ts)
  then show ?thesis by (simp add: dispatcher_defs Let_def)
qed

section \<open>The transmitter\<close>

record transmitter =
  rt_dispatchers :: "nat list"
  rt_isOpen :: bool
  rt_created :: nat
  rt_state :: "nat \<Rightarrow> dispatcher"

definition rt_new :: transmitter where
  "rt_new = \<lparr>rt_dispatchers = [], rt_isOpen = True, rt_created = 0, rt_state = (\<lambda>_. bd_new)\<rparr>"

definition rt_dispatcher :: "transmitter \<Rightarrow> nat \<times> transmitter" where
  "rt_dispatcher t =
     (let d = rt_created t
      in (d, t\<lparr>rt_dispatchers := rt_dispatchers t @ [d], rt_created := Suc d,
               rt_state := (rt_state t)(d := bd_new)\<rparr>))"

definition rt_update :: "nat \<Rightarrow> (dispatcher \<Rightarrow> dispatcher) \<Rightarrow> transmitter \<Rightarrow> transmitter" where
  "rt_update d f t = t\<lparr>rt_state := (rt_state t)(d := f (rt_state t d))\<rparr>"

definition bd_close :: "nat \<Rightarrow> transmitter \<Rightarrow> transmitter" where
  "bd_close d t = rt_update d bd_end (t\<lparr>rt_dispatchers := removeAll d (rt_dispatchers t)\<rparr>)"

definition rt_close :: "transmitter \<Rightarrow> transmitter" where
  "rt_close t =
     (if rt_isOpen t
      then fold bd_close (rt_dispatchers t) (t\<lparr>rt_isOpen := False\<rparr>)
      else t)"

definition rt_invar :: "transmitter \<Rightarrow> bool" where
  "rt_invar t \<longleftrightarrow> distinct (rt_dispatchers t) \<and> (\<forall>d \<in> set (rt_dispatchers t). d < rt_created t)"

lemma rt_invar_new: "rt_invar rt_new"
  by (simp add: rt_invar_def rt_new_def)

lemma rt_invar_dispatcher: "rt_invar t \<Longrightarrow> rt_invar (snd (rt_dispatcher t))"
  by (auto simp: rt_invar_def rt_dispatcher_def Let_def)

lemma rt_invar_bd_close: "rt_invar t \<Longrightarrow> rt_invar (bd_close d t)"
  by (auto simp: rt_invar_def bd_close_def rt_update_def distinct_removeAll)

lemma fold_bd_close:
  "distinct ds \<Longrightarrow>
   rt_state (fold bd_close ds t) d = (if d \<in> set ds then bd_end (rt_state t d) else rt_state t d) \<and>
   rt_dispatchers (fold bd_close ds t) = filter (\<lambda>d. d \<notin> set ds) (rt_dispatchers t) \<and>
   rt_isOpen (fold bd_close ds t) = rt_isOpen t"
proof (induction ds arbitrary: t)
  case (Cons x ds)
  then show ?case
    by (auto simp: bd_close_def rt_update_def removeAll_filter_not_eq intro!: filter_cong)
qed simp

lemma rt_close_effect:
  assumes "rt_invar t" "rt_isOpen t"
  shows "rt_dispatchers (rt_close t) = []" "\<not> rt_isOpen (rt_close t)"
    "rt_state (rt_close t) d = (if d \<in> set (rt_dispatchers t) then bd_end (rt_state t d) else rt_state t d)"
  using assms fold_bd_close [of "rt_dispatchers t" "t\<lparr>rt_isOpen := False\<rparr>" d]
  by (simp_all add: rt_close_def rt_invar_def)

section \<open>Properties\<close>

text \<open>
  C13. Batching neither loses, duplicates nor reorders requests: for every interleaving of the calls and
  timers, the requests of the batches written to the stream, in order, followed by those still in the
  buffer, are exactly the requests handed to the dispatcher, in order.
\<close>

theorem dispatcher_preserves_requests:
  "bd_written (bd_run ss bd_new) @ bd_bufferedRequests (bd_run ss bd_new) = steps_requests ss"
  using bd_run_requests [of ss bd_new] by (simp add: bd_new_def bd_written_def)

text \<open>
  No request waits for ever and no batch is empty: in every state a dispatcher can reach, a request
  in the buffer comes with exactly one pending timer, of at most three milliseconds; when that timer fires
  the whole buffer is written; and every batch written carries a request. A dispatcher without requests is idle after
  two more timers at the latest.
\<close>

lemma dispatcher_never_stuck:
  "let d = bd_run ss bd_new in
   (bd_bufferedRequests d = [] \<or> (\<exists>w. bd_timers d = [w] \<and> w \<le> BATCH_WINDOW_LARGE_MILLIS)) \<and>
   bd_bufferedRequests (bd_fire d) = [] \<and>
   bd_written (bd_fire d) = steps_requests ss \<and>
   bd_timers (bd_fire (bd_fire d)) = [] \<and>
   [] \<notin> batch_requests ` (set (bd_stream d) - {End})"
proof -
  define d where "d = bd_run ss bd_new"
  have inv: "bd_invar d" by (simp add: d_def bd_invar_run bd_invar_new)
  have flushed: "bd_bufferedRequests (bd_fire d) = []" by (rule bd_fire_flushes [OF inv])
  have "bd_written (bd_fire d) = steps_requests ss"
    using flushed bd_run_requests [of "ss @ [Fire]" bd_new] bd_run_requests [of ss bd_new]
      bd_step_requests [of Fire d]
    by (simp add: d_def bd_new_def bd_written_def)
  moreover have "bd_timers (bd_fire (bd_fire d)) = []"
    using inv by (auto simp: bd_invar_def dispatcher_defs Let_def length_Suc_conv split: list.splits if_splits)
  ultimately show ?thesis
    using inv flushed unfolding d_def [symmetric] Let_def
    by (auto simp: bd_invar_def list_all_iff length_Suc_conv BATCH_WINDOW_SMALL_MILLIS_def
        BATCH_WINDOW_LARGE_MILLIS_def split: if_splits)
qed

text \<open>
  C34. Closing does not cancel the timer: whenever a dispatcher is closed while requests are buffered,
  the next timer still writes them, after the end of the stream.
\<close>

theorem dispatcher_writes_after_end:
  assumes "d = bd_run ss bd_new" and "bd_bufferedRequests d \<noteq> []"
  shows "bd_stream (bd_fire (bd_step Close d)) =
    bd_stream d @ [End, Write (Transaction_clientReq (bd_bufferedRequests d))]"
proof -
  have "bd_invar d" by (simp add: assms(1) bd_invar_run bd_invar_new)
  with assms(2) obtain w where "bd_timers d = [w]"
    by (auto simp: bd_invar_def length_Suc_conv)
  with assms(2) show ?thesis by (simp add: dispatcher_defs Let_def)
qed

theorem dispatcher_writes_after_end_witness:
  "bd_stream (bd_fire (bd_step Close (bd_run [Dispatch Transaction_commitReq] bd_new))) =
     [End, Write (Transaction_clientReq [Transaction_commitReq])]"
  using dispatcher_writes_after_end [OF refl, of "[Dispatch Transaction_commitReq]"]
  by (simp add: dispatcher_defs bd_new_def Let_def)

text \<open>
  Closing the transmitter ends the stream of every dispatcher it still owns, exactly once, leaves
  the streams of all others alone and empties the set; closing it again does nothing.
\<close>

lemma transmitter_close_ends_all:
  assumes "rt_invar t" and "rt_isOpen t"
  shows "rt_dispatchers (rt_close t) = [] \<and> rt_close (rt_close t) = rt_close t \<and>
    (\<forall>d. bd_stream (rt_state (rt_close t) d) =
       bd_stream (rt_state t d) @ (if d \<in> set (rt_dispatchers t) then [End] else []))"
  using rt_close_effect [OF assms] by (simp add: rt_close_def [of "rt_close t"] bd_end_def)

lemma transmitter_close_ends_all_example:
  "bd_stream (rt_state (rt_close (snd (rt_dispatcher (bd_close 0 (snd (rt_dispatcher rt_new)))))) 1) = [End] \<and>
   bd_stream (rt_state (rt_close (snd (rt_dispatcher (bd_close 0 (snd (rt_dispatcher rt_new)))))) 0) = [End]"
proof -
  let ?t = "snd (rt_dispatcher (bd_close 0 (snd (rt_dispatcher rt_new))))"
  have "rt_invar ?t" by (simp add: rt_invar_new rt_invar_dispatcher rt_invar_bd_close)
  moreover have "rt_isOpen ?t" "rt_dispatchers ?t = [1]"
    "bd_stream (rt_state ?t 0) = [End]" "bd_stream (rt_state ?t 1) = []"
    by (simp_all add: rt_dispatcher_def bd_close_def rt_update_def rt_new_def bd_end_def bd_new_def Let_def)
  ultimately show ?thesis using transmitter_close_ends_all [of ?t] by simp
qed

end
