(* ===== verification/Part_Iterator.thy ===== *)
theory Part_Iterator
  imports Response_Collector Batch_Dispatcher
begin

text \<open>
  The iterator over the parts of a streamed response, \<open>stream/ResponsePartIterator.ts\<close>. The server
  sends answers in batches; after each batch it sends a part that carries only the state of the stream,
  and waits for the driver to ask for more. A call of \<open>next\<close> takes parts from the response queue of its
  request until there is something to give to the consumer.

  A call that has to wait returns \<open>Blocked\<close> with the promise it waits for. It does so when the queue holds no promise
  that nobody took, since then the promise it gets is a new one, whose response is still to come.
\<close>

text \<open>A response part: the state of the stream (\<open>has_stream_res_part\<close>) or an answer.\<close>

datatype 'p res_part = StreamPart stream_state | DataPart 'p

datatype 'p next_outcome =
    Blocked nat
  | Threw thrown
  | EndOfStream
  | Part 'p

function pi_next :: "(string \<Rightarrow> byte list) \<Rightarrow> (stream_state \<Rightarrow> string) \<Rightarrow> string \<Rightarrow>
    'p res_part response_queue \<Rightarrow> dispatcher \<Rightarrow> 'p next_outcome \<times> 'p res_part response_queue \<times> dispatcher" where
  "pi_next uuid_parse show_part requestId q d =
     (let (p, q') = rq_take q in
      if bq_promises q = [] then (Blocked p, q', d)
      else
        (case rq_await q' p of
           None \<Rightarrow> (Blocked p, q', d)
         | Some (Inl e) \<Rightarrow> (Threw e, q', d)
         | Some (Inr (StreamPart s)) \<Rightarrow>
             (case s of
                SS_DONE \<Rightarrow> (EndOfStream, q', d)
              | SS_CONTINUE \<Rightarrow>
                  pi_next uuid_parse show_part requestId q'
                    (bd_dispatch (Transaction_streamReq uuid_parse requestId) d)
              | SS_UNRECOGNIZED _ \<Rightarrow> (Threw (throw_message UNKNOWN_STREAM_STATE [show_part s]), q', d))
         | Some (Inr (DataPart x)) \<Rightarrow> (Part x, q', d)))"
  by pat_completeness auto

lemma bq_take_promises: "bq_promises q \<noteq> [] \<Longrightarrow> length (bq_promises (snd (bq_take q))) < length (bq_promises q)"
  by (cases "bq_promises q") (simp_all add: bq_take_def)

termination pi_next
proof (relation "measure (\<lambda>(_, _, _, q, _). length (bq_promises q))")
qed (auto simp: rq_take_def, metis bq_take_promises snd_conv)

declare pi_next.simps [simp del]

lemma pi_next_promises:
  "pi_next uuid_parse show_part requestId q d = (Part x, q', d') \<Longrightarrow>
   length (bq_promises q') < length (bq_promises q)"
proof (induction uuid_parse show_part requestId q d rule: pi_next.induct)
  case (1 uuid_parse show_part requestId q d)
  have "bq_promises q \<noteq> []"
    using "1.prems" by (auto simp: pi_next.simps [of _ _ _ q] split_beta)
  then have less: "length (bq_promises (snd (rq_take q))) < length (bq_promises q)"
    by (simp add: rq_take_def bq_take_promises)
  from "1.prems" \<open>bq_promises q \<noteq> []\<close> show ?case
    using "1.IH" [OF refl prod.collapse \<open>bq_promises q \<noteq> []\<close>] less
    by (subst (asm) pi_next.simps)
      (fastforce simp: split_beta split: option.splits sum.splits res_part.splits stream_state.splits)
qed

text \<open>
  The same call after it had to wait: what \<open>next\<close> does with the part it has taken, \<open>None\<close> when it asks the server for
  more and calls itself again.
\<close>

fun pi_resume :: "(stream_state \<Rightarrow> string) \<Rightarrow> thrown + 'p res_part \<Rightarrow> 'p next_outcome option" where
  "pi_resume show_part (Inl e) = Some (Threw e)"
| "pi_resume show_part (Inr (StreamPart SS_DONE)) = Some EndOfStream"
| "pi_resume show_part (Inr (StreamPart SS_CONTINUE)) = None"
| "pi_resume show_part (Inr (StreamPart s)) = Some (Threw (throw_message UNKNOWN_STREAM_STATE [show_part s]))"
| "pi_resume show_part (Inr (DataPart x)) = Some (Part x)"

text \<open>The asynchronous iterator: call \<open>next\<close> and yield, until there is nothing more to yield.\<close>

function pi_iterate :: "(string \<Rightarrow> byte list) \<Rightarrow> (stream_state \<Rightarrow> string) \<Rightarrow> string \<Rightarrow>
    'p res_part response_queue \<Rightarrow> dispatcher \<Rightarrow> 'p list \<times> 'p next_outcome \<times> 'p res_part response_queue \<times> dispatcher" where
  "pi_iterate uuid_parse show_part requestId q d =
     (case pi_next uuid_parse show_part requestId q d of
        (Part x, q', d') \<Rightarrow>
          (let (xs, rest) = pi_iterate uuid_parse show_part requestId q' d' in (x # xs, rest))
      | (r, q', d') \<Rightarrow> ([], r, q', d'))"
  by pat_completeness auto

termination pi_iterate
proof (relation "measure (\<lambda>(_, _, _, q, _). length (bq_promises q))")
qed (auto dest!: sym [of "(_, _, _)" "pi_next _ _ _ _ _"] pi_next_promises)

declare pi_iterate.simps [simp del]

section \<open>What the consumer should see\<close>

text \<open>
  The answers of a history of queue elements up to its end, how it ends, and how many times the server
  paused.
\<close>

fun stream_answers :: "(stream_state \<Rightarrow> string) \<Rightarrow> 'p res_part queue_element list \<Rightarrow> 'p list" where
  "stream_answers sp (Value (DataPart x) # es) = x # stream_answers sp es"
| "stream_answers sp (Value (StreamPart SS_CONTINUE) # es) = stream_answers sp es"
| "stream_answers sp _ = []"

fun stream_end :: "(stream_state \<Rightarrow> string) \<Rightarrow> nat \<Rightarrow> 'p res_part queue_element list \<Rightarrow> 'p next_outcome" where
  "stream_end sp n [] = Blocked n"
| "stream_end sp n (Value (DataPart x) # es) = stream_end sp (Suc n) es"
| "stream_end sp n (Value (StreamPart SS_CONTINUE) # es) = stream_end sp (Suc n) es"
| "stream_end sp n (Value (StreamPart SS_DONE) # es) = EndOfStream"
| "stream_end sp n (Value (StreamPart (SS_UNRECOGNIZED i)) # es) =
     Threw (throw_message UNKNOWN_STREAM_STATE [sp (SS_UNRECOGNIZED i)])"
| "stream_end sp n (Done err # es) =
     Threw (case err of Some e \<Rightarrow> typedb_driver_error e | None \<Rightarrow> throw_template TRANSACTION_CLOSED)"
| "stream_end sp n (QueueElement # es) = Threw (throw_template ILLEGAL_STATE)"

fun stream_pauses :: "'p res_part queue_element list \<Rightarrow> nat" where
  "stream_pauses (Value (DataPart x) # es) = stream_pauses es"
| "stream_pauses (Value (StreamPart SS_CONTINUE) # es) = Suc (stream_pauses es)"
| "stream_pauses _ = 0"

section \<open>Lemmas\<close>

text \<open>The elements a queue holds that nobody took.\<close>

definition rq_pending :: "'a response_queue \<Rightarrow> 'a queue_element list" where
  "rq_pending q = drop (bq_taken q) (bq_added q)"

lemma bq_promises_pending:
  assumes "bq_invar q"
  shows "bq_promises q = [] \<longleftrightarrow> rq_pending q = []"
proof -
  obtain a t where shape: "bq_shape a t q" using assms by (auto simp: bq_invar_iff)
  then have "bq_promises q = [t..<a]" by (simp add: bq_shape_def)
  with bq_taken_shape [OF shape] bq_added_shape [OF shape] show ?thesis
    by (auto simp: rq_pending_def)
qed

lemma rq_take_pending:
  assumes "bq_invar q" "rq_pending q = e # es"
  shows "rq_await (snd (rq_take q)) (fst (rq_take q)) = Some (rq_resume e)"
    "bq_invar (snd (rq_take q))" "rq_pending (snd (rq_take q)) = es"
    "bq_taken (snd (rq_take q)) = Suc (bq_taken q)" "bq_promises q \<noteq> []"
proof -
  from assms(2) have "bq_taken q < length (bq_added q)"
    by (metis drop_all leI list.distinct(1) rq_pending_def)
  moreover from this assms(2) have "bq_added q ! bq_taken q = e" "drop (Suc (bq_taken q)) (bq_added q) = es"
    by (simp_all add: rq_pending_def Cons_nth_drop_Suc [symmetric])
  ultimately show "rq_await (snd (rq_take q)) (fst (rq_take q)) = Some (rq_resume e)"
    "bq_invar (snd (rq_take q))" "rq_pending (snd (rq_take q)) = es"
    "bq_taken (snd (rq_take q)) = Suc (bq_taken q)" "bq_promises q \<noteq> []"
    using assms by (simp_all add: rq_await_def rq_take_def rq_pending_def bq.fifo_laws bq_promises_pending)
qed

lemma pi_next_empty:
  assumes "bq_invar q" "rq_pending q = []"
  shows "pi_next up sp i q d = (Blocked (bq_taken q), snd (rq_take q), d)"
  using assms bq_promises_pending [OF assms(1)]
  by (simp add: pi_next.simps split_beta rq_take_def bq.fifo_laws)

lemma pi_next_pending:
  assumes "bq_invar q" "rq_pending q = e # es"
  shows "pi_next up sp i q d =
    (let q' = snd (rq_take q) in
     case rq_resume e of
       Inl err \<Rightarrow> (Threw err, q', d)
     | Inr (StreamPart SS_DONE) \<Rightarrow> (EndOfStream, q', d)
     | Inr (StreamPart SS_CONTINUE) \<Rightarrow> pi_next up sp i q' (bd_dispatch (Transaction_streamReq up i) d)
     | Inr (StreamPart s) \<Rightarrow> (Threw (throw_message UNKNOWN_STREAM_STATE [sp s]), q', d)
     | Inr (DataPart x) \<Rightarrow> (Part x, q', d))"
  using rq_take_pending [OF assms]
  by (subst pi_next.simps)
    (simp add: split_beta Let_def split: sum.split res_part.split stream_state.split)

lemma pi_next_resume:
  assumes "bq_invar q" "rq_pending q = e # es"
  shows "pi_next up sp i q d =
    (case pi_resume sp (rq_resume e) of
       None \<Rightarrow> pi_next up sp i (snd (rq_take q)) (bd_dispatch (Transaction_streamReq up i) d)
     | Some r \<Rightarrow> (r, snd (rq_take q), d))"
  by (cases "(sp, rq_resume e)" rule: pi_resume.cases) (simp_all add: pi_next_pending [OF assms] Let_def)

lemma pi_iterate_pause:
  assumes "bq_invar q" "rq_pending q = Value (StreamPart SS_CONTINUE) # es"
  shows "pi_iterate up sp i q d =
    pi_iterate up sp i (snd (rq_take q)) (bd_dispatch (Transaction_streamReq up i) d)"
  by (simp add: pi_iterate.simps [of _ _ _ q] pi_iterate.simps [of _ _ _ "snd (rq_take q)"]
      pi_next_pending [OF assms] Let_def)

lemma pi_iterate_correct:
  assumes "bq_invar q"
  shows "fst (pi_iterate up sp i q d) = stream_answers sp (rq_pending q) \<and>
    fst (snd (pi_iterate up sp i q d)) = stream_end sp (bq_taken q) (rq_pending q) \<and>
    snd (snd (snd (pi_iterate up sp i q d))) =
      (bd_dispatch (Transaction_streamReq up i) ^^ stream_pauses (rq_pending q)) d"
  using assms
proof (induction "rq_pending q" arbitrary: q d)
  case Nil
  then show ?case by (simp add: pi_iterate.simps pi_next_empty)
next
  case (Cons e es)
  note take = rq_take_pending [OF Cons.prems Cons.hyps(2) [symmetric]]
  note step = pi_next_pending [OF Cons.prems Cons.hyps(2) [symmetric], of up sp i]
  note IH = Cons.hyps(1) [OF take(3) [symmetric] take(2)]
  note pend = Cons.hyps(2) [symmetric]
  show ?case
  proof (cases e)
    case (Value r)
    show ?thesis
    proof (cases r)
      case (DataPart x)
      then show ?thesis
        using Value IH take pend by (simp add: pi_iterate.simps [of _ _ _ q] step Let_def split_beta)
    next
      case (StreamPart s)
      show ?thesis
      proof (cases s)
        case SS_CONTINUE
        then show ?thesis
          using Value StreamPart IH take pend pi_iterate_pause [OF Cons.prems, of es up sp i d]
          by (simp add: funpow_swap1)
      qed (use Value StreamPart pend in \<open>simp_all add: pi_iterate.simps [of _ _ _ q] step Let_def\<close>)
    qed
  next
    case (Done err)
    then show ?thesis
      using pend by (cases err) (simp_all add: pi_iterate.simps [of _ _ _ q] step Let_def)
  qed (use pend in \<open>simp_all add: pi_iterate.simps [of _ _ _ q] step Let_def\<close>)
qed

lemma rq_pending_add_all [simp]:
  "rq_pending (fold bq_add es rq_new) = es" "bq_invar (fold bq_add es rq_new)"
  "bq_taken (fold bq_add es rq_new) = 0"
  using bq.add_all_new [of es] by (simp_all add: rq_pending_def rq_new_def)

lemma pi_iterate_new:
  "\<exists>q'. pi_iterate up sp i (fold bq_add es rq_new) d =
     (stream_answers sp es, stream_end sp 0 es, q',
      (bd_dispatch (Transaction_streamReq up i) ^^ stream_pauses es) d)"
  using pi_iterate_correct [of "fold bq_add es rq_new" up sp i d] by (simp, metis prod.collapse)

lemma stream_batches:
  "stream_answers sp (map (\<lambda>x. Value (DataPart x)) xs @ es) = xs @ stream_answers sp es"
  "stream_end sp n (map (\<lambda>x. Value (DataPart x)) xs @ es) = stream_end sp (n + length xs) es"
  "stream_pauses (map (\<lambda>x. Value (DataPart x)) xs @ es) = stream_pauses es"
  by (induction xs arbitrary: n) simp_all

definition batch_history :: "'p list list \<Rightarrow> 'p res_part queue_element list" where
  "batch_history bs =
     concat (map (\<lambda>b. map (\<lambda>x. Value (DataPart x)) b @ [Value (StreamPart SS_CONTINUE)]) bs)"

lemma stream_batch_history:
  "stream_answers sp (batch_history bs @ es) = concat bs @ stream_answers sp es"
  "stream_pauses (batch_history bs @ es) = length bs + stream_pauses es"
  "\<exists>m. stream_end sp n (batch_history bs @ es) = stream_end sp m es"
  unfolding batch_history_def
  by (induction bs arbitrary: n) (simp_all add: stream_batches, blast)

section \<open>Properties\<close>

text \<open>
  The iterator yields exactly what its response queue received: for any history \<open>es\<close> of the
  queue, the consumer gets the answers in order up to the first end or error, then the end of the
  stream, the exception, or a wait for the next part, and the dispatcher gets exactly one request for more
  for each pause of the server in between.
\<close>

lemma iterator_yields_history:
  "pi_iterate uuid_parse show_part i (fold bq_add es rq_new) d = (xs, r, q', d') \<Longrightarrow>
   xs = stream_answers show_part es \<and> r = stream_end show_part 0 es \<and>
   d' = (bd_dispatch (Transaction_streamReq uuid_parse i) ^^ stream_pauses es) d"
  using pi_iterate_new [of uuid_parse show_part i es d] by auto

lemma iterator_yields_history_example:
  "\<exists>q' d'. pi_iterate (\<lambda>_. []) (\<lambda>_. []) ''r''
     (fold bq_add [Value (DataPart (1 :: nat)), Value (StreamPart SS_CONTINUE)] rq_new) bd_new =
       ([1], Blocked 2, q', d')"
proof -
  obtain xs r q' d' where it: "pi_iterate (\<lambda>_. []) (\<lambda>_. []) ''r''
     (fold bq_add [Value (DataPart (1 :: nat)), Value (StreamPart SS_CONTINUE)] rq_new) bd_new = (xs, r, q', d')"
    by (cases rule: prod_cases4)
  from iterator_yields_history [OF this] have "xs = [1]" "r = Blocked 2" by simp_all
  with it show ?thesis by blast
qed

text \<open>
  C15. A whole streamed answer arrives complete: when the server sends the batches \<open>bs\<close>, pausing after
  each, then the last answers \<open>b\<close> and the end, the consumer sees all answers of all batches in order
  and then the end of the stream, whatever is queued behind it, and the driver asked for more exactly once for
  each pause.
\<close>

theorem iterator_streams_batches:
  "\<exists>q'. pi_iterate uuid_parse show_part i
     (fold bq_add (batch_history bs @ map (\<lambda>x. Value (DataPart x)) b @ Value (StreamPart SS_DONE) # junk) rq_new) d =
       (concat bs @ b, EndOfStream, q', (bd_dispatch (Transaction_streamReq uuid_parse i) ^^ length bs) d)"
proof -
  let ?es = "batch_history bs @ map (\<lambda>x. Value (DataPart x)) b @ Value (StreamPart SS_DONE) # junk"
  have "stream_answers show_part ?es = concat bs @ b" "stream_pauses ?es = length bs"
    by (simp_all add: stream_batch_history stream_batches)
  moreover have "stream_end show_part 0 ?es = EndOfStream"
    using stream_batch_history(3) [of show_part 0 bs "map (\<lambda>x. Value (DataPart x)) b @ Value (StreamPart SS_DONE) # junk"]
    by (auto simp: stream_batches)
  ultimately show ?thesis using pi_iterate_new [of uuid_parse show_part i ?es d] by metis
qed

end
