(* ===== verification/Bidi_Stream.thy ===== *)
theory Bidi_Stream
  imports Part_Iterator
begin

text \<open>
  The bidirectional stream of a transaction, \<open>stream/BidirectionalStream.ts\<close>. It multiplexes the
  requests of many callers onto one gRPC stream and hands every response to the queue of its request.
  The callers, the three listeners of the gRPC stream (\<open>data\<close>, \<open>error\<close>, \<open>done\<close>), the consumers of
  part iterators and the timer of the dispatcher are steps of one event loop; a run is any list of
  steps.

  \<open>uuid.v4\<close> yields the request ids, which are therefore arguments of the calls, and \<open>uuid.parse\<close> and
  \<open>uuid.stringify\<close> are parameters. An exception in a listener is returned beside the state.
\<close>

section \<open>State and operations\<close>

datatype ('r, 'p) transaction_server =
    Res "byte list" 'r
  | ResPart "byte list" 'p
  | NoResponse

record ('r, 'p, 'cb) bidi =
  bs_requestTransmitter :: transmitter
  bs_dispatcher :: nat
  bs_responseCollector :: "'r collector"
  bs_responsePartCollector :: "'p collector"
  bs_isOpen :: bool
  bs_error :: "error_arg option"
  bs_onClose :: "'cb list"
  bs_called :: "('cb \<times> error_arg option) list"

definition bs_new :: "transmitter \<Rightarrow> ('r, 'p, 'cb) bidi" where
  "bs_new t =
     \<lparr>bs_requestTransmitter = t, bs_dispatcher = 0, bs_responseCollector = rc_new,
      bs_responsePartCollector = rc_new, bs_isOpen = False, bs_error = None, bs_onClose = [],
      bs_called = []\<rparr>"

text \<open>Opening: the stub either fails or has given a stream, which a new dispatcher writes to.\<close>

definition bs_open :: "thrown option \<Rightarrow> ('r, 'p, 'cb) bidi \<Rightarrow> thrown option \<times> ('r, 'p, 'cb) bidi" where
  "bs_open failure s =
     (case failure of
        Some e \<Rightarrow> (Some e, s)
      | None \<Rightarrow>
          (let (d, t) = rt_dispatcher (bs_requestTransmitter s)
           in (None, s\<lparr>bs_requestTransmitter := t, bs_dispatcher := d, bs_isOpen := True\<rparr>)))"

definition bs_onDispatcher :: "(dispatcher \<Rightarrow> dispatcher) \<Rightarrow> ('r, 'p, 'cb) bidi \<Rightarrow> ('r, 'p, 'cb) bidi" where
  "bs_onDispatcher f s =
     s\<lparr>bs_requestTransmitter := rt_update (bs_dispatcher s) f (bs_requestTransmitter s)\<rparr>"

definition bs_single :: "(string \<Rightarrow> byte list) \<Rightarrow> string \<Rightarrow> proto \<Rightarrow> bool \<Rightarrow> ('r, 'p, 'cb) bidi
    \<Rightarrow> nat option \<times> ('r, 'p, 'cb) bidi" where
  "bs_single uuid_parse requestId request batch s =
     (let request' = proto_set ''req_id'' (PBytes (uuid_parse requestId)) request;
          s1 = s\<lparr>bs_responseCollector := rc_queue requestId (bs_responseCollector s)\<rparr>;
          s2 = (if batch then bs_onDispatcher (bd_dispatch request') s1
                else bs_onDispatcher (bd_dispatchNow request') s1);
          (p, c) = rc_take requestId (bs_responseCollector s2)
      in (p, s2\<lparr>bs_responseCollector := c\<rparr>))"

definition bs_stream :: "(string \<Rightarrow> byte list) \<Rightarrow> string \<Rightarrow> proto \<Rightarrow> ('r, 'p, 'cb) bidi \<Rightarrow> ('r, 'p, 'cb) bidi" where
  "bs_stream uuid_parse requestId request s =
     (let request' = proto_set ''req_id'' (PBytes (uuid_parse requestId)) request;
          s1 = s\<lparr>bs_responsePartCollector := rc_queue requestId (bs_responsePartCollector s)\<rparr>
      in bs_onDispatcher (bd_dispatch request') s1)"

definition bs_close :: "error_arg option \<Rightarrow> ('r, 'p, 'cb) bidi \<Rightarrow> ('r, 'p, 'cb) bidi" where
  "bs_close err s =
     (let s1 = s\<lparr>bs_isOpen := False, bs_error := err\<rparr>;
          s2 = s1\<lparr>bs_responseCollector := rc_close err (bs_responseCollector s1)\<rparr>;
          s3 = s2\<lparr>bs_responsePartCollector := rc_close err (bs_responsePartCollector s2)\<rparr>;
          s4 = s3\<lparr>bs_requestTransmitter := bd_close (bs_dispatcher s3) (bs_requestTransmitter s3)\<rparr>
      in s4\<lparr>bs_called := bs_called s4 @ map (\<lambda>cb. (cb, err)) (bs_onClose s4)\<rparr>)"

definition bs_addOnClose :: "'cb \<Rightarrow> ('r, 'p, 'cb) bidi \<Rightarrow> ('r, 'p, 'cb) bidi" where
  "bs_addOnClose cb s = s\<lparr>bs_onClose := bs_onClose s @ [cb]\<rparr>"

text \<open>\<open>Uint8Array.prototype.toString\<close>: the decimal bytes separated by commas.\<close>

fun bytes_toString :: "byte list \<Rightarrow> string" where
  "bytes_toString [] = []"
| "bytes_toString [b] = string_of_nat (unat b)"
| "bytes_toString (b # bs) = string_of_nat (unat b) @ '','' @ bytes_toString bs"

definition bs_collectRes :: "(byte list \<Rightarrow> string) \<Rightarrow> byte list \<Rightarrow> 'r \<Rightarrow> ('r, 'p, 'cb) bidi
    \<Rightarrow> thrown option \<times> ('r, 'p, 'cb) bidi" where
  "bs_collectRes uuid_stringify requestId res s =
     (case rc_get (uuid_stringify requestId) (bs_responseCollector s) of
        None \<Rightarrow> (Some (throw_message UNKNOWN_REQUEST_ID [bytes_toString requestId]), s)
      | Some _ \<Rightarrow>
          (None, s\<lparr>bs_responseCollector := rc_put (uuid_stringify requestId) res (bs_responseCollector s)\<rparr>))"

definition bs_collectResPart :: "(byte list \<Rightarrow> string) \<Rightarrow> byte list \<Rightarrow> 'p \<Rightarrow> ('r, 'p, 'cb) bidi
    \<Rightarrow> thrown option \<times> ('r, 'p, 'cb) bidi" where
  "bs_collectResPart uuid_stringify requestId res s =
     (case rc_get (uuid_stringify requestId) (bs_responsePartCollector s) of
        None \<Rightarrow> (Some (throw_message UNKNOWN_REQUEST_ID [bytes_toString requestId]), s)
      | Some _ \<Rightarrow>
          (None, s\<lparr>bs_responsePartCollector := rc_put (uuid_stringify requestId) res (bs_responsePartCollector s)\<rparr>))"

definition bs_onData :: "(byte list \<Rightarrow> string) \<Rightarrow> (('r, 'p) transaction_server \<Rightarrow> string) \<Rightarrow>
    ('r, 'p) transaction_server \<Rightarrow> ('r, 'p, 'cb) bidi \<Rightarrow> thrown option \<times> ('r, 'p, 'cb) bidi" where
  "bs_onData uuid_stringify show_res res s =
     (if \<not> bs_isOpen s then (None, s)
      else
        (case res of
           Res b r \<Rightarrow> bs_collectRes uuid_stringify b r s
         | ResPart b p \<Rightarrow> bs_collectResPart uuid_stringify b p s
         | NoResponse \<Rightarrow> (Some (throw_message MISSING_RESPONSE [show_res res]), s)))"

section \<open>Runs of the event loop\<close>

datatype ('r, 'p) stream_event =
    SingleCall string proto bool
  | StreamCall string proto
  | TakePart string
  | MoreCall string
  | Data "('r, 'p) transaction_server"
  | StreamError error_arg
  | StreamDone
  | CloseCall "error_arg option"
  | TimerFires

record ('r, 'p) third_party =
  uuid_parse :: "string \<Rightarrow> byte list"
  uuid_stringify :: "byte list \<Rightarrow> string"
  show_server :: "('r, 'p) transaction_server \<Rightarrow> string"

fun bs_step :: "('r, 'p) third_party \<Rightarrow> ('r, 'p) stream_event \<Rightarrow> ('r, 'p, 'cb) bidi
    \<Rightarrow> thrown option \<times> ('r, 'p, 'cb) bidi" where
  "bs_step u (SingleCall i req b) s = (None, snd (bs_single (uuid_parse u) i req b s))"
| "bs_step u (StreamCall i req) s = (None, bs_stream (uuid_parse u) i req s)"
| "bs_step u (TakePart i) s =
     (None, s\<lparr>bs_responsePartCollector := snd (rc_take i (bs_responsePartCollector s))\<rparr>)"
| "bs_step u (MoreCall i) s =
     (None, bs_onDispatcher (bd_dispatch (Transaction_streamReq (uuid_parse u) i)) s)"
| "bs_step u (Data res) s = bs_onData (uuid_stringify u) (show_server u) res s"
| "bs_step u (StreamError e) s = (None, bs_close (Some e) s)"
| "bs_step u StreamDone s = (None, bs_close None s)"
| "bs_step u (CloseCall err) s = (None, bs_close err s)"
| "bs_step u TimerFires s = (None, bs_onDispatcher bd_fire s)"

abbreviation bs_run :: "('r, 'p) third_party \<Rightarrow> ('r, 'p) stream_event list \<Rightarrow> ('r, 'p, 'cb) bidi \<Rightarrow> ('r, 'p, 'cb) bidi" where
  "bs_run u evs s \<equiv> fold (\<lambda>ev s. snd (bs_step u ev s)) evs s"

section \<open>What each request should receive\<close>

fun closing :: "('r, 'p) stream_event \<Rightarrow> bool" where
  "closing (StreamError _) = True"
| "closing StreamDone = True"
| "closing (CloseCall _) = True"
| "closing _ = False"

fun registers_single :: "string \<Rightarrow> ('r, 'p) stream_event \<Rightarrow> bool" where
  "registers_single k (SingleCall i _ _) = (i = k)"
| "registers_single k _ = False"

fun registers_stream :: "string \<Rightarrow> ('r, 'p) stream_event \<Rightarrow> bool" where
  "registers_stream k (StreamCall i _) = (i = k)"
| "registers_stream k _ = False"

fun response_for :: "(byte list \<Rightarrow> string) \<Rightarrow> string \<Rightarrow> ('r, 'p) stream_event \<Rightarrow> 'r list" where
  "response_for us k (Data (Res b r)) = (if us b = k then [r] else [])"
| "response_for us k _ = []"

fun part_for :: "(byte list \<Rightarrow> string) \<Rightarrow> string \<Rightarrow> ('r, 'p) stream_event \<Rightarrow> 'p list" where
  "part_for us k (Data (ResPart b p)) = (if us b = k then [p] else [])"
| "part_for us k _ = []"

definition bs_invar :: "('r, 'p, 'cb) bidi \<Rightarrow> bool" where
  "bs_invar s \<longleftrightarrow> rc_invar (bs_responseCollector s) \<and> rc_invar (bs_responsePartCollector s)"

abbreviation res_history :: "('r, 'p, 'cb) bidi \<Rightarrow> string \<Rightarrow> 'r queue_element list option" where
  "res_history s k \<equiv> rc_history (bs_responseCollector s) k"

abbreviation part_history :: "('r, 'p, 'cb) bidi \<Rightarrow> string \<Rightarrow> 'p queue_element list option" where
  "part_history s k \<equiv> rc_history (bs_responsePartCollector s) k"

lemmas bidi_defs =
  bs_single_def bs_stream_def bs_close_def bs_onData_def bs_collectRes_def bs_collectResPart_def
  bs_onDispatcher_def

section \<open>Lemmas\<close>

lemma rc_get_None_history: "rc_get k c = None \<longleftrightarrow> rc_history c k = None"
  by (simp add: rc_history_def)

lemma bs_invar_new: "bs_invar (bs_new t)"
  by (simp add: bs_invar_def bs_new_def rc.mailbox_laws)

lemma bs_invar_open: "bs_invar s \<Longrightarrow> bs_invar (snd (bs_open f s))"
  by (simp add: bs_invar_def bs_open_def Let_def split_beta split: option.split)

lemma bs_opened: "bs_invar (snd (bs_open None (bs_new t)))" "bs_isOpen (snd (bs_open None (bs_new t)))"
  by (simp add: bs_invar_open bs_invar_new) (simp add: bs_open_def Let_def split_beta)

lemma bs_invar_step: "bs_invar s \<Longrightarrow> bs_invar (snd (bs_step u ev s))"
  by (cases ev)
    (auto simp: bs_invar_def bidi_defs Let_def split_beta rc.mailbox_laws
      split: option.split transaction_server.split)

lemma bs_invar_run: "bs_invar s \<Longrightarrow> bs_invar (bs_run u evs s)"
  by (induction evs arbitrary: s) (simp_all add: bs_invar_step)

text \<open>While no closing event occurs the stream stays open.\<close>

lemma bs_step_open: "\<not> closing ev \<Longrightarrow> bs_isOpen (snd (bs_step u ev s)) = bs_isOpen s"
  by (cases ev)
    (auto simp: bidi_defs Let_def split_beta split: option.split transaction_server.split)

text \<open>
  One step, seen from one request: its history grows by the response that carries its id, and by
  nothing else.
\<close>

lemma bs_step_res_history:
  assumes "bs_invar s" "bs_isOpen s" "\<not> closing ev" "\<not> registers_single k ev"
  shows "res_history (snd (bs_step u ev s)) k =
    map_option (\<lambda>h. h @ map Value (response_for (uuid_stringify u) k ev)) (res_history s k)"
  using assms
  by (cases ev)
    (auto simp: bs_invar_def bidi_defs Let_def split_beta rc.mailbox_laws option.map_ident rc_get_None_history
      split: option.split transaction_server.split)

lemma bs_step_part_history:
  assumes "bs_invar s" "bs_isOpen s" "\<not> closing ev" "\<not> registers_stream k ev"
  shows "part_history (snd (bs_step u ev s)) k =
    map_option (\<lambda>h. h @ map Value (part_for (uuid_stringify u) k ev)) (part_history s k)"
  using assms
  by (cases ev)
    (auto simp: bs_invar_def bidi_defs Let_def split_beta rc.mailbox_laws option.map_ident rc_get_None_history
      split: option.split transaction_server.split)

lemma bs_run_res_history:
  assumes "bs_invar s" "bs_isOpen s" "\<forall>ev \<in> set evs. \<not> closing ev \<and> \<not> registers_single k ev"
  shows "res_history (bs_run u evs s) k =
    map_option (\<lambda>h. h @ map Value (concat (map (response_for (uuid_stringify u) k) evs))) (res_history s k)"
  using assms
proof (induction evs arbitrary: s)
  case Nil
  then show ?case by (simp add: option.map_ident)
next
  case (Cons ev evs)
  then show ?case
    by (simp add: bs_invar_step bs_step_open bs_step_res_history option.map_comp comp_def)
qed

lemma bs_run_part_history:
  assumes "bs_invar s" "bs_isOpen s" "\<forall>ev \<in> set evs. \<not> closing ev \<and> \<not> registers_stream k ev"
  shows "part_history (bs_run u evs s) k =
    map_option (\<lambda>h. h @ map Value (concat (map (part_for (uuid_stringify u) k) evs))) (part_history s k)"
  using assms
proof (induction evs arbitrary: s)
  case Nil
  then show ?case by (simp add: option.map_ident)
next
  case (Cons ev evs)
  then show ?case
    by (simp add: bs_invar_step bs_step_open bs_step_part_history option.map_comp comp_def)
qed

lemma bs_run_open: "\<forall>ev \<in> set evs. \<not> closing ev \<Longrightarrow> bs_isOpen (bs_run u evs s) = bs_isOpen s"
  by (induction evs arbitrary: s) (simp_all add: bs_step_open)

lemma bs_single_effect:
  assumes "bs_invar s"
  shows "fst (bs_single up k req b s) = Some 0"
    "bs_isOpen (snd (bs_single up k req b s)) = bs_isOpen s"
    "res_history (snd (bs_single up k req b s)) k = Some []"
    "part_history (snd (bs_single up k req b s)) j = part_history s j"
proof -
  have "rc_get k (rc_queue k (bs_responseCollector s)) = Some bq_new"
    by (simp add: rc_get_queue rq_new_def)
  then show "fst (bs_single up k req b s) = Some 0"
    by (simp add: bs_single_def bs_onDispatcher_def rc_take_def rq_take_def bq.fifo_laws Let_def split_beta)
qed (use assms in \<open>simp_all add: bs_single_def bs_onDispatcher_def bs_invar_def rc.mailbox_laws Let_def split_beta\<close>)

lemma bs_invar_single: "bs_invar s \<Longrightarrow> bs_invar (snd (bs_single up k req b s))"
  by (simp add: bs_single_def bs_onDispatcher_def bs_invar_def rc.mailbox_laws Let_def split_beta)

lemma bs_close_history:
  assumes "bs_invar s"
  shows "res_history (bs_close err s) k = map_option (\<lambda>h. h @ [Done err]) (res_history s k)"
    "part_history (bs_close err s) k = map_option (\<lambda>h. h @ [Done err]) (part_history s k)"
    "\<not> bs_isOpen (bs_close err s)" "bs_invar (bs_close err s)"
  using assms by (simp_all add: bs_close_def bs_invar_def rc.mailbox_laws Let_def)

text \<open>The requests a stream has handed over so far, in order: written to gRPC or still buffered.\<close>

definition bs_sent :: "('r, 'p, 'cb) bidi \<Rightarrow> proto list" where
  "bs_sent s =
     (let d = rt_state (bs_requestTransmitter s) (bs_dispatcher s)
      in bd_written d @ bd_bufferedRequests d)"

lemma bs_single_sent:
  "bs_sent (snd (bs_single up k req b s)) = bs_sent s @ [proto_set ''req_id'' (PBytes (up k)) req]"
  using bd_step_requests [of "Dispatch (proto_set ''req_id'' (PBytes (up k)) req)"]
    bd_step_requests [of "DispatchNow (proto_set ''req_id'' (PBytes (up k)) req)"]
  by (simp add: bs_sent_def bs_single_def bs_onDispatcher_def rt_update_def Let_def split_beta)

lemma bs_stream_effect:
  assumes "bs_invar s"
  shows "bs_isOpen (bs_stream up k req s) = bs_isOpen s" "part_history (bs_stream up k req s) k = Some []"
    "bs_invar (bs_stream up k req s)"
  using assms by (simp_all add: bs_stream_def bs_onDispatcher_def bs_invar_def rc.mailbox_laws Let_def)

lemma bs_single_await:
  assumes "bs_invar s" "bs_isOpen s" "\<forall>ev \<in> set evs. \<not> closing ev \<and> \<not> registers_single k ev"
    and "rs = concat (map (response_for (uuid_stringify u) k) evs)"
    and "s2 = bs_run u evs (snd (bs_single up k req b s))"
  shows "res_history s2 k = Some (map Value rs)" "bs_invar s2"
    "rs = r # rs' \<Longrightarrow> rc_await k 0 (bs_responseCollector s2) = Some (Inr r)"
proof -
  show hist: "res_history s2 k = Some (map Value rs)" and inv: "bs_invar s2"
    using assms bs_run_res_history [of "snd (bs_single up k req b s)" evs k u]
    by (simp_all add: bs_invar_single bs_single_effect bs_invar_run)
  show "rs = r # rs' \<Longrightarrow> rc_await k 0 (bs_responseCollector s2) = Some (Inr r)"
    using rc_await_history [OF _ hist] inv by (simp add: bs_invar_def)
qed

lemma bs_run_data_closed: "\<not> bs_isOpen s \<Longrightarrow> bs_run u (map Data ds) s = s"
  by (induction ds) (simp_all add: bs_onData_def)

section \<open>Properties\<close>

text \<open>
  Responses are correlated with requests: take any request sent with \<open>single\<close>, batched or not, and
  any later events that neither close the stream nor reuse the id, in any order. If the server
  sends a response \<open>x\<close> with the id the driver wrote into the request, and no earlier one with it, the
  caller's promise resolves to \<open>x\<close>, whatever responses to other requests come before or after. The hypothesis on
  \<open>uuid\<close> is that printing a parsed id gives the id back.
\<close>

lemma single_response_correlated:
  assumes "bs_invar s" and "bs_isOpen s"
    and "uuid_stringify u (uuid_parse u k) = k"
    and "s1 = snd (bs_single (uuid_parse u) k (PMsg c fs) b s)"
    and "\<forall>ev \<in> set (before @ after). \<not> closing ev \<and> \<not> registers_single k ev"
    and "\<forall>ev \<in> set before. response_for (uuid_stringify u) k ev = []"
    and "rid = p_bytes (proto_get ''req_id'' (last (bs_sent s1)))"
  shows "rc_await k 0 (bs_responseCollector (bs_run u (before @ Data (Res rid x) # after) s1)) = Some (Inr x)"
proof -
  have "rid = uuid_parse u k" using assms(4,7) by (simp add: bs_single_sent proto_get_set del: proto_set.simps)
  then have answer: "concat (map (response_for (uuid_stringify u) k) (before @ Data (Res rid x) # after)) =
      x # concat (map (response_for (uuid_stringify u) k) after)"
    using assms(3,6) by simp
  have "\<forall>ev \<in> set (before @ Data (Res rid x) # after). \<not> closing ev \<and> \<not> registers_single k ev"
    using assms(5) by auto
  from bs_single_await(3) [OF assms(1,2) this answer [symmetric] refl refl] show ?thesis
    by (simp only: assms(4))
qed

lemma single_response_correlated_example:
  "let u = \<lparr>uuid_parse = (\<lambda>i. if i = ''a'' then [1] else [2]),
            uuid_stringify = (\<lambda>b. if b = [1] then ''a'' else ''b''), show_server = (\<lambda>_. [])\<rparr>;
       s = snd (bs_open None (bs_new rt_new)) :: (nat, nat, nat) bidi;
       s1 = snd (bs_single (uuid_parse u) ''a'' Transaction_commitReq True s)
   in rc_await ''a'' 0 (bs_responseCollector
        (bs_run u ([SingleCall ''b'' Transaction_commitReq False, Data (Res [2] 5)] @ Data (Res [1] 7) # []) s1)) =
      Some (Inr 7)"
  unfolding Let_def
  by (rule single_response_correlated [where c = "''TransactionReq''" and b = True
        and fs = "[(''commit_req'', PMsg ''TransactionCommitReq'' [])]"])
    (simp_all add: bs_opened Transaction_commitReq_def bs_single_sent)

text \<open>
  Streamed answers are demultiplexed end to end: take any request sent with \<open>stream\<close> and any later
  events that neither close the stream nor reuse the id. The consumer that iterates gets exactly the
  answers of the parts that carry the id of its request, in the order they arrived, from the first one
  it has not yet taken; parts of other requests never reach it.
\<close>

lemma stream_parts_demultiplexed:
  assumes "bs_invar s" and "bs_isOpen s"
    and "\<forall>ev \<in> set evs. \<not> closing ev \<and> \<not> registers_stream k ev"
    and "s2 = bs_run u evs (bs_stream (uuid_parse u) k req s)"
    and "ps = concat (map (part_for (uuid_stringify u) k) evs)"
  shows "\<exists>q. rc_get k (bs_responsePartCollector s2) = Some q \<and>
    fst (pi_iterate (uuid_parse u) show_part k q d) = stream_answers show_part (map Value (drop (bq_taken q) ps)) \<and>
    fst (snd (pi_iterate (uuid_parse u) show_part k q d)) =
      stream_end show_part (bq_taken q) (map Value (drop (bq_taken q) ps))"
proof -
  have "part_history s2 k = Some (map Value ps)" "bs_invar s2"
    using assms bs_run_part_history [of "bs_stream (uuid_parse u) k req s" evs k u]
    by (simp_all add: bs_stream_effect bs_invar_run)
  then obtain q where q: "rc_get k (bs_responsePartCollector s2) = Some q" "bq_added q = map Value ps"
    and "bq_invar q"
    by (auto simp: rc_history_def bs_invar_def dest: rc_invar_get)
  with pi_iterate_correct [of q "uuid_parse u" show_part k d] show ?thesis
    by (simp add: rq_pending_def drop_map)
qed

lemma stream_parts_demultiplexed_example:
  "let u = \<lparr>uuid_parse = (\<lambda>i. if i = ''a'' then [1] else [2]),
            uuid_stringify = (\<lambda>b. if b = [1] then ''a'' else ''b''), show_server = (\<lambda>_. [])\<rparr>;
       s = snd (bs_open None (bs_new rt_new)) :: (nat, nat res_part, nat) bidi;
       evs = [StreamCall ''b'' Transaction_commitReq, Data (ResPart [1] (DataPart 5)),
              Data (ResPart [2] (DataPart 6)), Data (ResPart [1] (StreamPart SS_DONE))];
       s2 = bs_run u evs (bs_stream (uuid_parse u) ''a'' Transaction_commitReq s)
   in \<exists>q. rc_get ''a'' (bs_responsePartCollector s2) = Some q \<and>
        fst (pi_iterate (uuid_parse u) (\<lambda>_. []) ''a'' q bd_new) =
          stream_answers (\<lambda>_. []) (map Value (drop (bq_taken q) [DataPart 5, StreamPart SS_DONE]))"
proof -
  let ?u = "\<lparr>uuid_parse = (\<lambda>i. if i = ''a'' then [1] else [2]),
     uuid_stringify = (\<lambda>b. if b = [1] then ''a'' else ''b''), show_server = (\<lambda>_. [])\<rparr>
     :: (nat, nat res_part) third_party"
  show ?thesis
    using stream_parts_demultiplexed [OF bs_opened [of rt_new] _ refl refl, where u = ?u and k = "''a''" and d = bd_new
        and show_part = "\<lambda>_. []" and req = Transaction_commitReq
        and evs = "[StreamCall ''b'' Transaction_commitReq, Data (ResPart [1] (DataPart 5)),
             Data (ResPart [2] (DataPart 6)), Data (ResPart [1] (StreamPart SS_DONE))]"]
    unfolding Let_def by (simp split: if_splits) blast
qed

text \<open>
  A closed stream leaves nobody waiting and accepts nothing: when the stream closes, by a call or by
  an error of gRPC, while a request sent with \<open>single\<close> is unanswered, its caller gets the error as a driver
  error, or \<open>TRANSACTION_CLOSED\<close>; each close callback runs once with that error, in the order of
  registration; the gRPC stream is ended; and data that arrives later changes nothing.
\<close>

lemma close_fails_outstanding:
  assumes "bs_invar s" and "bs_isOpen s"
    and "\<forall>ev \<in> set evs. \<not> closing ev \<and> \<not> registers_single k ev"
    and "\<forall>ev \<in> set evs. response_for (uuid_stringify u) k ev = []"
    and "s2 = bs_run u evs (snd (bs_single (uuid_parse u) k req b s))"
    and "s3 = bs_close err s2"
  shows "rc_await k 0 (bs_responseCollector s3) =
      Some (Inl (case err of Some e \<Rightarrow> typedb_driver_error e | None \<Rightarrow> throw_template TRANSACTION_CLOSED)) \<and>
    bs_called s3 = bs_called s2 @ map (\<lambda>cb. (cb, err)) (bs_onClose s2) \<and>
    last (bd_stream (rt_state (bs_requestTransmitter s3) (bs_dispatcher s3))) = End \<and>
    bs_run u (map Data ds) s3 = s3"
proof -
  have "concat (map (response_for (uuid_stringify u) k) evs) = []" using assms(4) by simp
  then have "res_history s2 k = Some []" "bs_invar s2"
    using bs_single_await(1,2) [OF assms(1-3) refl assms(5)] by simp_all
  then have hist: "res_history s3 k = Some [Done err]" and "rc_invar (bs_responseCollector s3)"
    and closed: "\<not> bs_isOpen s3"
    using bs_close_history [of s2] assms(6) by (simp_all add: bs_invar_def)
  then have "rc_await k 0 (bs_responseCollector s3) = Some (rq_resume (Done err))"
    using rc_await_history [of "bs_responseCollector s3" k] by simp
  then show ?thesis
    using bs_run_data_closed [OF closed]
    by (auto simp: assms(6) bs_close_def bd_close_def rt_update_def bd_end_def Let_def split: option.split)
qed

lemma close_fails_outstanding_example:
  "let u = \<lparr>uuid_parse = (\<lambda>i. if i = ''a'' then [1] else [2]),
            uuid_stringify = (\<lambda>b. if b = [1] then ''a'' else ''b''), show_server = (\<lambda>_. [])\<rparr>;
       s = bs_addOnClose 9 (snd (bs_open None (bs_new rt_new))) :: (nat, nat, nat) bidi;
       s2 = bs_run u [TimerFires] (snd (bs_single (uuid_parse u) ''a'' Transaction_commitReq True s));
       s3 = bs_close None s2
   in rc_await ''a'' 0 (bs_responseCollector s3) = Some (Inl (throw_template TRANSACTION_CLOSED)) \<and>
      bs_run u [Data (Res [1] 7)] s3 = s3"
proof -
  let ?u = "\<lparr>uuid_parse = (\<lambda>i. if i = ''a'' then [1] else [2]),
     uuid_stringify = (\<lambda>b. if b = [1] then ''a'' else ''b''), show_server = (\<lambda>_. [])\<rparr>
     :: (nat, nat) third_party"
  let ?s = "bs_addOnClose 9 (snd (bs_open None (bs_new rt_new))) :: (nat, nat, nat) bidi"
  have "bs_invar ?s" "bs_isOpen ?s"
    using bs_opened [of rt_new] by (simp_all add: bs_addOnClose_def bs_invar_def)
  from close_fails_outstanding [OF this _ _ refl refl, where evs = "[TimerFires]" and k = "''a''" and u = ?u
      and req = Transaction_commitReq and b = True and err = None and ds = "[Res [1] 7]"]
  show ?thesis unfolding Let_def by simp
qed

end
