(* ===== verification/Transition_Systems.thy ===== *)
theory Transition_Systems
  imports Main
begin

text \<open>
  What the theories about runs share: a step relation with an invariant, and a part of its steps that cannot go on for
  ever. The locales are interpreted on the transaction streams with their server (\<open>Transaction_System\<close>), on the life of a driver
  (\<open>Driver_Lifecycle\<close>) and on pools of suspended methods (\<open>Async_Procs\<close>).
\<close>

locale transition_system =
  fixes init :: "'s \<Rightarrow> bool"
    and step :: "'s \<Rightarrow> 's \<Rightarrow> bool"
    and invar :: "'s \<Rightarrow> bool"
  assumes invar_init: "init s \<Longrightarrow> invar s"
    and invar_step: "invar s \<Longrightarrow> step s t \<Longrightarrow> invar t"
begin

lemma invar_steps:
  assumes "step\<^sup>*\<^sup>* s t" "invar s"
  shows "invar t"
  using assms by (induction rule: rtranclp_induct) (blast intro: invar_step)+

lemma reachable_invar: "init s \<Longrightarrow> step\<^sup>*\<^sup>* s t \<Longrightarrow> invar t"
  using invar_init invar_steps by blast

end

text \<open>
  Some of the steps are the system's own: they go down in a well-founded order, so that they come to an end, in a state
  from which no such step leads.
\<close>

locale terminating_system = transition_system init step invar
  for init :: "'s \<Rightarrow> bool" and step :: "'s \<Rightarrow> 's \<Rightarrow> bool" and invar :: "'s \<Rightarrow> bool" +
  fixes own :: "'s \<Rightarrow> 's \<Rightarrow> bool"
    and order :: "('s \<times> 's) set"
  assumes own_step: "own s t \<Longrightarrow> step s t"
    and order_wf: "wf order"
    and own_descends: "invar s \<Longrightarrow> own s t \<Longrightarrow> (t, s) \<in> order"
begin

lemma own_terminates: "wf {(t, s). invar s \<and> own s t}"
  by (rule wf_subset [OF order_wf]) (auto intro: own_descends)

lemma own_invar:
  assumes "own\<^sup>*\<^sup>* s t" "invar s"
  shows "invar t"
  using assms by (induction rule: rtranclp_induct) (blast intro: invar_step own_step)+

lemma own_comes_to_rest: "invar s \<Longrightarrow> \<exists>t. own\<^sup>*\<^sup>* s t \<and> \<not> (\<exists>t'. own t t')"
proof (induction s rule: wf_induct_rule [OF order_wf])
  case (1 s)
  show ?case
  proof (cases "\<exists>t. own s t")
    case True
    then obtain t where "own s t" by blast
    with 1 have "\<exists>u. own\<^sup>*\<^sup>* t u \<and> \<not> (\<exists>u'. own u u')"
      by (blast intro: own_descends invar_step own_step)
    with \<open>own s t\<close> show ?thesis by (blast intro: converse_rtranclp_into_rtranclp)
  qed blast
qed

end

end
