(* ===== verification/Transaction_System.thy ===== *)
theory Transaction_System
  imports Bidi_Stream Transition_Systems
begin

text \<open>
  A transaction stream together with its server: the callers of \<open>single\<close> and \<open>stream\<close>, the dispatcher with its timer, the gRPC stream in
  both directions, the server, the listener for data and the consumers of streamed answers, each making its steps in any order.

  The two directions of gRPC keep the order of messages and deliver each at most once; what was written after the end of the stream is
  not transmitted. The server is a parameter: a function that takes one request of a batch and gives its messages and its next state. What
  the driver relies on are named hypotheses: every message carries the id of its request (\<open>answers_carry_id\<close>), a request made with
  \<open>single\<close> has one response, and a request made with \<open>stream\<close>, or for more of it, has response parts only (\<open>sy_proper\<close>). That
  \<open>uuid.v4\<close> gives a new id each time is the guard of the two calls.

  \<open>sy_events\<close> is a history variable: the events of the stream so far. No step reads it but for the freshness of ids.
\<close>

section \<open>The system\<close>

datatype consumer_state =
    Idle
  | Waiting nat
  | Finished "thrown option"

record 'p consumer =
  cs_state :: consumer_state
  cs_yielded :: "'p list"

record ('r, 'p, 'v) tx_system =
  sy_stream :: "('r, 'p res_part, nat) bidi"
  sy_events :: "('r, 'p res_part) stream_event list"
  sy_received :: nat
  sy_server :: 'v
  sy_responses :: "('r, 'p res_part) transaction_server list"
  sy_consumer :: "string \<Rightarrow> 'p consumer"

type_synonym ('r, 'p, 'v) tx_server = "proto \<Rightarrow> 'v \<Rightarrow> ('r, 'p res_part) transaction_server list \<times> 'v"

definition sy_new :: "transmitter \<Rightarrow> 'v \<Rightarrow> ('r, 'p, 'v) tx_system" where
  "sy_new t v =
     \<lparr>sy_stream = snd (bs_open None (bs_new t)), sy_events = [], sy_received = 0, sy_server = v, sy_responses = [],
      sy_consumer = (\<lambda>_. \<lparr>cs_state = Idle, cs_yielded = []\<rparr>)\<rparr>"

definition bs_dispatcher_state :: "('r, 'p, 'cb) bidi \<Rightarrow> dispatcher" where
  "bs_dispatcher_state s = rt_state (bs_requestTransmitter s) (bs_dispatcher s)"

abbreviation sy_dispatcher :: "('r, 'p, 'v) tx_system \<Rightarrow> dispatcher" where
  "sy_dispatcher s \<equiv> bs_dispatcher_state (sy_stream s)"

text \<open>The server handles the requests of a batch in their order.\<close>

fun serve_all :: "(proto \<Rightarrow> 'v \<Rightarrow> 'm list \<times> 'v) \<Rightarrow> proto list \<Rightarrow> 'v \<Rightarrow> 'm list \<times> 'v" where
  "serve_all serve [] v = ([], v)"
| "serve_all serve (r # rs) v =
     (let (ms, v') = serve r v; (ns, v'') = serve_all serve rs v' in (ms @ ns, v''))"

fun call_ids :: "('r, 'p) stream_event \<Rightarrow> string list" where
  "call_ids (SingleCall k _ _) = [k]"
| "call_ids (StreamCall k _) = [k]"
| "call_ids _ = []"

abbreviation sy_ids :: "('r, 'p) stream_event list \<Rightarrow> string list" where
  "sy_ids evs \<equiv> concat (map call_ids evs)"

definition sy_feed :: "('r, 'p res_part) third_party \<Rightarrow> ('r, 'p res_part) stream_event \<Rightarrow> ('r, 'p, 'v) tx_system
    \<Rightarrow> ('r, 'p, 'v) tx_system" where
  "sy_feed u ev s = s\<lparr>sy_stream := snd (bs_step u ev (sy_stream s)), sy_events := sy_events s @ [ev]\<rparr>"

definition set_consumer :: "string \<Rightarrow> 'p consumer \<Rightarrow> ('r, 'p, 'v) tx_system \<Rightarrow> ('r, 'p, 'v) tx_system" where
  "set_consumer k c s = s\<lparr>sy_consumer := (sy_consumer s)(k := c)\<rparr>"

text \<open>The consumer of stream \<open>k\<close> calls \<open>take\<close> and waits for the promise.\<close>

definition sy_take :: "('r, 'p res_part) third_party \<Rightarrow> string \<Rightarrow> ('r, 'p, 'v) tx_system \<Rightarrow> ('r, 'p, 'v) tx_system" where
  "sy_take u k s =
     (case fst (rc_take k (bs_responsePartCollector (sy_stream s))) of
        None \<Rightarrow> s
      | Some p \<Rightarrow> set_consumer k ((sy_consumer s k)\<lparr>cs_state := Waiting p\<rparr>) (sy_feed u (TakePart k) s))"

text \<open>It goes on with what the promise was settled with.\<close>

definition sy_resume :: "('r, 'p res_part) third_party \<Rightarrow> (stream_state \<Rightarrow> string) \<Rightarrow> string \<Rightarrow> thrown + 'p res_part \<Rightarrow>
    ('r, 'p, 'v) tx_system \<Rightarrow> ('r, 'p, 'v) tx_system" where
  "sy_resume u show_part k r s =
     (let c = sy_consumer s k in
      case pi_resume show_part r of
        None \<Rightarrow> sy_take u k (sy_feed u (MoreCall k) s)
      | Some (Part x) \<Rightarrow> set_consumer k (c\<lparr>cs_state := Idle, cs_yielded := cs_yielded c @ [x]\<rparr>) s
      | Some (Threw e) \<Rightarrow> set_consumer k (c\<lparr>cs_state := Finished (Some e)\<rparr>) s
      | Some _ \<Rightarrow> set_consumer k (c\<lparr>cs_state := Finished None\<rparr>) s)"

text \<open>Steps of the network: the timer of the dispatcher, a batch reaching the server, a message reaching the driver.\<close>

inductive net_step :: "('r, 'p res_part) third_party \<Rightarrow> ('r, 'p, 'v) tx_server \<Rightarrow> ('r, 'p, 'v) tx_system
    \<Rightarrow> ('r, 'p, 'v) tx_system \<Rightarrow> bool"
  for u :: "('r, 'p res_part) third_party" and serve :: "('r, 'p, 'v) tx_server" where
  timer: "bd_timers (sy_dispatcher s) \<noteq> [] \<Longrightarrow> net_step u serve s (sy_feed u TimerFires s)"
| receive: "sy_received s < length (bd_stream (sy_dispatcher s)) \<Longrightarrow>
    bd_stream (sy_dispatcher s) ! sy_received s = Write m \<Longrightarrow>
    serve_all serve (batch_requests (Write m)) (sy_server s) = (ms, v) \<Longrightarrow>
    net_step u serve s
      (s\<lparr>sy_received := Suc (sy_received s), sy_server := v, sy_responses := sy_responses s @ ms\<rparr>)"
| deliver: "sy_responses s = m # ms \<Longrightarrow> net_step u serve s ((sy_feed u (Data m) s)\<lparr>sy_responses := ms\<rparr>)"

text \<open>Steps of the users of the stream: calls, consumers of streams, and closing, also by an error of gRPC.\<close>

inductive use_step :: "('r, 'p res_part) third_party \<Rightarrow> (stream_state \<Rightarrow> string) \<Rightarrow> ('r, 'p, 'v) tx_system
    \<Rightarrow> ('r, 'p, 'v) tx_system \<Rightarrow> bool"
  for u :: "('r, 'p res_part) third_party" and show_part :: "stream_state \<Rightarrow> string" where
  single: "bs_isOpen (sy_stream s) \<Longrightarrow> k \<notin> set (sy_ids (sy_events s)) \<Longrightarrow>
    use_step u show_part s (sy_feed u (SingleCall k (PMsg c fs) b) s)"
| stream: "bs_isOpen (sy_stream s) \<Longrightarrow> k \<notin> set (sy_ids (sy_events s)) \<Longrightarrow>
    use_step u show_part s (sy_feed u (StreamCall k (PMsg c fs)) s)"
| close: "closing ev \<Longrightarrow> use_step u show_part s (sy_feed u ev s)"
| take: "StreamCall k req \<in> set (sy_events s) \<Longrightarrow> cs_state (sy_consumer s k) = Idle \<Longrightarrow>
    use_step u show_part s (sy_take u k s)"
| resume: "StreamCall k req \<in> set (sy_events s) \<Longrightarrow> cs_state (sy_consumer s k) = Waiting p \<Longrightarrow>
    rc_await k p (bs_responsePartCollector (sy_stream s)) = Some r \<Longrightarrow>
    use_step u show_part s (sy_resume u show_part k r s)"

inductive sy_step :: "('r, 'p res_part) third_party \<Rightarrow> (stream_state \<Rightarrow> string) \<Rightarrow> ('r, 'p, 'v) tx_server \<Rightarrow>
    ('r, 'p, 'v) tx_system \<Rightarrow> ('r, 'p, 'v) tx_system \<Rightarrow> bool"
  for u :: "('r, 'p res_part) third_party" and show_part :: "stream_state \<Rightarrow> string" and serve :: "('r, 'p, 'v) tx_server" where
  net: "net_step u serve s t \<Longrightarrow> sy_step u show_part serve s t"
| use: "use_step u show_part s t \<Longrightarrow> sy_step u show_part serve s t"

section \<open>What the requests and messages of a run are\<close>

definition with_id :: "('r, 'p) third_party \<Rightarrow> string \<Rightarrow> proto \<Rightarrow> proto" where
  "with_id u k req = proto_set ''req_id'' (PBytes (uuid_parse u k)) req"

abbreviation request_id :: "proto \<Rightarrow> byte list" where
  "request_id req \<equiv> p_bytes (proto_get ''req_id'' req)"

fun event_requests :: "('r, 'p) third_party \<Rightarrow> ('r, 'p) stream_event \<Rightarrow> proto list" where
  "event_requests u (SingleCall k req b) = [with_id u k req]"
| "event_requests u (StreamCall k req) = [with_id u k req]"
| "event_requests u (MoreCall k) = [Transaction_streamReq (uuid_parse u) k]"
| "event_requests u _ = []"

fun call_request :: "('r, 'p) stream_event \<Rightarrow> proto option" where
  "call_request (SingleCall _ req _) = Some req"
| "call_request (StreamCall _ req) = Some req"
| "call_request _ = None"

fun event_dispatch :: "('r, 'p) third_party \<Rightarrow> ('r, 'p) stream_event \<Rightarrow> dispatcher_step list" where
  "event_dispatch u (SingleCall k req b) = [if b then Dispatch (with_id u k req) else DispatchNow (with_id u k req)]"
| "event_dispatch u (StreamCall k req) = [Dispatch (with_id u k req)]"
| "event_dispatch u (MoreCall k) = [Dispatch (Transaction_streamReq (uuid_parse u) k)]"
| "event_dispatch u TimerFires = [Fire]"
| "event_dispatch u (StreamError _) = [Close]"
| "event_dispatch u StreamDone = [Close]"
| "event_dispatch u (CloseCall _) = [Close]"
| "event_dispatch u _ = []"

fun event_data :: "('r, 'p) stream_event \<Rightarrow> ('r, 'p) transaction_server list" where
  "event_data (Data m) = [m]"
| "event_data _ = []"

fun message_id :: "('r, 'p) transaction_server \<Rightarrow> byte list option" where
  "message_id (Res b _) = Some b"
| "message_id (ResPart b _) = Some b"
| "message_id NoResponse = None"

definition sy_processed :: "('r, 'p, 'v) tx_system \<Rightarrow> proto list" where
  "sy_processed s = concat (map batch_requests (take (sy_received s) (bd_stream (sy_dispatcher s))))"

section \<open>The named hypotheses\<close>

definition answers_carry_id :: "('r, 'p, 'v) tx_server \<Rightarrow> bool" where
  "answers_carry_id serve \<longleftrightarrow>
     (\<forall>req v m. m \<in> set (fst (serve req v)) \<longrightarrow> message_id m = Some (request_id req))"

definition answers_once :: "('r, 'p, 'v) tx_server \<Rightarrow> proto \<Rightarrow> bool" where
  "answers_once serve req \<longleftrightarrow> (\<forall>v. \<exists>r. fst (serve req v) = [Res (request_id req) r])"

definition answers_parts :: "('r, 'p, 'v) tx_server \<Rightarrow> proto \<Rightarrow> bool" where
  "answers_parts serve req \<longleftrightarrow> (\<forall>v. \<exists>ps. fst (serve req v) = map (ResPart (request_id req)) ps)"

fun proper_event :: "('r, 'p res_part) third_party \<Rightarrow> ('r, 'p, 'v) tx_server \<Rightarrow> ('r, 'p res_part) stream_event \<Rightarrow> bool" where
  "proper_event u serve (SingleCall k req b) \<longleftrightarrow>
     uuid_stringify u (uuid_parse u k) = k \<and> answers_once serve (with_id u k req)"
| "proper_event u serve (StreamCall k req) \<longleftrightarrow>
     uuid_stringify u (uuid_parse u k) = k \<and> answers_parts serve (with_id u k req) \<and>
     answers_parts serve (Transaction_streamReq (uuid_parse u) k)"
| "proper_event u serve _ \<longleftrightarrow> True"

definition sy_proper :: "('r, 'p res_part) third_party \<Rightarrow> ('r, 'p, 'v) tx_server \<Rightarrow> ('r, 'p, 'v) tx_system \<Rightarrow> bool" where
  "sy_proper u serve s \<longleftrightarrow> answers_carry_id serve \<and> (\<forall>ev \<in> set (sy_events s). proper_event u serve ev)"

section \<open>Lemmas on events and the server\<close>

lemma serve_all_append:
  "serve_all serve (xs @ ys) v =
     (let (ms, v') = serve_all serve xs v; (ns, v'') = serve_all serve ys v' in (ms @ ns, v''))"
  by (induction xs arbitrary: v) (simp_all add: Let_def split_beta)

lemma serve_all_message:
  assumes "m \<in> set (fst (serve_all serve rs v))"
  shows "\<exists>pre r post. rs = pre @ r # post \<and> m \<in> set (fst (serve r (snd (serve_all serve pre v))))"
  using assms
proof (induction rs arbitrary: v)
  case (Cons r rs)
  show ?case
  proof (cases "m \<in> set (fst (serve r v))")
    case True
    then have "r # rs = [] @ r # rs \<and> m \<in> set (fst (serve r (snd (serve_all serve [] v))))" by simp
    then show ?thesis by blast
  next
    case False
    with Cons.prems have "m \<in> set (fst (serve_all serve rs (snd (serve r v))))"
      by (simp add: Let_def split_beta)
    from Cons.IH [OF this] obtain pre r' post where
      *: "rs = pre @ r' # post" "m \<in> set (fst (serve r' (snd (serve_all serve pre (snd (serve r v))))))" by blast
    then have "r # rs = (r # pre) @ r' # post \<and> m \<in> set (fst (serve r' (snd (serve_all serve (r # pre) v))))"
      by (simp add: Let_def split_beta)
    then show ?thesis by blast
  qed
qed simp

lemma serve_all_request:
  "fst (serve r (snd (serve_all serve pre v))) = ms \<Longrightarrow> set ms \<subseteq> set (fst (serve_all serve (pre @ r # post) v))"
  by (auto simp: serve_all_append Let_def split_beta)

lemma bs_step_dispatcher:
  "bs_dispatcher_state (snd (bs_step u ev s)) = bd_run (event_dispatch u ev) (bs_dispatcher_state s)"
  by (cases ev)
    (auto simp: bs_dispatcher_state_def bidi_defs rt_update_def bd_close_def with_id_def Let_def split_beta
      split: option.split transaction_server.split)

lemma bs_run_dispatcher:
  "bs_dispatcher_state (bs_run u evs s) = bd_run (concat (map (event_dispatch u) evs)) (bs_dispatcher_state s)"
  by (induction evs arbitrary: s) (simp_all add: bs_step_dispatcher)

lemma steps_requests_append: "steps_requests (xs @ ys) = steps_requests xs @ steps_requests ys"
  by (induction xs rule: steps_requests.induct) simp_all

lemma event_dispatch_requests: "steps_requests (event_dispatch u ev) = event_requests u ev"
  by (cases ev) simp_all

lemma bs_sent_state: "bs_sent s = bd_written (bs_dispatcher_state s) @ bd_bufferedRequests (bs_dispatcher_state s)"
  by (simp add: bs_sent_def bs_dispatcher_state_def Let_def)

lemma bs_run_sent: "bs_sent (bs_run u evs s) = bs_sent s @ concat (map (event_requests u) evs)"
proof -
  have "steps_requests (concat (map (event_dispatch u) evs)) = concat (map (event_requests u) evs)"
    by (induction evs) (simp_all add: steps_requests_append event_dispatch_requests)
  then show ?thesis by (simp add: bs_sent_state bs_run_dispatcher bd_run_requests)
qed

lemma bd_step_stream: "\<exists>cs. bd_stream (bd_step st d) = bd_stream d @ cs"
  by (cases st) (auto simp: dispatcher_defs Let_def split: list.split)

lemma bd_run_stream: "\<exists>cs. bd_stream (bd_run sts d) = bd_stream d @ cs"
proof (induction sts arbitrary: d)
  case (Cons st sts)
  then show ?case using bd_step_stream [of st d] by (metis append_assoc fold_simps(2))
qed simp

lemma bs_step_stream: "\<exists>cs. bd_stream (bs_dispatcher_state (snd (bs_step u ev s))) = bd_stream (bs_dispatcher_state s) @ cs"
  by (simp add: bs_step_dispatcher bd_run_stream)

section \<open>The invariant\<close>

text \<open>
  The stream is what its events make of it; the server has handled the batches received so far, in order and once each; its messages are those
  delivered, then those on their way; ids are not reused; and only a stream asks for more.
\<close>

definition sy_invar :: "('r, 'p res_part) third_party \<Rightarrow> ('r, 'p, 'v) tx_server \<Rightarrow> transmitter \<Rightarrow> 'v \<Rightarrow>
    ('r, 'p, 'v) tx_system \<Rightarrow> bool" where
  "sy_invar u serve t v s \<longleftrightarrow>
     sy_stream s = bs_run u (sy_events s) (snd (bs_open None (bs_new t))) \<and>
     serve_all serve (sy_processed s) v = (concat (map event_data (sy_events s)) @ sy_responses s, sy_server s) \<and>
     sy_received s \<le> length (bd_stream (sy_dispatcher s)) \<and>
     distinct (sy_ids (sy_events s)) \<and>
     (\<forall>k. MoreCall k \<in> set (sy_events s) \<longrightarrow> (\<exists>req. StreamCall k req \<in> set (sy_events s))) \<and>
     (\<forall>ev \<in> set (sy_events s). \<forall>req. call_request ev = Some req \<longrightarrow> (\<exists>c fs. req = PMsg c fs))"

lemma sy_feed_simps [simp]:
  "sy_stream (sy_feed u ev s) = snd (bs_step u ev (sy_stream s))"
  "sy_events (sy_feed u ev s) = sy_events s @ [ev]"
  "sy_received (sy_feed u ev s) = sy_received s" "sy_server (sy_feed u ev s) = sy_server s"
  "sy_responses (sy_feed u ev s) = sy_responses s" "sy_consumer (sy_feed u ev s) = sy_consumer s"
  by (simp_all add: sy_feed_def)

lemma set_consumer_simps [simp]:
  "sy_stream (set_consumer k c s) = sy_stream s" "sy_events (set_consumer k c s) = sy_events s"
  "sy_received (set_consumer k c s) = sy_received s" "sy_server (set_consumer k c s) = sy_server s"
  "sy_responses (set_consumer k c s) = sy_responses s"
  "sy_consumer (set_consumer k c s) = (sy_consumer s)(k := c)"
  by (simp_all add: set_consumer_def)

lemma sy_processed_feed:
  assumes "sy_received s \<le> length (bd_stream (sy_dispatcher s))"
  shows "sy_processed (sy_feed u ev s) = sy_processed s"
    "sy_received s \<le> length (bd_stream (sy_dispatcher (sy_feed u ev s)))"
proof -
  obtain cs where "bd_stream (sy_dispatcher (sy_feed u ev s)) = bd_stream (sy_dispatcher s) @ cs"
    using bs_step_stream [of u ev "sy_stream s"] by auto
  with assms show "sy_processed (sy_feed u ev s) = sy_processed s"
    "sy_received s \<le> length (bd_stream (sy_dispatcher (sy_feed u ev s)))"
    by (simp_all add: sy_processed_def)
qed

text \<open>An event that carries no data keeps the invariant when it respects the ids.\<close>

lemma sy_invar_feed:
  assumes "sy_invar u serve t v s" and "event_data ev = []"
    and "\<forall>k \<in> set (call_ids ev). k \<notin> set (sy_ids (sy_events s))"
    and "\<forall>k. ev = MoreCall k \<longrightarrow> (\<exists>req. StreamCall k req \<in> set (sy_events s))"
    and "\<forall>req. call_request ev = Some req \<longrightarrow> (\<exists>c fs. req = PMsg c fs)"
  shows "sy_invar u serve t v (sy_feed u ev s)"
proof -
  have "distinct (call_ids ev)" by (cases ev) simp_all
  then have "distinct (sy_ids (sy_events s) @ call_ids ev)"
    using assms(1,3) by (auto simp: sy_invar_def)
  then show ?thesis
    using assms sy_processed_feed [of s u ev] unfolding sy_invar_def by auto
qed

lemma sy_invar_consumer: "sy_invar u serve t v (set_consumer k c s) \<longleftrightarrow> sy_invar u serve t v s"
  by (simp add: sy_invar_def sy_processed_def)

lemma sy_invar_take: "sy_invar u serve t v s \<Longrightarrow> sy_invar u serve t v (sy_take u k s)"
  unfolding sy_take_def by (auto simp: sy_invar_consumer intro: sy_invar_feed split: option.split)

lemma sy_invar_resume:
  assumes "sy_invar u serve t v s" "StreamCall k req \<in> set (sy_events s)"
  shows "sy_invar u serve t v (sy_resume u sp k r s)"
proof -
  have "sy_invar u serve t v (sy_feed u (MoreCall k) s)"
    using assms by (intro sy_invar_feed) auto
  then show ?thesis
    using assms unfolding sy_resume_def
    by (auto simp: Let_def sy_invar_consumer sy_invar_take split: option.split next_outcome.split)
qed

lemma sy_invar_use: "use_step u sp s s' \<Longrightarrow> sy_invar u serve t v s \<Longrightarrow> sy_invar u serve t v s'"
proof (induction rule: use_step.induct)
  case (close ev s)
  then show ?case by (cases ev) (auto intro: sy_invar_feed)
next
  case (single s k c fs b)
  then show ?case by (intro sy_invar_feed) auto
next
  case (stream s k c fs)
  then show ?case by (intro sy_invar_feed) auto
qed (auto intro: sy_invar_take sy_invar_resume)

lemma sy_invar_net: "net_step u serve s s' \<Longrightarrow> sy_invar u serve t v s \<Longrightarrow> sy_invar u serve t v s'"
proof (induction rule: net_step.induct)
  case (timer s)
  then show ?case by (auto intro: sy_invar_feed)
next
  case (receive s m ms v')
  let ?s = "s\<lparr>sy_received := Suc (sy_received s), sy_server := v', sy_responses := sy_responses s @ ms\<rparr>"
  have "sy_processed ?s = sy_processed s @ batch_requests (Write m)"
    using receive.hyps by (simp add: sy_processed_def take_Suc_conv_app_nth)
  with receive show ?case by (simp add: sy_invar_def serve_all_append del: batch_requests.simps)
next
  case (deliver s m ms)
  then show ?case
    using sy_processed_feed [of s u "Data m"] by (auto simp: sy_invar_def sy_processed_def)
qed

lemma sy_invar_step: "sy_step u sp serve s s' \<Longrightarrow> sy_invar u serve t v s \<Longrightarrow> sy_invar u serve t v s'"
  by (auto elim!: sy_step.cases intro: sy_invar_net sy_invar_use)

lemma sy_invar_new: "sy_invar u serve t v (sy_new t v)"
  by (simp add: sy_invar_def sy_new_def sy_processed_def)

text \<open>The steps of the network go down: requests leave the buffer, timers run out, batches arrive, messages arrive.\<close>

definition net_order :: "(('r, 'p, 'v) tx_system \<times> ('r, 'p, 'v) tx_system) set" where
  "net_order = measures
     [\<lambda>s. length (bd_bufferedRequests (sy_dispatcher s)), \<lambda>s. length (bd_timers (sy_dispatcher s)),
      \<lambda>s. length (bd_stream (sy_dispatcher s)) - sy_received s, \<lambda>s. length (sy_responses s)]"

lemma bd_fire_descends:
  assumes "bd_timers d \<noteq> []"
  shows "length (bd_bufferedRequests (bd_fire d)) < length (bd_bufferedRequests d) \<or>
    bd_bufferedRequests (bd_fire d) = bd_bufferedRequests d \<and> length (bd_timers (bd_fire d)) < length (bd_timers d)"
  using assms by (cases "bd_timers d") (auto simp: dispatcher_defs Let_def)

lemma net_step_descends: "net_step u serve s s' \<Longrightarrow> (s', s) \<in> net_order"
proof (induction rule: net_step.induct)
  case (timer s)
  then show ?case using bd_fire_descends [OF timer] by (auto simp: net_order_def bs_step_dispatcher simp del: bs_step.simps)
next
  case (receive s m ms v')
  then show ?case by (simp add: net_order_def)
next
  case (deliver s m ms)
  then show ?case by (simp add: net_order_def bs_step_dispatcher del: bs_step.simps)
qed

interpretation sy: terminating_system "\<lambda>s. s = sy_new t v" "sy_step u sp serve" "sy_invar u serve t v" "net_step u serve"
    net_order
  by unfold_locales (auto simp: sy_invar_new net_order_def intro: sy_invar_step sy_step.net
      dest: net_step_descends [unfolded net_order_def])

section \<open>What the invariant says about requests and messages\<close>

lemma bs_run_isOpen: "bs_isOpen (bs_run u evs s) \<longleftrightarrow> bs_isOpen s \<and> (\<forall>ev \<in> set evs. \<not> closing ev)"
proof (induction evs arbitrary: s)
  case (Cons ev evs)
  have "closing ev \<Longrightarrow> \<not> bs_isOpen (snd (bs_step u ev s))"
    by (cases ev) (simp_all add: bs_close_def Let_def)
  then show ?case using Cons bs_step_open [of ev u s] by auto
qed simp

lemma sy_invar_stream:
  assumes "sy_invar u serve t v s"
  shows "bs_invar (sy_stream s)"
    and "bs_isOpen (sy_stream s) \<longleftrightarrow> (\<forall>ev \<in> set (sy_events s). \<not> closing ev)"
    and "bs_sent (sy_stream s) = concat (map (event_requests u) (sy_events s))"
    and "bd_invar (sy_dispatcher s)"
    and "\<exists>rest. bs_sent (sy_stream s) = sy_processed s @ rest"
proof -
  have run: "sy_stream s = bs_run u (sy_events s) (snd (bs_open None (bs_new t)))"
    using assms by (simp add: sy_invar_def)
  have new: "bs_dispatcher_state (snd (bs_open None (bs_new t))) = bd_new"
    by (simp add: bs_dispatcher_state_def bs_open_def bs_new_def rt_dispatcher_def Let_def)
  show "bs_invar (sy_stream s)" "bs_isOpen (sy_stream s) \<longleftrightarrow> (\<forall>ev \<in> set (sy_events s). \<not> closing ev)"
    by (simp_all add: run bs_invar_run bs_opened bs_run_isOpen)
  show "bs_sent (sy_stream s) = concat (map (event_requests u) (sy_events s))"
    by (simp add: run bs_run_sent) (simp add: bs_sent_state new bd_new_def bd_written_def)
  show "bd_invar (sy_dispatcher s)"
    by (simp add: run bs_run_dispatcher new bd_invar_run bd_invar_new)
  show "\<exists>rest. bs_sent (sy_stream s) = sy_processed s @ rest"
    unfolding bs_sent_state bd_written_def sy_processed_def
    by (metis append_assoc append_take_drop_id concat_append map_append)
qed

lemma sy_invar_events:
  assumes "sy_invar u serve t v s"
  shows "distinct (sy_ids (sy_events s))"
    and "MoreCall k \<in> set (sy_events s) \<Longrightarrow> \<exists>req. StreamCall k req \<in> set (sy_events s)"
    and "ev \<in> set (sy_events s) \<Longrightarrow> call_request ev = Some req \<Longrightarrow> \<exists>c fs. req = PMsg c fs"
    and "fst (serve_all serve (sy_processed s) v) = concat (map event_data (sy_events s)) @ sy_responses s"
    and "snd (serve_all serve (sy_processed s) v) = sy_server s"
    and "sy_received s \<le> length (bd_stream (sy_dispatcher s))"
  using assms unfolding sy_invar_def by auto

fun event_key :: "('r, 'p) stream_event \<Rightarrow> string option" where
  "event_key (SingleCall k _ _) = Some k"
| "event_key (StreamCall k _) = Some k"
| "event_key (MoreCall k) = Some k"
| "event_key _ = None"

lemma request_id_with_id [simp]: "request_id (with_id u k (PMsg c fs)) = uuid_parse u k"
  by (simp add: with_id_def proto_get_set del: proto_set.simps)

lemma request_id_streamReq [simp]: "request_id (Transaction_streamReq up k) = up k"
  by (simp add: Transaction_streamReq_def)

lemma sy_request_event:
  assumes "sy_invar u serve t v s" "ev \<in> set (sy_events s)" "req \<in> set (event_requests u ev)"
  shows "\<exists>k. event_key ev = Some k \<and> request_id req = uuid_parse u k \<and> k \<in> set (sy_ids (sy_events s))"
proof (cases ev)
  case (SingleCall k r b)
  with sy_invar_events(3) [OF assms(1,2)] obtain c fs where "r = PMsg c fs" by auto
  with SingleCall assms(2,3) show ?thesis by force
next
  case (StreamCall k r)
  with sy_invar_events(3) [OF assms(1,2)] obtain c fs where "r = PMsg c fs" by auto
  with StreamCall assms(2,3) show ?thesis by force
next
  case (MoreCall k)
  with assms(2) sy_invar_events(2) [OF assms(1)] obtain r where "StreamCall k r \<in> set (sy_events s)" by blast
  then have "k \<in> set (sy_ids (sy_events s))" by force
  with MoreCall assms(3) show ?thesis by simp
qed (use assms(3) in simp_all)

text \<open>An id belongs to one call.\<close>

lemma distinct_ids_unique:
  assumes "distinct (sy_ids evs)" "ev \<in> set evs" "ev' \<in> set evs" "k \<in> set (call_ids ev)" "k \<in> set (call_ids ev')"
  shows "ev = ev'"
  using assms
proof (induction evs)
  case (Cons e evs)
  then show ?case by (cases "ev = e"; cases "ev' = e") auto
qed simp

lemma sy_single_unique:
  assumes "sy_invar u serve t v s" "SingleCall k req b \<in> set (sy_events s)" "ev \<in> set (sy_events s)" "event_key ev = Some k"
  shows "ev = SingleCall k req b"
proof -
  note unique = distinct_ids_unique [OF sy_invar_events(1) [OF assms(1)] assms(2), of _ k]
  show ?thesis
  proof (cases ev)
    case (MoreCall j)
    with assms(3,4) sy_invar_events(2) [OF assms(1)] obtain r where "StreamCall k r \<in> set (sy_events s)" by auto
    with unique [of "StreamCall k r"] show ?thesis by simp
  qed (use assms(3,4) unique in force)+
qed

lemma sy_proper_id:
  assumes "sy_proper u serve s" "k \<in> set (sy_ids (sy_events s))"
  shows "uuid_stringify u (uuid_parse u k) = k"
proof -
  have "proper_event u serve ev \<Longrightarrow> k \<in> set (call_ids ev) \<Longrightarrow> ?thesis" for ev
    by (cases ev) auto
  then show ?thesis using assms by (auto simp: sy_proper_def)
qed

text \<open>Where a message comes from: a request that was sent, after all requests sent before it were handled.\<close>

lemma sy_message_origin:
  assumes "sy_invar u serve t v s" "sy_proper u serve s"
    and "m \<in> set (concat (map event_data (sy_events s)) @ sy_responses s)"
  obtains pre req post ev k where "bs_sent (sy_stream s) = pre @ req # post"
    "m \<in> set (fst (serve req (snd (serve_all serve pre v))))" "ev \<in> set (sy_events s)" "req \<in> set (event_requests u ev)"
    "event_key ev = Some k" "request_id req = uuid_parse u k" "message_id m = Some (uuid_parse u k)"
    "k \<in> set (sy_ids (sy_events s))" "uuid_stringify u (uuid_parse u k) = k"
proof -
  have "m \<in> set (fst (serve_all serve (sy_processed s) v))"
    using assms(3) by (simp add: sy_invar_events(4) [OF assms(1)])
  from serve_all_message [OF this] obtain pre req post where
    o: "sy_processed s = pre @ req # post" "m \<in> set (fst (serve req (snd (serve_all serve pre v))))" by blast
  obtain rest where rest: "bs_sent (sy_stream s) = sy_processed s @ rest"
    using sy_invar_stream(5) [OF assms(1)] by blast
  then have "req \<in> set (bs_sent (sy_stream s))" by (simp add: o)
  then obtain ev where ev: "ev \<in> set (sy_events s)" "req \<in> set (event_requests u ev)"
    by (auto simp: sy_invar_stream(3) [OF assms(1)])
  from sy_request_event [OF assms(1) this] obtain k where
    k: "event_key ev = Some k" "request_id req = uuid_parse u k" "k \<in> set (sy_ids (sy_events s))" by blast
  have id: "message_id m = Some (uuid_parse u k)"
    using assms(2) o(2) k(2) by (auto simp: sy_proper_def answers_carry_id_def)
  have "uuid_stringify u (uuid_parse u k) = k" by (rule sy_proper_id [OF assms(2) k(3)])
  moreover have "bs_sent (sy_stream s) = pre @ req # (post @ rest)" by (simp add: rest o(1))
  ultimately show ?thesis using that o(2) ev k id by blast
qed

text \<open>The messages of a request made with \<open>single\<close>.\<close>

lemma sy_single_position:
  assumes "sy_invar u serve t v s" "sy_events s = before @ SingleCall k req b # after"
    and "sy_proper u serve s"
    and "bs_sent (sy_stream s) = pre @ with_id u k req # post"
  shows "pre = concat (map (event_requests u) before)"
proof -
  let ?r = "with_id u k req"
  have call: "SingleCall k req b \<in> set (sy_events s)" by (simp add: assms(2))
  have "distinct (sy_ids before @ k # sy_ids after)"
    using sy_invar_events(1) [OF assms(1)] by (simp add: assms(2))
  then have other: "k \<notin> set (sy_ids before)" "k \<notin> set (sy_ids after)" by auto
  have absent: "?r \<notin> set (concat (map (event_requests u) evs))"
    if evs: "set evs \<subseteq> set (sy_events s)" "SingleCall k req b \<notin> set evs" for evs
  proof
    assume "?r \<in> set (concat (map (event_requests u) evs))"
    then obtain ev where ev: "ev \<in> set evs" "?r \<in> set (event_requests u ev)" by auto
    with evs(1) sy_request_event [OF assms(1), of ev ?r] obtain j where
      j: "event_key ev = Some j" "request_id ?r = uuid_parse u j" "j \<in> set (sy_ids (sy_events s))" by blast
    have "request_id ?r = uuid_parse u k"
      using sy_invar_events(3) [OF assms(1) call] by fastforce
    moreover have "k \<in> set (sy_ids (sy_events s))" using call by force
    ultimately have "j = k" using j sy_proper_id [OF assms(3)] by metis
    with j(1) ev(1) evs sy_single_unique [OF assms(1) call] show False by blast
  qed
  have "SingleCall k req b \<notin> set before" "SingleCall k req b \<notin> set after"
    using other by force+
  then have "?r \<notin> set (concat (map (event_requests u) before))" "?r \<notin> set (concat (map (event_requests u) after))"
    using absent [of before] absent [of after] assms(2) by auto
  moreover have "concat (map (event_requests u) before) @ ?r # concat (map (event_requests u) after) = pre @ ?r # post"
    using sy_invar_stream(3) [OF assms(1)] assms(2,4) by simp
  ultimately show ?thesis by (metis append_Cons_eq_iff)
qed

lemma sy_single_message:
  assumes "sy_invar u serve t v s" "sy_proper u serve s"
    and "m \<in> set (concat (map event_data (sy_events s)) @ sy_responses s)"
    and "sy_events s = before @ SingleCall k req b # after" "message_id m = Some rid" "uuid_stringify u rid = k"
  shows "fst (serve (with_id u k req) (snd (serve_all serve (concat (map (event_requests u) before)) v))) = [m]"
    and "\<exists>r. m = Res (uuid_parse u k) r"
proof -
  have call: "SingleCall k req b \<in> set (sy_events s)" by (simp add: assms(4))
  from sy_message_origin [OF assms(1-3)] obtain pre req' post ev j where
    o: "bs_sent (sy_stream s) = pre @ req' # post" "m \<in> set (fst (serve req' (snd (serve_all serve pre v))))"
    "ev \<in> set (sy_events s)" "req' \<in> set (event_requests u ev)" "event_key ev = Some j"
    "request_id req' = uuid_parse u j" "message_id m = Some (uuid_parse u j)" "uuid_stringify u (uuid_parse u j) = j"
    by metis
  with assms(5,6) have "j = k" by simp
  with o(3,5) have "ev = SingleCall k req b" using sy_single_unique [OF assms(1) call] by simp
  with o(4) have req': "req' = with_id u k req" by simp
  with o(1) have pre: "pre = concat (map (event_requests u) before)"
    using sy_single_position [OF assms(1,4,2)] by simp
  have "answers_once serve (with_id u k req)" using assms(2) call by (auto simp: sy_proper_def)
  then obtain r where "fst (serve req' (snd (serve_all serve pre v))) = [Res (request_id req') r]"
    by (auto simp: answers_once_def req')
  with o(2,6) \<open>j = k\<close> show "\<exists>r. m = Res (uuid_parse u k) r"
    "fst (serve (with_id u k req) (snd (serve_all serve (concat (map (event_requests u) before)) v))) = [m]"
    by (simp_all add: pre req')
qed

section \<open>What a queue receives from an event\<close>

fun closing_error :: "('r, 'p) stream_event \<Rightarrow> error_arg option" where
  "closing_error (StreamError e) = Some e"
| "closing_error (CloseCall err) = err"
| "closing_error _ = None"

definition res_elements :: "(byte list \<Rightarrow> string) \<Rightarrow> string \<Rightarrow> bool \<Rightarrow> ('r, 'p) stream_event \<Rightarrow> 'r queue_element list" where
  "res_elements us k is_open ev =
     (if closing ev then [Done (closing_error ev)]
      else if is_open then map Value (response_for us k ev) else [])"

definition part_elements :: "(byte list \<Rightarrow> string) \<Rightarrow> string \<Rightarrow> bool \<Rightarrow> ('r, 'p) stream_event \<Rightarrow> 'p queue_element list" where
  "part_elements us k is_open ev =
     (if closing ev then [Done (closing_error ev)]
      else if is_open then map Value (part_for us k ev) else [])"

lemma bs_step_res_elements:
  assumes "bs_invar s"
  shows "res_history (snd (bs_step u ev s)) k =
    (if registers_single k ev then Some []
     else map_option (\<lambda>h. h @ res_elements (uuid_stringify u) k (bs_isOpen s) ev) (res_history s k))"
  using assms
  by (cases ev)
    (auto simp: bs_invar_def bidi_defs res_elements_def Let_def split_beta rc.mailbox_laws option.map_ident
      rc_get_None_history split: option.split transaction_server.split)

lemma bs_step_part_elements:
  assumes "bs_invar s"
  shows "part_history (snd (bs_step u ev s)) k =
    (if registers_stream k ev then Some []
     else map_option (\<lambda>h. h @ part_elements (uuid_stringify u) k (bs_isOpen s) ev) (part_history s k))"
  using assms
  by (cases ev)
    (auto simp: bs_invar_def bidi_defs part_elements_def Let_def split_beta rc.mailbox_laws option.map_ident
      rc_get_None_history split: option.split transaction_server.split)

text \<open>
  What a queue holds in a run: while the stream is open the responses with its id, in order of arrival; once it is closed a first part of
  them, then the mark of a closing event.
\<close>

definition queue_content :: "bool \<Rightarrow> ('r, 'p) stream_event list \<Rightarrow> 'a list \<Rightarrow> 'a queue_element list \<Rightarrow> bool" where
  "queue_content is_open evs xs h \<longleftrightarrow>
     (if is_open then h = map Value xs
      else \<exists>ys ev rest. closing ev \<and> ev \<in> set evs \<and> prefix ys xs \<and> h = map Value ys @ Done (closing_error ev) # rest)"

definition sy_queues :: "('r, 'p res_part) third_party \<Rightarrow> ('r, 'p, 'v) tx_system \<Rightarrow> bool" where
  "sy_queues u s \<longleftrightarrow>
     (\<forall>k req b. SingleCall k req b \<in> set (sy_events s) \<longrightarrow>
        (\<exists>h. res_history (sy_stream s) k = Some h \<and>
           queue_content (bs_isOpen (sy_stream s)) (sy_events s)
             (concat (map (response_for (uuid_stringify u) k) (sy_events s))) h)) \<and>
     (\<forall>k req. StreamCall k req \<in> set (sy_events s) \<longrightarrow>
        (\<exists>h. part_history (sy_stream s) k = Some h \<and>
           queue_content (bs_isOpen (sy_stream s)) (sy_events s)
             (concat (map (part_for (uuid_stringify u) k) (sy_events s))) h))"

lemma queue_closedI:
  "closing ev \<Longrightarrow> ev \<in> set evs \<Longrightarrow> prefix ys xs \<Longrightarrow>
   queue_content False evs xs (map Value ys @ Done (closing_error ev) # rest)"
  by (auto simp: queue_content_def)

lemma queue_content_step:
  assumes "queue_content is_open evs xs h"
  shows "queue_content (is_open \<and> \<not> closing ev) (evs @ [ev]) (xs @ ys)
    (h @ (if closing ev then [Done (closing_error ev)] else if is_open then map Value ys else []))"
proof (cases is_open)
  case True
  with assms have h: "h = map Value xs" by (simp add: queue_content_def)
  show ?thesis
  proof (cases "closing ev")
    case True
    then show ?thesis using queue_closedI [of ev "evs @ [ev]" xs "xs @ ys" "[]"] by (simp add: h)
  qed (use \<open>is_open\<close> h in \<open>simp add: queue_content_def\<close>)
next
  case False
  with assms obtain zs e rest where
    h: "closing e" "e \<in> set evs" "prefix zs xs" "h = map Value zs @ Done (closing_error e) # rest"
    by (auto simp: queue_content_def)
  then have "queue_content False (evs @ [ev]) (xs @ ys) (h @ rs)" for rs
    using queue_closedI [of e "evs @ [ev]" zs "xs @ ys" "rest @ rs"] by (simp add: prefix_prefix)
  with False show ?thesis by simp
qed

lemma response_for_member: "r \<in> set (response_for us k ev) \<longleftrightarrow> (\<exists>rid. ev = Data (Res rid r) \<and> us rid = k)"
  by (cases "(us, k, ev)" rule: response_for.cases) auto

lemma part_for_member: "p \<in> set (part_for us k ev) \<longleftrightarrow> (\<exists>rid. ev = Data (ResPart rid p) \<and> us rid = k)"
  by (cases "(us, k, ev)" rule: part_for.cases) auto

lemma bs_step_isOpen: "bs_isOpen (snd (bs_step u ev s)) \<longleftrightarrow> bs_isOpen s \<and> \<not> closing ev"
  using bs_run_isOpen [of u "[ev]" s] by simp

text \<open>A fresh id has no data yet, so that the queue it gets starts with what is still to come.\<close>

lemma fresh_id_no_data:
  assumes "sy_invar u serve t v s" "sy_proper u serve s" "k \<notin> set (sy_ids (sy_events s))"
  shows "concat (map (response_for (uuid_stringify u) k) (sy_events s)) = []"
    and "concat (map (part_for (uuid_stringify u) k) (sy_events s)) = []"
proof -
  have "message_id m = Some rid \<Longrightarrow> uuid_stringify u rid \<noteq> k" if "Data m \<in> set (sy_events s)" for m rid
  proof -
    have "m \<in> set (concat (map event_data (sy_events s)) @ sy_responses s)" using that by force
    from sy_message_origin [OF assms(1,2) this] show "message_id m = Some rid \<Longrightarrow> uuid_stringify u rid \<noteq> k"
      using assms(3) by (metis option.inject)
  qed
  then have *: "Data (Res rid r) \<in> set (sy_events s) \<Longrightarrow> uuid_stringify u rid \<noteq> k"
    "Data (ResPart rid p) \<in> set (sy_events s) \<Longrightarrow> uuid_stringify u rid \<noteq> k" for rid r p
    by fastforce+
  then have "x \<notin> set (concat (map (response_for (uuid_stringify u) k) (sy_events s)))"
    "y \<notin> set (concat (map (part_for (uuid_stringify u) k) (sy_events s)))" for x y
    by (auto simp: response_for_member part_for_member)
  then show "concat (map (response_for (uuid_stringify u) k) (sy_events s)) = []"
    "concat (map (part_for (uuid_stringify u) k) (sy_events s)) = []"
    using last_in_set by blast+
qed

lemma sy_queues_feed:
  assumes "sy_invar u serve t v s" "sy_proper u serve s" "sy_queues u s"
    and "\<forall>k \<in> set (call_ids ev). k \<notin> set (sy_ids (sy_events s)) \<and> bs_isOpen (sy_stream s)"
  shows "sy_queues u (sy_feed u ev s)"
proof -
  note inv = sy_invar_stream(1) [OF assms(1)]
  let ?us = "uuid_stringify u" and ?op = "bs_isOpen (sy_stream s)"
  have "\<exists>h. res_history (snd (bs_step u ev (sy_stream s))) k = Some h \<and>
      queue_content (?op \<and> \<not> closing ev) (sy_events s @ [ev])
        (concat (map (response_for ?us k) (sy_events s)) @ response_for ?us k ev) h"
    if call: "SingleCall k req b \<in> set (sy_events s @ [ev])" for k req b
  proof (cases "registers_single k ev")
    case True
    then have "k \<in> set (call_ids ev)" "\<not> closing ev" "response_for ?us k ev = []" by (cases ev; simp)+
    with True assms(4) fresh_id_no_data(1) [OF assms(1,2)] show ?thesis
      by (simp add: bs_step_res_elements [OF inv] queue_content_def)
  next
    case False
    with call have "SingleCall k req b \<in> set (sy_events s)" by auto
    with assms(3) obtain h where h: "res_history (sy_stream s) k = Some h"
      "queue_content ?op (sy_events s) (concat (map (response_for ?us k) (sy_events s))) h"
      unfolding sy_queues_def by blast
    show ?thesis
      using False h(1) queue_content_step [OF h(2), of ev "response_for ?us k ev"]
      by (simp add: bs_step_res_elements [OF inv] res_elements_def)
  qed
  moreover have "\<exists>h. part_history (snd (bs_step u ev (sy_stream s))) k = Some h \<and>
      queue_content (?op \<and> \<not> closing ev) (sy_events s @ [ev])
        (concat (map (part_for ?us k) (sy_events s)) @ part_for ?us k ev) h"
    if call: "StreamCall k req \<in> set (sy_events s @ [ev])" for k req
  proof (cases "registers_stream k ev")
    case True
    then have "k \<in> set (call_ids ev)" "\<not> closing ev" "part_for ?us k ev = []" by (cases ev; simp)+
    with True assms(4) fresh_id_no_data(2) [OF assms(1,2)] show ?thesis
      by (simp add: bs_step_part_elements [OF inv] queue_content_def)
  next
    case False
    with call have "StreamCall k req \<in> set (sy_events s)" by auto
    with assms(3) obtain h where h: "part_history (sy_stream s) k = Some h"
      "queue_content ?op (sy_events s) (concat (map (part_for ?us k) (sy_events s))) h"
      unfolding sy_queues_def by blast
    show ?thesis
      using False h(1) queue_content_step [OF h(2), of ev "part_for ?us k ev"]
      by (simp add: bs_step_part_elements [OF inv] part_elements_def)
  qed
  ultimately show ?thesis
    unfolding sy_queues_def by (simp add: bs_step_isOpen del: bs_step.simps)
qed

lemma sy_proper_feed: "sy_proper u serve (sy_feed u ev s) \<longleftrightarrow> sy_proper u serve s \<and> proper_event u serve ev"
  by (auto simp: sy_proper_def)

lemma sy_consumer_irrelevant [simp]:
  "sy_proper u serve (set_consumer k c s) \<longleftrightarrow> sy_proper u serve s" "sy_queues u (set_consumer k c s) \<longleftrightarrow> sy_queues u s"
  by (simp_all add: sy_proper_def sy_queues_def)

lemma sy_queues_take:
  assumes "sy_invar u serve t v s" "sy_proper u serve s" "sy_queues u s"
  shows "sy_queues u (sy_take u k s)"
  using sy_queues_feed [OF assms, of "TakePart k"] assms(3) by (auto simp: sy_take_def split: option.split)

lemma sy_step_events: "sy_step u sp serve s s' \<Longrightarrow> \<exists>evs. sy_events s' = sy_events s @ evs"
  by (auto elim!: sy_step.cases net_step.cases use_step.cases
      simp: sy_take_def sy_resume_def Let_def split: option.split next_outcome.split)

lemma sy_proper_step: "sy_step u sp serve s s' \<Longrightarrow> sy_proper u serve s' \<Longrightarrow> sy_proper u serve s"
  by (drule sy_step_events) (auto simp: sy_proper_def)

lemma sy_queues_step:
  assumes "sy_step u sp serve s s'" "sy_invar u serve t v s" "sy_proper u serve s" "sy_queues u s"
  shows "sy_queues u s'"
proof -
  note feed = sy_queues_feed [OF assms(2-4)]
  have more: "sy_queues u (sy_take u k (sy_feed u (MoreCall k) s))" if "StreamCall k req \<in> set (sy_events s)" for k req
  proof (rule sy_queues_take)
    show "sy_invar u serve t v (sy_feed u (MoreCall k) s)"
      using assms(2) that by (intro sy_invar_feed) auto
    show "sy_proper u serve (sy_feed u (MoreCall k) s)" using assms(3) by (simp add: sy_proper_feed)
    show "sy_queues u (sy_feed u (MoreCall k) s)" by (rule feed) simp
  qed
  have "call_ids ev = []" if "closing ev" for ev :: "('a, 'b res_part) stream_event"
    using that by (cases ev) simp_all
  then have close: "sy_queues u (sy_feed u ev s)" if "closing ev" for ev
    using that by (intro feed) simp
  have fields: "sy_queues u (r\<lparr>sy_responses := ms\<rparr>) \<longleftrightarrow> sy_queues u r"
    "sy_queues u (r\<lparr>sy_received := n\<rparr>) \<longleftrightarrow> sy_queues u r" "sy_queues u (r\<lparr>sy_server := v'\<rparr>) \<longleftrightarrow> sy_queues u r" for r ms n v'
    by (simp_all add: sy_queues_def)
  from assms(1) show ?thesis
  proof cases
    case net
    then show ?thesis by cases (simp_all add: fields assms(4) feed)
  next
    case use
    then show ?thesis
    proof cases
      case (resume k req p r)
      then show ?thesis
        using more [OF resume(2)] assms(4)
        by (auto simp: sy_resume_def Let_def split: option.split next_outcome.split)
    qed (auto intro: feed close sy_queues_take [OF assms(2-4)])
  qed
qed

lemma sy_reachable:
  assumes "(sy_step u sp serve)\<^sup>*\<^sup>* (sy_new t v) s" "sy_proper u serve s"
  shows "sy_invar u serve t v s" "sy_queues u s"
proof -
  show "sy_invar u serve t v s" using assms(1) by (rule sy.reachable_invar [OF refl])
  show "sy_queues u s"
    using assms
  proof (induction rule: rtranclp_induct)
    case base
    then show ?case by (simp add: sy_queues_def sy_new_def)
  next
    case (step y z)
    moreover from step have "sy_proper u serve y" by (blast dest: sy_proper_step)
    moreover have "sy_invar u serve t v y" using step(1) by (rule sy.reachable_invar [OF refl])
    ultimately show ?case by (blast intro: sy_queues_step)
  qed
qed

text \<open>What the caller with the first promise has.\<close>

lemma sy_await_first:
  assumes "sy_invar u serve t v s" "res_history (sy_stream s) k = Some h" "queue_content is_open evs rs h"
  shows "rc_await k 0 (bs_responseCollector (sy_stream s)) = Some (Inr r) \<Longrightarrow> \<exists>rs'. rs = r # rs'"
    and "is_open \<Longrightarrow> rs = r # rs' \<Longrightarrow> rc_await k 0 (bs_responseCollector (sy_stream s)) = Some (Inr r)"
    and "\<not> is_open \<Longrightarrow> (\<exists>r. rc_await k 0 (bs_responseCollector (sy_stream s)) = Some (Inr r)) \<or>
      (\<exists>ev \<in> set evs. closing ev \<and> rc_await k 0 (bs_responseCollector (sy_stream s)) =
         Some (Inl (case closing_error ev of Some e \<Rightarrow> typedb_driver_error e | None \<Rightarrow> throw_template TRANSACTION_CLOSED)))"
proof -
  have "rc_invar (bs_responseCollector (sy_stream s))"
    using sy_invar_stream(1) [OF assms(1)] by (simp add: bs_invar_def)
  from rc_await_history [OF this assms(2), of 0]
  have await: "rc_await k 0 (bs_responseCollector (sy_stream s)) =
      (case h of [] \<Rightarrow> None | e # _ \<Rightarrow> Some (rq_resume e))"
    by (cases h) simp_all
  have resume: "rq_resume e = Inr x \<longleftrightarrow> e = Value x" for e and x :: 'a
    by (cases e rule: rq_resume.cases) auto
  show "\<exists>rs'. rs = r # rs'" if "rc_await k 0 (bs_responseCollector (sy_stream s)) = Some (Inr r)"
    using that assms(3) unfolding await queue_content_def
    by (auto split: list.splits if_splits simp: resume Cons_eq_append_conv prefix_def)
  show "rc_await k 0 (bs_responseCollector (sy_stream s)) = Some (Inr r)" if "is_open" "rs = r # rs'"
    using that assms(3) by (simp add: await queue_content_def)
  assume "\<not> is_open"
  with assms(3) obtain ys ev rest where
    "closing ev" "ev \<in> set evs" "h = map Value ys @ Done (closing_error ev) # rest" by (auto simp: queue_content_def)
  then show "(\<exists>r. rc_await k 0 (bs_responseCollector (sy_stream s)) = Some (Inr r)) \<or>
      (\<exists>ev \<in> set evs. closing ev \<and> rc_await k 0 (bs_responseCollector (sy_stream s)) =
         Some (Inl (case closing_error ev of Some e \<Rightarrow> typedb_driver_error e | None \<Rightarrow> throw_template TRANSACTION_CLOSED)))"
    unfolding await by (cases ys) (auto split: option.split)
qed

text \<open>Every message on its way belongs to a call, of the kind of the message.\<close>

lemma sy_message_known:
  assumes "sy_invar u serve t v s" "sy_queues u s" "sy_proper u serve s"
    and "m \<in> set (concat (map event_data (sy_events s)) @ sy_responses s)"
  shows "(\<exists>k r. m = Res (uuid_parse u k) r \<and> uuid_stringify u (uuid_parse u k) = k \<and> res_history (sy_stream s) k \<noteq> None) \<or>
    (\<exists>k p. m = ResPart (uuid_parse u k) p \<and> uuid_stringify u (uuid_parse u k) = k \<and> part_history (sy_stream s) k \<noteq> None)"
proof -
  from sy_message_origin [OF assms(1,3,4)] obtain pre req post ev k where
    o: "m \<in> set (fst (serve req (snd (serve_all serve pre v))))" "ev \<in> set (sy_events s)"
    "req \<in> set (event_requests u ev)" "event_key ev = Some k" "request_id req = uuid_parse u k"
    "uuid_stringify u (uuid_parse u k) = k" by metis
  have stream: ?thesis if "StreamCall k r \<in> set (sy_events s)" "answers_parts serve req" for r
  proof -
    from that(2) obtain ps where "fst (serve req (snd (serve_all serve pre v))) = map (ResPart (request_id req)) ps"
      unfolding answers_parts_def by blast
    with o(1,5) obtain p where "m = ResPart (uuid_parse u k) p" by auto
    with that(1) o(6) assms(2) show ?thesis unfolding sy_queues_def by blast
  qed
  have proper: "proper_event u serve e" if "e \<in> set (sy_events s)" for e
    using assms(3) that by (simp add: sy_proper_def)
  show ?thesis
  proof (cases ev)
    case (SingleCall j r b)
    then have "answers_once serve req" using o(3) proper [OF o(2)] by simp
    then obtain x where "fst (serve req (snd (serve_all serve pre v))) = [Res (request_id req) x]"
      unfolding answers_once_def by blast
    with o(1,5) have "m = Res (uuid_parse u k) x" by simp
    with SingleCall o assms(2) show ?thesis unfolding sy_queues_def by force
  next
    case (StreamCall j r)
    with o proper [OF o(2)] stream [of r] show ?thesis by simp
  next
    case (MoreCall j)
    with o sy_invar_events(2) [OF assms(1)] obtain r where "StreamCall k r \<in> set (sy_events s)" by auto
    with MoreCall o proper [OF this] stream [of r] show ?thesis by simp
  qed (use o(4) in simp_all)
qed

lemma bd_run_no_end: "Close \<notin> set sts \<Longrightarrow> End \<notin> set (bd_stream d) \<Longrightarrow> End \<notin> set (bd_stream (bd_run sts d))"
proof (induction sts arbitrary: d)
  case (Cons st sts)
  then have "End \<notin> set (bd_stream (bd_step st d))"
    by (cases st) (auto simp: dispatcher_defs Let_def split: list.split)
  with Cons show ?case by simp
qed simp

text \<open>When an open stream has come to rest, the server has handled every request and every message has arrived.\<close>

lemma sy_at_rest:
  assumes "sy_invar u serve t v s" "bs_isOpen (sy_stream s)" "\<not> (\<exists>s'. net_step u serve s s')"
  shows "sy_responses s = []" "sy_processed s = bs_sent (sy_stream s)"
proof -
  let ?d = "sy_dispatcher s"
  have no_end: "End \<notin> set (bd_stream ?d)"
  proof -
    have "Close \<notin> set (event_dispatch u ev)" if "\<not> closing ev" for ev
      using that by (cases ev) simp_all
    then have "Close \<notin> set (concat (map (event_dispatch u) (sy_events s)))"
      using sy_invar_stream(2) [OF assms(1)] assms(2) by auto
    moreover have "?d = bd_run (concat (map (event_dispatch u) (sy_events s))) bd_new"
      using assms(1) by (simp add: sy_invar_def bs_run_dispatcher)
        (simp add: bs_dispatcher_state_def bs_open_def bs_new_def rt_dispatcher_def Let_def)
    ultimately show ?thesis using bd_run_no_end [of _ bd_new] by (simp add: bd_new_def)
  qed
  show "sy_responses s = []"
    using assms(3) by (cases "sy_responses s") (auto intro: net_step.deliver)
  have "sy_received s = length (bd_stream ?d)"
  proof (rule ccontr)
    assume "sy_received s \<noteq> length (bd_stream ?d)"
    then have less: "sy_received s < length (bd_stream ?d)" using sy_invar_events(6) [OF assms(1)] by simp
    with no_end obtain m where "bd_stream ?d ! sy_received s = Write m"
      by (metis nth_mem stream_call.exhaust)
    with less assms(3) show False by (metis net_step.receive prod.exhaust)
  qed
  moreover have "bd_timers ?d = []" using assms(3) net_step.timer by blast
  with sy_invar_stream(4) [OF assms(1)] have "bd_bufferedRequests ?d = []"
    by (auto simp: bd_invar_def split: if_splits)
  ultimately show "sy_processed s = bs_sent (sy_stream s)"
    by (simp add: bs_sent_state bd_written_def sy_processed_def)
qed

lemma sy_rest_answered:
  assumes "sy_invar u serve t v s" "sy_queues u s" "sy_proper u serve s" "bs_isOpen (sy_stream s)"
    "SingleCall k req b \<in> set (sy_events s)" "\<not> (\<exists>s'. net_step u serve s s')"
  shows "\<exists>r. rc_await k 0 (bs_responseCollector (sy_stream s)) = Some (Inr r)"
proof -
  let ?us = "uuid_stringify u" and ?rs = "concat (map (response_for (uuid_stringify u) k) (sy_events s))"
  note rest = sy_at_rest [OF assms(1,4,6)]
  obtain pre post where sent: "bs_sent (sy_stream s) = pre @ with_id u k req # post"
    using sy_invar_stream(3) [OF assms(1)] assms(5) by (force dest: split_list)
  have id: "request_id (with_id u k req) = uuid_parse u k"
    using sy_invar_events(3) [OF assms(1,5)] by fastforce
  have "proper_event u serve (SingleCall k req b)" using assms(3,5) by (auto simp: sy_proper_def)
  then obtain r where r: "fst (serve (with_id u k req) (snd (serve_all serve pre v))) = [Res (uuid_parse u k) r]"
    "?us (uuid_parse u k) = k" by (auto simp: answers_once_def id)
  have "Res (uuid_parse u k) r \<in> set (fst (serve_all serve (sy_processed s) v))"
    using serve_all_request [of serve _ pre v, OF r(1), of post] by (simp add: rest(2) sent)
  then have "Res (uuid_parse u k) r \<in> set (concat (map event_data (sy_events s)))"
    using sy_invar_events(4) [OF assms(1)] by (simp add: rest(1))
  then obtain ev where "ev \<in> set (sy_events s)" "Res (uuid_parse u k) r \<in> set (event_data ev)" by auto
  moreover from this(2) have "ev = Data (Res (uuid_parse u k) r)" by (cases ev) auto
  ultimately have "r \<in> set ?rs" using r(2) by (force simp: response_for_member)
  then obtain x xs where "?rs = x # xs" by (cases ?rs) auto
  moreover obtain h where "res_history (sy_stream s) k = Some h"
    "queue_content (bs_isOpen (sy_stream s)) (sy_events s) ?rs h"
    using assms(2,5) unfolding sy_queues_def by blast
  ultimately show ?thesis using sy_await_first(2) [OF assms(1) _ _ assms(4)] by blast
qed

lemma net_steps_calls:
  assumes "(net_step u serve)\<^sup>*\<^sup>* s s'"
  shows "sy_proper u serve s \<Longrightarrow> sy_proper u serve s'" "bs_isOpen (sy_stream s') \<longleftrightarrow> bs_isOpen (sy_stream s)"
    "SingleCall k req b \<in> set (sy_events s) \<Longrightarrow> SingleCall k req b \<in> set (sy_events s')"
  using assms
  by (induction rule: rtranclp_induct)
    (auto elim!: net_step.cases simp: sy_proper_def bs_step_isOpen simp del: bs_step.simps)

text \<open>A message that belongs to a call finds its collector.\<close>

lemma sy_onData_accepts:
  assumes "(sy_step u sp serve)\<^sup>*\<^sup>* (sy_new t v) s" and "sy_proper u serve s"
    and "m \<in> set (concat (map event_data (sy_events s)) @ sy_responses s)"
  shows "fst (bs_onData (uuid_stringify u) (show_server u) m (sy_stream s)) = None"
  using sy_message_known [OF sy_reachable [OF assms(1,2)] assms(2,3)]
  by (auto simp: bs_onData_def bs_collectRes_def bs_collectResPart_def rc_get_None_history [symmetric])

text \<open>A promise that resolves.\<close>

lemma single_call_linearized:
  assumes "(sy_step u sp serve)\<^sup>*\<^sup>* (sy_new t v) s" and "sy_proper u serve s"
    and "SingleCall k req b \<in> set (sy_events s)"
    and "rc_await k 0 (bs_responseCollector (sy_stream s)) = Some (Inr r)"
  shows "\<exists>before after. sy_events s = before @ SingleCall k req b # after \<and>
    fst (serve (with_id u k req) (snd (serve_all serve (concat (map (event_requests u) before)) v))) =
      [Res (uuid_parse u k) r]"
proof -
  let ?us = "uuid_stringify u" and ?rs = "concat (map (response_for (uuid_stringify u) k) (sy_events s))"
  note inv = sy_reachable(1) [OF assms(1,2)]
  obtain h where h: "res_history (sy_stream s) k = Some h"
    "queue_content (bs_isOpen (sy_stream s)) (sy_events s) ?rs h"
    using sy_reachable(2) [OF assms(1,2)] assms(3) unfolding sy_queues_def by blast
  then obtain rs' where "?rs = r # rs'"
    using sy_await_first(1) [OF inv h] assms(4) by blast
  then have "r \<in> set ?rs" by simp
  then obtain rid where rid: "Data (Res rid r) \<in> set (sy_events s)" "?us rid = k"
    by (auto simp: response_for_member)
  obtain before after where split: "sy_events s = before @ SingleCall k req b # after"
    using assms(3) by (metis split_list)
  have "Res rid r \<in> set (concat (map event_data (sy_events s)) @ sy_responses s)" using rid(1) by force
  from sy_single_message [OF inv assms(2) this split _ rid(2)] split show ?thesis by auto
qed

text \<open>
  Nothing removes a queue from its collector: the queue of every request that was ever made is still there, whether or not its response
  was delivered and awaited.
\<close>

lemma queues_never_removed:
  assumes "(sy_step u sp serve)\<^sup>*\<^sup>* (sy_new t v) s" and "sy_proper u serve s"
  shows "SingleCall k req b \<in> set (sy_events s) \<Longrightarrow> rc_get k (bs_responseCollector (sy_stream s)) \<noteq> None"
    and "StreamCall k req \<in> set (sy_events s) \<Longrightarrow> rc_get k (bs_responsePartCollector (sy_stream s)) \<noteq> None"
proof -
  note queues = sy_reachable(2) [OF assms, unfolded sy_queues_def]
  show "rc_get k (bs_responseCollector (sy_stream s)) \<noteq> None" if "SingleCall k req b \<in> set (sy_events s)"
    using conjunct1 [OF queues] that unfolding rc_get_None_history by fastforce
  show "rc_get k (bs_responsePartCollector (sy_stream s)) \<noteq> None" if "StreamCall k req \<in> set (sy_events s)"
    using conjunct2 [OF queues] that unfolding rc_get_None_history by fastforce
qed

section \<open>Executable runs\<close>

text \<open>A scheduler that makes one step when it is enabled, for runs that can be evaluated.\<close>

datatype ('r, 'p) action =
    Event "('r, 'p) stream_event"
  | Receive
  | Deliver
  | Take string
  | Resume string

fun sy_exec :: "('r, 'p res_part) third_party \<Rightarrow> (stream_state \<Rightarrow> string) \<Rightarrow> ('r, 'p, 'v) tx_server \<Rightarrow>
    ('r, 'p res_part) action \<Rightarrow> ('r, 'p, 'v) tx_system \<Rightarrow> ('r, 'p, 'v) tx_system option" where
  "sy_exec u sp serve (Event ev) s =
     (case ev of
        SingleCall k (PMsg c fs) b \<Rightarrow>
          if bs_isOpen (sy_stream s) \<and> k \<notin> set (sy_ids (sy_events s)) then Some (sy_feed u ev s) else None
      | StreamCall k (PMsg c fs) \<Rightarrow>
          if bs_isOpen (sy_stream s) \<and> k \<notin> set (sy_ids (sy_events s)) then Some (sy_feed u ev s) else None
      | TimerFires \<Rightarrow> if bd_timers (sy_dispatcher s) \<noteq> [] then Some (sy_feed u ev s) else None
      | _ \<Rightarrow> if closing ev then Some (sy_feed u ev s) else None)"
| "sy_exec u sp serve Receive s =
     (case drop (sy_received s) (bd_stream (sy_dispatcher s)) of
        Write m # _ \<Rightarrow>
          (let (ms, v) = serve_all serve (batch_requests (Write m)) (sy_server s)
           in Some (s\<lparr>sy_received := Suc (sy_received s), sy_server := v, sy_responses := sy_responses s @ ms\<rparr>))
      | _ \<Rightarrow> None)"
| "sy_exec u sp serve Deliver s =
     (case sy_responses s of
        [] \<Rightarrow> None
      | m # ms \<Rightarrow> Some ((sy_feed u (Data m) s)\<lparr>sy_responses := ms\<rparr>))"
| "sy_exec u sp serve (Take k) s =
     (if list_ex (registers_stream k) (sy_events s) \<and> cs_state (sy_consumer s k) = Idle then Some (sy_take u k s) else None)"
| "sy_exec u sp serve (Resume k) s =
     (case cs_state (sy_consumer s k) of
        Waiting p \<Rightarrow>
          if list_ex (registers_stream k) (sy_events s)
          then map_option (\<lambda>r. sy_resume u sp k r s) (rc_await k p (bs_responsePartCollector (sy_stream s)))
          else None
      | _ \<Rightarrow> None)"

fun sy_execs :: "('r, 'p res_part) third_party \<Rightarrow> (stream_state \<Rightarrow> string) \<Rightarrow> ('r, 'p, 'v) tx_server \<Rightarrow>
    ('r, 'p res_part) action list \<Rightarrow> ('r, 'p, 'v) tx_system \<Rightarrow> ('r, 'p, 'v) tx_system option" where
  "sy_execs u sp serve [] s = Some s"
| "sy_execs u sp serve (a # as) s = Option.bind (sy_exec u sp serve a s) (sy_execs u sp serve as)"

lemma registers_stream_member: "list_ex (registers_stream k) evs \<Longrightarrow> \<exists>req. StreamCall k req \<in> set evs"
  by (induction evs) (auto elim!: registers_stream.elims)

lemma sy_exec_step: "sy_exec u sp serve a s = Some s' \<Longrightarrow> sy_step u sp serve s s'"
proof (induction u sp serve a s rule: sy_exec.induct)
  case (1 u sp serve ev s)
  show ?case
  proof (cases "closing ev")
    case True
    then have "s' = sy_feed u ev s" using 1 by (cases ev) auto
    with True show ?thesis using use_step.close sy_step.use by blast
  next
    case False
    with 1 show ?thesis
      by (auto split: stream_event.splits proto.splits if_splits simp del: set_concat
          intro: sy_step.use [OF use_step.single] sy_step.use [OF use_step.stream] sy_step.net [OF net_step.timer])
  qed
next
  case (2 u sp serve s)
  then obtain m rest ms v where
    r: "drop (sy_received s) (bd_stream (sy_dispatcher s)) = Write m # rest"
    "serve_all serve (batch_requests (Write m)) (sy_server s) = (ms, v)"
    "s' = s\<lparr>sy_received := Suc (sy_received s), sy_server := v, sy_responses := sy_responses s @ ms\<rparr>"
    by (auto split: list.splits stream_call.splits prod.splits)
  then have "sy_received s < length (bd_stream (sy_dispatcher s))"
    by (metis drop_all leI list.distinct(1))
  moreover from this r(1) have "bd_stream (sy_dispatcher s) ! sy_received s = Write m"
    by (simp add: Cons_nth_drop_Suc [symmetric])
  ultimately show ?case unfolding r(3) by (intro sy_step.net net_step.receive [OF _ _ r(2)])
next
  case (3 u sp serve s)
  then show ?case by (auto split: list.splits intro: sy_step.net net_step.deliver)
next
  case (4 u sp serve k s)
  then show ?case by (auto split: if_splits dest!: registers_stream_member intro: sy_step.use use_step.take)
next
  case (5 u sp serve k s)
  then show ?case
    by (auto split: consumer_state.splits if_splits dest!: registers_stream_member intro: sy_step.use use_step.resume)
qed

lemma sy_execs_steps: "sy_execs u sp serve as s = Some s' \<Longrightarrow> (sy_step u sp serve)\<^sup>*\<^sup>* s s'"
proof (induction as arbitrary: s)
  case (Cons a as)
  then show ?case
    by (auto simp: bind_eq_Some_conv dest!: sy_exec_step intro: converse_rtranclp_into_rtranclp)
qed simp

section \<open>An example run\<close>

text \<open>
  A server that answers a query with one answer and a pause, a request for more with one answer and the end, and any other request with the number of
  the request.
\<close>

definition demo_ids :: "(nat, nat res_part) third_party" where
  "demo_ids =
     \<lparr>uuid_parse = (\<lambda>i. if i = ''a'' then [1] else [2]), uuid_stringify = (\<lambda>b. if b = [1] then ''a'' else ''b''),
      show_server = (\<lambda>_. [])\<rparr>"

definition demo_serve :: "(nat, nat, nat) tx_server" where
  "demo_serve req v =
     (let i = request_id req in
      (if proto_get ''query_manager_req'' req \<noteq> PUndefined
       then [ResPart i (DataPart v), ResPart i (StreamPart SS_CONTINUE)]
       else if proto_get ''stream_req'' req \<noteq> PUndefined
       then [ResPart i (DataPart v), ResPart i (StreamPart SS_DONE)]
       else [Res i v], Suc v))"

lemma demo_carries_id: "answers_carry_id demo_serve"
  by (auto simp: answers_carry_id_def demo_serve_def Let_def split: if_splits)

text \<open>Two calls, the first of them batched; one batch with both requests; the first of the two responses has arrived.\<close>

definition demo_run :: "(nat, nat, nat) tx_system option" where
  "demo_run = sy_execs demo_ids (\<lambda>_. []) demo_serve
     [Event (SingleCall ''a'' Transaction_commitReq True), Event (SingleCall ''b'' Transaction_commitReq False),
      Receive, Deliver] (sy_new rt_new 0)"

definition demo_answered :: "(nat, nat, nat) tx_system" where
  "demo_answered = the demo_run"

lemma demo_run_returns: "demo_run = Some demo_answered"
proof -
  have "map_option sy_received demo_run = Some 1" by code_simp
  then have "demo_run \<noteq> None" by auto
  then show ?thesis unfolding demo_answered_def by (rule option.collapse [symmetric])
qed

lemma demo_answered_reachable: "(sy_step demo_ids (\<lambda>_. []) demo_serve)\<^sup>*\<^sup>* (sy_new rt_new 0) demo_answered"
  by (rule sy_execs_steps) (rule demo_run_returns [unfolded demo_run_def])

lemma demo_answered_facts:
  "sy_events demo_answered =
     [SingleCall ''a'' Transaction_commitReq True, SingleCall ''b'' Transaction_commitReq False, Data (Res [1] 0)]"
  "sy_responses demo_answered = [Res [2] 1]" "bs_isOpen (sy_stream demo_answered)"
  "rc_await ''a'' 0 (bs_responseCollector (sy_stream demo_answered)) = Some (Inr 0)"
  by code_simp+

lemma demo_answered_proper: "sy_proper demo_ids demo_serve demo_answered"
  by (simp add: sy_proper_def demo_answered_facts demo_carries_id answers_once_def)
    (simp add: demo_ids_def demo_serve_def with_id_def Transaction_commitReq_def)

section \<open>Properties\<close>

text \<open>
  C2. Concurrent calls are answered as if they were made one after the other: in every run of the stream, the network and the server,
  whatever is batched, delayed or interleaved, a caller whose promise resolves gets the response that the server gives to its request when it
  has handled exactly the requests of the calls before it, in the order of the calls and once each.
\<close>

theorem calls_linearized:
  assumes "(sy_step u sp serve)\<^sup>*\<^sup>* (sy_new t v) s" and "sy_proper u serve s"
    and "SingleCall k req b \<in> set (sy_events s)"
    and "rc_await k 0 (bs_responseCollector (sy_stream s)) = Some (Inr r)"
  shows "\<exists>before after. sy_events s = before @ SingleCall k req b # after \<and>
    fst (serve (with_id u k req) (snd (serve_all serve (concat (map (event_requests u) before)) v))) =
      [Res (uuid_parse u k) r]"
  using single_call_linearized [OF assms] .

theorem calls_linearized_witness:
  "\<exists>before after. sy_events demo_answered = before @ SingleCall ''a'' Transaction_commitReq True # after \<and>
     fst (demo_serve (with_id demo_ids ''a'' Transaction_commitReq)
       (snd (serve_all demo_serve (concat (map (event_requests demo_ids) before)) 0))) = [Res (uuid_parse demo_ids ''a'') 0]"
  by (rule calls_linearized [OF demo_answered_reachable]) (simp_all add: demo_answered_facts demo_answered_proper)

text \<open>
  C4. The stream always finishes its work: in every state an open stream can get into, timers, batches and messages can only take finitely many
  steps, in whatever order they come; the steps lead to a state of rest; and in every state of rest they lead to, each caller of
  \<open>single\<close> has its response.
\<close>

theorem network_comes_to_rest:
  assumes "(sy_step u sp serve)\<^sup>*\<^sup>* (sy_new t v) s" and "sy_proper u serve s" and "bs_isOpen (sy_stream s)"
  shows "wf {(y, x). (sy_step u sp serve)\<^sup>*\<^sup>* (sy_new t v) x \<and> net_step u serve x y} \<and>
    (\<exists>s'. (net_step u serve)\<^sup>*\<^sup>* s s' \<and> \<not> (\<exists>s''. net_step u serve s' s'')) \<and>
    (\<forall>s' k req b. (net_step u serve)\<^sup>*\<^sup>* s s' \<and> \<not> (\<exists>s''. net_step u serve s' s'') \<and>
       SingleCall k req b \<in> set (sy_events s) \<longrightarrow>
       (\<exists>r. rc_await k 0 (bs_responseCollector (sy_stream s')) = Some (Inr r)))"
proof -
  have "\<exists>r. rc_await k 0 (bs_responseCollector (sy_stream s')) = Some (Inr r)"
    if rest: "(net_step u serve)\<^sup>*\<^sup>* s s'" "\<not> (\<exists>s''. net_step u serve s' s'')"
      and "SingleCall k req b \<in> set (sy_events s)" for s' k req b
  proof -
    have "(sy_step u sp serve)\<^sup>*\<^sup>* s s'"
      using rest(1) by (rule rtranclp_mono [THEN predicate2D, rotated]) (auto intro: sy_step.net)
    with assms(1) have reach: "(sy_step u sp serve)\<^sup>*\<^sup>* (sy_new t v) s'" by (rule rtranclp_trans)
    have s': "sy_proper u serve s'" "bs_isOpen (sy_stream s')" "SingleCall k req b \<in> set (sy_events s')"
      using net_steps_calls [OF rest(1)] assms(2,3) that(3) by simp_all
    show ?thesis using sy_rest_answered [OF sy_reachable [OF reach s'(1)] s' rest(2)] .
  qed
  moreover have "wf {(y, x). (sy_step u sp serve)\<^sup>*\<^sup>* (sy_new t v) x \<and> net_step u serve x y}"
    by (rule wf_subset [OF sy.own_terminates [of u serve t v]]) (auto intro: sy.reachable_invar)
  ultimately show ?thesis
    using sy.own_comes_to_rest [OF sy.reachable_invar [OF refl assms(1)]] by blast
qed

theorem network_comes_to_rest_witness:
  "\<exists>s' r. (net_step demo_ids demo_serve)\<^sup>*\<^sup>* demo_answered s' \<and>
     rc_await ''b'' 0 (bs_responseCollector (sy_stream s')) = Some (Inr r)"
proof -
  have call: "SingleCall ''b'' Transaction_commitReq False \<in> set (sy_events demo_answered)"
    by (simp add: demo_answered_facts)
  from network_comes_to_rest [OF demo_answered_reachable] call show ?thesis
    by (simp add: demo_answered_facts demo_answered_proper) blast
qed

text \<open>
  C9. A closed stream leaves no request waiting: in every run, once the stream is closed, by a call or by an error of gRPC, each caller of \<open>single\<close> has
  a response or the exception of a closing event of the run, and no message that is still on its way makes the listener throw when it arrives then.
\<close>

theorem closed_stream_settles_all:
  assumes "(sy_step u sp serve)\<^sup>*\<^sup>* (sy_new t v) s" and "sy_proper u serve s"
    and "\<not> bs_isOpen (sy_stream s)" and "SingleCall k req b \<in> set (sy_events s)"
  shows "((\<exists>r. rc_await k 0 (bs_responseCollector (sy_stream s)) = Some (Inr r)) \<or>
      (\<exists>ev \<in> set (sy_events s). closing ev \<and> rc_await k 0 (bs_responseCollector (sy_stream s)) =
         Some (Inl (case closing_error ev of Some e \<Rightarrow> typedb_driver_error e | None \<Rightarrow> throw_template TRANSACTION_CLOSED)))) \<and>
    (\<forall>m \<in> set (sy_responses s). fst (bs_onData (uuid_stringify u) (show_server u) m (sy_stream s)) = None)"
proof
  obtain h where h: "res_history (sy_stream s) k = Some h"
    "queue_content (bs_isOpen (sy_stream s)) (sy_events s)
       (concat (map (response_for (uuid_stringify u) k) (sy_events s))) h"
    using sy_reachable(2) [OF assms(1,2)] assms(4) unfolding sy_queues_def by blast
  show "(\<exists>r. rc_await k 0 (bs_responseCollector (sy_stream s)) = Some (Inr r)) \<or>
      (\<exists>ev \<in> set (sy_events s). closing ev \<and> rc_await k 0 (bs_responseCollector (sy_stream s)) =
         Some (Inl (case closing_error ev of Some e \<Rightarrow> typedb_driver_error e | None \<Rightarrow> throw_template TRANSACTION_CLOSED)))"
    using sy_await_first(3) [OF sy_reachable(1) [OF assms(1,2)] h assms(3)] .
  show "\<forall>m \<in> set (sy_responses s). fst (bs_onData (uuid_stringify u) (show_server u) m (sy_stream s)) = None"
    using sy_onData_accepts [OF assms(1,2)] by simp
qed

theorem closed_stream_settles_all_witness:
  "let s = sy_feed demo_ids (CloseCall None) demo_answered in
   (\<exists>e. rc_await ''b'' 0 (bs_responseCollector (sy_stream s)) = Some e) \<and> sy_responses s = [Res [2] 1] \<and>
   fst (bs_onData (uuid_stringify demo_ids) (show_server demo_ids) (Res [2] 1) (sy_stream s)) = None"
proof -
  let ?s = "sy_feed demo_ids (CloseCall None) demo_answered"
  have "use_step demo_ids (\<lambda>_. []) demo_answered ?s" by (rule use_step.close) simp
  then have "(sy_step demo_ids (\<lambda>_. []) demo_serve)\<^sup>*\<^sup>* (sy_new rt_new 0) ?s"
    using demo_answered_reachable by (blast intro: rtranclp.rtrancl_into_rtrancl sy_step.use)
  from closed_stream_settles_all [OF this, of "''b''" Transaction_commitReq False] show ?thesis
    by (auto simp: sy_proper_feed demo_answered_facts demo_answered_proper bs_close_history bs_close_def Let_def)
qed

text \<open>
  C23. The listener for data never fails: in every run, the message that arrives next belongs to a call that was made, so that neither
  \<open>UNKNOWN_REQUEST_ID\<close> nor \<open>MISSING_RESPONSE\<close> is thrown.
\<close>

theorem listener_never_throws:
  assumes "(sy_step u sp serve)\<^sup>*\<^sup>* (sy_new t v) s" and "sy_proper u serve s" and "sy_responses s = m # ms"
  shows "fst (bs_onData (uuid_stringify u) (show_server u) m (sy_stream s)) = None"
proof -
  have "m \<in> set (concat (map event_data (sy_events s)) @ sy_responses s)" by (simp add: assms(3))
  then show ?thesis by (rule sy_onData_accepts [OF assms(1,2)])
qed

theorem listener_never_throws_witness:
  "fst (bs_onData (uuid_stringify demo_ids) (show_server demo_ids) (Res [2] 1) (sy_stream demo_answered)) = None"
  by (rule listener_never_throws [OF demo_answered_reachable]) (simp_all add: demo_answered_facts demo_answered_proper)

end
