(* ===== verification/Stream_Consumers.thy ===== *)
theory Stream_Consumers
  imports Transaction_System
begin

text \<open>
  The consumers of streamed answers in the system of \<open>Transaction_System\<close>: what a consumer has seen at each moment of a run, and that at
  rest it has seen everything the server sent in answer to its request. A consumer is a call of \<open>next\<close> of
  \<open>stream/ResponsePartIterator.ts\<close> after the other, each of which may have to wait.
\<close>

section \<open>What a consumer has seen\<close>

text \<open>What one more element does to what a consumer has seen.\<close>

lemma stream_snoc:
  assumes "stream_end sp n es = Blocked m"
  shows "m = n + length es"
    and "stream_answers sp (es @ [e]) =
      stream_answers sp es @ (case pi_resume sp (rq_resume e) of Some (Part x) \<Rightarrow> [x] | _ \<Rightarrow> [])"
    and "stream_pauses (es @ [e]) = (if pi_resume sp (rq_resume e) = None then Suc (stream_pauses es) else stream_pauses es)"
    and "stream_end sp n (es @ [e]) =
      (case pi_resume sp (rq_resume e) of None \<Rightarrow> Blocked (Suc m) | Some (Part x) \<Rightarrow> Blocked (Suc m) | Some r \<Rightarrow> r)"
proof -
  have "m = n + length es \<and>
    stream_answers sp (es @ [e]) =
      stream_answers sp es @ (case pi_resume sp (rq_resume e) of Some (Part x) \<Rightarrow> [x] | _ \<Rightarrow> []) \<and>
    stream_pauses (es @ [e]) = (if pi_resume sp (rq_resume e) = None then Suc (stream_pauses es) else stream_pauses es) \<and>
    stream_end sp n (es @ [e]) =
      (case pi_resume sp (rq_resume e) of None \<Rightarrow> Blocked (Suc m) | Some (Part x) \<Rightarrow> Blocked (Suc m) | Some r \<Rightarrow> r)"
    using assms
  proof (induction sp n es rule: stream_end.induct)
    case (1 sp n)
    show ?case
    proof (cases e)
      case (Value x)
      then show ?thesis using 1 by (cases "(sp, Inr x :: thrown + 'a res_part)" rule: pi_resume.cases) auto
    next
      case (Done err)
      then show ?thesis using 1 by (cases err) auto
    qed (use 1 in auto)
  qed auto
  then show "m = n + length es"
    "stream_answers sp (es @ [e]) =
      stream_answers sp es @ (case pi_resume sp (rq_resume e) of Some (Part x) \<Rightarrow> [x] | _ \<Rightarrow> [])"
    "stream_pauses (es @ [e]) = (if pi_resume sp (rq_resume e) = None then Suc (stream_pauses es) else stream_pauses es)"
    "stream_end sp n (es @ [e]) =
      (case pi_resume sp (rq_resume e) of None \<Rightarrow> Blocked (Suc m) | Some (Part x) \<Rightarrow> Blocked (Suc m) | Some r \<Rightarrow> r)"
    by simp_all
qed

lemma stream_finished:
  assumes "\<And>m. stream_end sp n es \<noteq> Blocked m"
  shows "stream_answers sp (es @ xs) = stream_answers sp es" "stream_pauses (es @ xs) = stream_pauses es"
    "stream_end sp n (es @ xs) = stream_end sp n es"
  using assms by (induction sp n es rule: stream_end.induct) auto

text \<open>
  A consumer has handled the first \<open>n\<close> elements of its queue: it has yielded their answers and asked for more once for each pause among
  them; it has taken these elements, and the next one if it waits.
\<close>

fun consumer_phase :: "consumer_state \<Rightarrow> nat \<Rightarrow> nat \<Rightarrow> 'p next_outcome \<Rightarrow> bool" where
  "consumer_phase Idle taken n out \<longleftrightarrow> taken = n \<and> out = Blocked n"
| "consumer_phase (Waiting p) taken n out \<longleftrightarrow> p = n \<and> taken = Suc n \<and> out = Blocked n"
| "consumer_phase (Finished None) taken n out \<longleftrightarrow> out = EndOfStream"
| "consumer_phase (Finished (Some e)) taken n out \<longleftrightarrow> out = Threw e"

definition consumer_ok :: "(stream_state \<Rightarrow> string) \<Rightarrow> ('r, 'p, 'v) tx_system \<Rightarrow> string \<Rightarrow> bool" where
  "consumer_ok sp s k \<longleftrightarrow>
     (\<exists>q n. rc_get k (bs_responsePartCollector (sy_stream s)) = Some q \<and> n \<le> length (bq_added q) \<and>
        cs_yielded (sy_consumer s k) = stream_answers sp (take n (bq_added q)) \<and>
        count_list (sy_events s) (MoreCall k) = stream_pauses (take n (bq_added q)) \<and>
        consumer_phase (cs_state (sy_consumer s k)) (bq_taken q) n (stream_end sp 0 (take n (bq_added q))))"

definition is_stream :: "('r, 'p) stream_event list \<Rightarrow> string \<Rightarrow> bool" where
  "is_stream evs k \<longleftrightarrow> (\<exists>req. StreamCall k req \<in> set evs)"

definition sy_consumers :: "(stream_state \<Rightarrow> string) \<Rightarrow> ('r, 'p, 'v) tx_system \<Rightarrow> bool" where
  "sy_consumers sp s \<longleftrightarrow>
     (\<forall>k. is_stream (sy_events s) k \<longrightarrow> consumer_ok sp s k) \<and>
     (\<forall>k. \<not> is_stream (sy_events s) k \<longrightarrow> sy_consumer s k = \<lparr>cs_state = Idle, cs_yielded = []\<rparr>)"

lemma is_stream_snoc: "is_stream (evs @ [ev]) k \<longleftrightarrow> is_stream evs k \<or> registers_stream k ev"
  by (cases ev) (auto simp: is_stream_def)

lemma bs_step_part_queue:
  assumes "bs_invar s" "rc_get k (bs_responsePartCollector s) = Some q" "\<not> registers_stream k ev" "ev \<noteq> TakePart k"
  shows "\<exists>q' xs. rc_get k (bs_responsePartCollector (snd (bs_step u ev s))) = Some q' \<and>
    bq_added q' = bq_added q @ xs \<and> bq_taken q' = bq_taken q"
proof -
  have "bq_invar q" using assms(1,2) rc_invar_get by (auto simp: bs_invar_def)
  with assms show ?thesis
    by (cases ev)
      (auto simp: bidi_defs Let_def split_beta rc_get_update rc_get_close rc_get_queue rc_put_def rc_take_def rq_put_def
        rq_close_def bq.fifo_laws split: option.split transaction_server.split)
qed

lemma consumer_okI:
  assumes "rc_get k (bs_responsePartCollector (sy_stream s)) = Some q" "n \<le> length (bq_added q)"
    and "cs_yielded (sy_consumer s k) = stream_answers sp (take n (bq_added q))"
    and "count_list (sy_events s) (MoreCall k) = stream_pauses (take n (bq_added q))"
    and "consumer_phase (cs_state (sy_consumer s k)) (bq_taken q) n (stream_end sp 0 (take n (bq_added q)))"
  shows "consumer_ok sp s k"
  using assms unfolding consumer_ok_def by blast

lemma consumer_ok_feed:
  assumes "bs_invar (sy_stream s)" "consumer_ok sp s k" "\<not> registers_stream k ev" "ev \<noteq> TakePart k" "ev \<noteq> MoreCall k"
  shows "consumer_ok sp (sy_feed u ev s) k"
proof -
  from assms(2) obtain q n where q: "rc_get k (bs_responsePartCollector (sy_stream s)) = Some q" "n \<le> length (bq_added q)"
    and ok: "cs_yielded (sy_consumer s k) = stream_answers sp (take n (bq_added q))"
      "count_list (sy_events s) (MoreCall k) = stream_pauses (take n (bq_added q))"
      "consumer_phase (cs_state (sy_consumer s k)) (bq_taken q) n (stream_end sp 0 (take n (bq_added q)))"
    unfolding consumer_ok_def by blast
  obtain q' xs where q': "rc_get k (bs_responsePartCollector (snd (bs_step u ev (sy_stream s)))) = Some q'"
    "bq_added q' = bq_added q @ xs" "bq_taken q' = bq_taken q"
    using bs_step_part_queue [OF assms(1) q(1) assms(3,4)] by blast
  show ?thesis
    by (rule consumer_okI [of k _ q' n]) (use q q' ok assms(5) in \<open>simp_all del: bs_step.simps\<close>)
qed

lemma sy_take_ok:
  assumes "bs_invar (sy_stream s)" "rc_get k (bs_responsePartCollector (sy_stream s)) = Some q" "n \<le> length (bq_added q)"
    and "bq_taken q = n" "stream_end sp 0 (take n (bq_added q)) = Blocked n"
    and "cs_yielded (sy_consumer s k) = stream_answers sp (take n (bq_added q))"
    and "count_list (sy_events s) (MoreCall k) = stream_pauses (take n (bq_added q))"
  shows "consumer_ok sp (sy_take u k s) k"
proof -
  have "bq_invar q" using assms(1,2) rc_invar_get by (auto simp: bs_invar_def)
  then show ?thesis
    by (intro consumer_okI [of k _ "snd (rq_take q)" n])
      (use assms in \<open>simp_all add: sy_take_def rc_take_def rc_get_update rq_take_def bq.fifo_laws\<close>)
qed

lemma sy_take_other:
  assumes "bs_invar (sy_stream s)" "consumer_ok sp s j" "j \<noteq> k"
  shows "consumer_ok sp (sy_take u k s) j"
proof -
  have "consumer_ok sp (sy_feed u (TakePart k) s) j" using assms by (intro consumer_ok_feed) auto
  then show ?thesis using assms by (auto simp: sy_take_def consumer_ok_def split: option.split)
qed

lemma sy_resume_ok:
  assumes "bs_invar (sy_stream s)" "consumer_ok sp s k" "cs_state (sy_consumer s k) = Waiting p"
    and "rc_await k p (bs_responsePartCollector (sy_stream s)) = Some r"
  shows "consumer_ok sp (sy_resume u sp k r s) k"
proof -
  from assms(2,3) obtain q where q: "rc_get k (bs_responsePartCollector (sy_stream s)) = Some q" "p \<le> length (bq_added q)"
    and ok: "cs_yielded (sy_consumer s k) = stream_answers sp (take p (bq_added q))"
      "count_list (sy_events s) (MoreCall k) = stream_pauses (take p (bq_added q))"
      "bq_taken q = Suc p" "stream_end sp 0 (take p (bq_added q)) = Blocked p"
    by (auto simp: consumer_ok_def)
  have "bq_invar q" using assms(1) q(1) rc_invar_get by (auto simp: bs_invar_def)
  then have p: "p < length (bq_added q)" and r: "r = rq_resume (bq_added q ! p)"
    using assms(4) q(1) by (auto simp: rc_await_def rq_await_def bq.fifo_laws split: if_splits)
  note take = take_Suc_conv_app_nth [OF p] and snoc = stream_snoc(2-4) [OF ok(4), of "bq_added q ! p", folded r]
  show ?thesis
  proof (cases "pi_resume sp r")
    case None
    let ?s = "sy_feed u (MoreCall k) s"
    have inv: "bs_invar (sy_stream ?s)" using assms(1) by (simp add: bs_invar_step del: bs_step.simps)
    have same: "rc_get k (bs_responsePartCollector (sy_stream ?s)) = Some q"
      using q(1) by (simp add: bs_onDispatcher_def)
    show ?thesis
      unfolding sy_resume_def Let_def None option.case
      by (rule sy_take_ok [OF inv same, of "Suc p"]) (use p ok take snoc None in simp_all)
  next
    case (Some out)
    then have "out \<noteq> Blocked m" for m by (cases "(sp, r)" rule: pi_resume.cases) auto
    then show ?thesis
      by (intro consumer_okI [of k _ q "Suc p"])
        (use p q(1) ok take snoc Some in \<open>auto simp: sy_resume_def Let_def split: next_outcome.split\<close>)
  qed
qed

lemma consumer_ok_other:
  assumes "sy_stream s' = sy_stream s" "sy_events s' = sy_events s" "sy_consumer s' k = sy_consumer s k"
  shows "consumer_ok sp s' k \<longleftrightarrow> consumer_ok sp s k"
  using assms by (simp add: consumer_ok_def)

text \<open>A step that makes no new stream is right when it is right for each consumer.\<close>

lemma sy_consumersI:
  assumes "sy_consumers sp s" "\<And>k. is_stream (sy_events s') k \<longleftrightarrow> is_stream (sy_events s) k"
    and "\<And>k. is_stream (sy_events s) k \<Longrightarrow> consumer_ok sp s k \<Longrightarrow> consumer_ok sp s' k"
    and "\<And>k. \<not> is_stream (sy_events s) k \<Longrightarrow> sy_consumer s' k = sy_consumer s k"
  shows "sy_consumers sp s'"
  using assms by (simp add: sy_consumers_def)

lemma sy_consumers_feed:
  assumes "bs_invar (sy_stream s)" "sy_consumers sp s"
    and "\<And>k. \<not> registers_stream k ev" "\<And>k. ev \<noteq> TakePart k" "\<And>k. ev \<noteq> MoreCall k"
  shows "sy_consumers sp (sy_feed u ev s)"
  by (rule sy_consumersI [OF assms(2)])
    (use assms consumer_ok_feed [OF assms(1) _ assms(3-5)] in \<open>simp_all add: is_stream_snoc\<close>)

lemma sy_consumers_stream:
  assumes "sy_invar u serve t v s" "sy_consumers sp s" "k \<notin> set (sy_ids (sy_events s))"
  shows "sy_consumers sp (sy_feed u (StreamCall k req) s)"
proof -
  have fresh: "\<not> is_stream (sy_events s) k" using assms(3) by (force simp: is_stream_def)
  then have "MoreCall k \<notin> set (sy_events s)" using sy_invar_events(2) [OF assms(1)] by (auto simp: is_stream_def)
  then have "count_list (sy_events s) (MoreCall k) = 0" by (rule count_notin)
  moreover have "sy_consumer s k = \<lparr>cs_state = Idle, cs_yielded = []\<rparr>"
    using assms(2) fresh by (simp add: sy_consumers_def)
  ultimately have "consumer_ok sp (sy_feed u (StreamCall k req) s) k"
    by (intro consumer_okI [of k _ bq_new 0])
      (simp_all add: bs_stream_def bs_onDispatcher_def rc_get_queue rq_new_def bq.fifo_laws Let_def)
  moreover have "consumer_ok sp (sy_feed u (StreamCall k req) s) j" if "consumer_ok sp s j" "j \<noteq> k" for j
    using that sy_invar_stream(1) [OF assms(1)] by (intro consumer_ok_feed) auto
  ultimately show ?thesis
    using assms(2) by (auto simp: sy_consumers_def is_stream_snoc)
qed

lemma sy_take_fields:
  "is_stream (sy_events (sy_take u k s)) j \<longleftrightarrow> is_stream (sy_events s) j"
  "j \<noteq> k \<Longrightarrow> sy_consumer (sy_take u k s) j = sy_consumer s j"
  by (auto simp: sy_take_def is_stream_snoc split: option.split)

lemma sy_consumers_take:
  assumes "bs_invar (sy_stream s)" "sy_consumers sp s" "is_stream (sy_events s) k" "cs_state (sy_consumer s k) = Idle"
  shows "sy_consumers sp (sy_take u k s)"
proof (rule sy_consumersI [OF assms(2)])
  have "consumer_ok sp s k" using assms(2,3) by (simp add: sy_consumers_def)
  then have "consumer_ok sp (sy_take u k s) k"
    using assms(1,4) by (auto simp: consumer_ok_def [of sp s] intro: sy_take_ok)
  then show "consumer_ok sp (sy_take u k s) j" if "consumer_ok sp s j" for j
    using that sy_take_other [OF assms(1)] by (cases "j = k") auto
  show "sy_consumer (sy_take u k s) j = sy_consumer s j" if "\<not> is_stream (sy_events s) j" for j
  proof -
    have "j \<noteq> k" using that assms(3) by auto
    then show ?thesis by (rule sy_take_fields(2))
  qed
qed (simp add: sy_take_fields)

lemma sy_consumers_resume:
  assumes "bs_invar (sy_stream s)" "sy_consumers sp s" "is_stream (sy_events s) k"
    and "cs_state (sy_consumer s k) = Waiting p" "rc_await k p (bs_responsePartCollector (sy_stream s)) = Some r"
  shows "sy_consumers sp (sy_resume u sp k r s)"
proof (rule sy_consumersI [OF assms(2)])
  have inv: "bs_invar (sy_stream (sy_feed u (MoreCall k) s))" using assms(1) by (simp add: bs_invar_step del: bs_step.simps)
  have "consumer_ok sp (sy_resume u sp k r s) k"
    using assms by (intro sy_resume_ok [OF _ _ assms(4,5)]) (simp_all add: sy_consumers_def)
  moreover have "consumer_ok sp (sy_resume u sp k r s) j" if "consumer_ok sp s j" "j \<noteq> k" for j
  proof -
    have "consumer_ok sp (sy_take u k (sy_feed u (MoreCall k) s)) j"
      using that assms(1) by (intro sy_take_other [OF inv] consumer_ok_feed) auto
    moreover have "consumer_ok sp (set_consumer k c s) j" for c using that by (simp add: consumer_ok_def)
    ultimately show ?thesis by (simp add: sy_resume_def Let_def split: option.split next_outcome.split)
  qed
  ultimately show "consumer_ok sp (sy_resume u sp k r s) j" if "consumer_ok sp s j" for j
    using that by (cases "j = k") auto
  show "sy_consumer (sy_resume u sp k r s) j = sy_consumer s j" if "\<not> is_stream (sy_events s) j" for j
    using that assms(3)
    by (auto simp: sy_resume_def Let_def sy_take_fields split: option.split next_outcome.split)
qed (simp add: sy_resume_def Let_def sy_take_fields is_stream_snoc split: option.split next_outcome.split)

lemma sy_consumers_step:
  assumes "sy_step u sp serve s s'" "sy_invar u serve t v s" "sy_consumers sp s"
  shows "sy_consumers sp s'"
proof -
  note inv = sy_invar_stream(1) [OF assms(2)]
  have same: "sy_consumers sp r'" if "sy_consumers sp r" "sy_stream r' = sy_stream r" "sy_events r' = sy_events r"
    "sy_consumer r' = sy_consumer r" for r r'
    using that by (simp add: sy_consumers_def consumer_ok_def)
  from assms(1) show ?thesis
  proof cases
    case net
    then show ?thesis
    proof cases
      case timer
      then show ?thesis using inv assms(3) by (auto intro: sy_consumers_feed)
    next
      case (deliver m ms)
      have "sy_consumers sp (sy_feed u (Data m) s)" using inv assms(3) by (intro sy_consumers_feed) auto
      then show ?thesis by (rule same) (simp_all add: deliver)
    qed (simp add: same [OF assms(3)])
  next
    case use
    then show ?thesis
    proof cases
      case (close ev)
      moreover from this have "\<not> registers_stream k ev \<and> ev \<noteq> TakePart k \<and> ev \<noteq> MoreCall k" for k
        by (cases ev) simp_all
      ultimately show ?thesis using inv assms(3) by (auto intro!: sy_consumers_feed)
    next
      case (take k req)
      then show ?thesis using inv assms(3) by (auto simp: is_stream_def intro!: sy_consumers_take)
    next
      case (resume k req p r)
      then show ?thesis using inv assms(3) by (auto simp: is_stream_def intro!: sy_consumers_resume)
    qed (use inv assms in \<open>auto intro!: sy_consumers_feed sy_consumers_stream [OF assms(2)]\<close>)
  qed
qed

lemma sy_consumers_reachable:
  assumes "(sy_step u sp serve)\<^sup>*\<^sup>* (sy_new t v) s"
  shows "sy_consumers sp s"
  using assms
proof (induction rule: rtranclp_induct)
  case base
  then show ?case by (simp add: sy_consumers_def is_stream_def sy_new_def)
next
  case (step y z)
  show ?case by (rule sy_consumers_step [OF step(2) sy.reachable_invar [OF refl step(1)] step(3)])
qed

section \<open>Properties\<close>

text \<open>The parts that the server sends for the stream \<open>k\<close> when it handles the requests \<open>rs\<close> one after the other.\<close>

fun message_part :: "(byte list \<Rightarrow> string) \<Rightarrow> string \<Rightarrow> ('r, 'p) transaction_server \<Rightarrow> 'p list" where
  "message_part us k (ResPart rid p) = (if us rid = k then [p] else [])"
| "message_part us k _ = []"

definition parts_served :: "('r, 'p res_part) third_party \<Rightarrow> ('r, 'p, 'v) tx_server \<Rightarrow> string \<Rightarrow> proto list \<Rightarrow> 'v \<Rightarrow>
    'p res_part list" where
  "parts_served u serve k rs v = concat (map (message_part (uuid_stringify u) k) (fst (serve_all serve rs v)))"

lemma part_for_data: "concat (map (part_for us k) evs) = concat (map (message_part us k) (concat (map event_data evs)))"
proof (induction evs)
  case (Cons ev evs)
  have "part_for us k ev = concat (map (message_part us k) (event_data ev))"
    by (cases "(us, k, ev)" rule: part_for.cases) auto
  with Cons show ?case by simp
qed simp

text \<open>
  C3. Streamed answers arrive complete: in every run that keeps the stream open, when the network is at rest and the consumer of a stream has
  nothing more to do, the consumer has yielded exactly the answers that the server gives for the stream when it handles all requests
  one after the other, in order, up to the end of the stream; it asked for more once for each pause of the server; and it is finished, has thrown, or waits for the
  next part, according to whether the server has ended the stream, has sent a state the driver does not know, or has not ended it.
\<close>

theorem streamed_answers_complete:
  assumes "(sy_step u sp serve)\<^sup>*\<^sup>* (sy_new t v) s" and "sy_proper u serve s" and "bs_isOpen (sy_stream s)"
    and "\<not> (\<exists>s'. net_step u serve s s')"
    and "StreamCall k req \<in> set (sy_events s)" and "cs_state (sy_consumer s k) \<noteq> Idle"
    and "\<forall>p. cs_state (sy_consumer s k) = Waiting p \<longrightarrow> rc_await k p (bs_responsePartCollector (sy_stream s)) = None"
    and "es = map Value (parts_served u serve k (bs_sent (sy_stream s)) v)"
  shows "cs_yielded (sy_consumer s k) = stream_answers sp es \<and>
    count_list (sy_events s) (MoreCall k) = stream_pauses es \<and>
    (case cs_state (sy_consumer s k) of
       Waiting p \<Rightarrow> stream_end sp 0 es = Blocked p
     | Finished (Some e) \<Rightarrow> stream_end sp 0 es = Threw e
     | _ \<Rightarrow> stream_end sp 0 es = EndOfStream)"
proof -
  note inv = sy_reachable(1) [OF assms(1,2)] and rest = sy_at_rest [OF sy_reachable(1) [OF assms(1,2)] assms(3,4)]
  obtain q n where q: "rc_get k (bs_responsePartCollector (sy_stream s)) = Some q" "n \<le> length (bq_added q)"
    and ok: "cs_yielded (sy_consumer s k) = stream_answers sp (take n (bq_added q))"
      "count_list (sy_events s) (MoreCall k) = stream_pauses (take n (bq_added q))"
      "consumer_phase (cs_state (sy_consumer s k)) (bq_taken q) n (stream_end sp 0 (take n (bq_added q)))"
    using sy_consumers_reachable [OF assms(1)] assms(5) unfolding sy_consumers_def is_stream_def consumer_ok_def by blast
  have "bq_added q = map Value (concat (map (part_for (uuid_stringify u) k) (sy_events s)))"
    using sy_reachable(2) [OF assms(1,2)] assms(3,5) q(1)
    unfolding sy_queues_def queue_content_def by (force simp: rc_history_def)
  then have es: "bq_added q = es"
    using rest sy_invar_events(4) [OF inv] by (simp add: assms(8) parts_served_def part_for_data)
  have "bq_invar q" using sy_invar_stream(1) [OF inv] q(1) rc_invar_get by (auto simp: bs_invar_def)
  then have whole: "take n es = es" if "cs_state (sy_consumer s k) = Waiting p" for p
    using that assms(7) ok(3) q es by (auto simp: rc_await_def rq_await_def bq.fifo_laws split: if_splits)
  show ?thesis
  proof (cases "cs_state (sy_consumer s k)")
    case (Waiting p)
    with ok whole es show ?thesis by simp
  next
    case (Finished out)
    then have "stream_end sp 0 (take n es) \<noteq> Blocked m" for m
      using ok(3) es by (cases out) auto
    from stream_finished [OF this, where xs = "drop n es"] Finished ok es show ?thesis
      by (cases out) auto
  qed (use assms(6) in simp)
qed

text \<open>
  A query whose answers come in two batches: the consumer takes the first answer, asks for more at the pause, takes the second answer and sees the
  end.
\<close>

definition demo_query :: proto where
  "demo_query = QueryManager_getReq ''q'' (PMsg ''Options'' [])"

definition demo_stream_run :: "(nat, nat, nat) tx_system option" where
  "demo_stream_run = sy_execs demo_ids (\<lambda>_. []) demo_serve
     [Event (StreamCall ''a'' demo_query), Event TimerFires, Receive, Deliver, Take ''a'', Resume ''a'', Take ''a'', Deliver,
      Resume ''a'', Event TimerFires, Receive, Event TimerFires, Deliver, Deliver, Resume ''a'', Take ''a'', Resume ''a'']
     (sy_new rt_new 0)"

definition demo_streamed :: "(nat, nat, nat) tx_system" where
  "demo_streamed = the demo_stream_run"

lemma demo_stream_run_returns: "demo_stream_run = Some demo_streamed"
proof -
  have "map_option sy_received demo_stream_run = Some 2" by code_simp
  then have "demo_stream_run \<noteq> None" by auto
  then show ?thesis unfolding demo_streamed_def by (rule option.collapse [symmetric])
qed

lemma demo_streamed_reachable: "(sy_step demo_ids (\<lambda>_. []) demo_serve)\<^sup>*\<^sup>* (sy_new rt_new 0) demo_streamed"
  by (rule sy_execs_steps) (rule demo_stream_run_returns [unfolded demo_stream_run_def])

lemma demo_streamed_facts:
  "bs_isOpen (sy_stream demo_streamed)" "cs_state (sy_consumer demo_streamed ''a'') = Finished None"
  "cs_yielded (sy_consumer demo_streamed ''a'') = [0, 1]" "sy_responses demo_streamed = []"
  "sy_received demo_streamed = length (bd_stream (sy_dispatcher demo_streamed))"
  "bd_timers (sy_dispatcher demo_streamed) = []"
  "filter (\<lambda>ev. call_request ev \<noteq> None) (sy_events demo_streamed) = [StreamCall ''a'' demo_query]"
  by code_simp+

lemma demo_streamed_proper: "sy_proper demo_ids demo_serve demo_streamed"
proof -
  have other: "call_request ev = None \<Longrightarrow> proper_event demo_ids demo_serve ev" for ev
    by (cases ev) simp_all
  have query: "proper_event demo_ids demo_serve (StreamCall ''a'' demo_query)"
    by (simp add: answers_parts_def)
      (auto simp: demo_ids_def demo_serve_def with_id_def demo_query_def QueryManager_getReq_def
        QueryManager_queryManagerReq_def Transaction_streamReq_def Let_def Cons_eq_map_conv)
  have "proper_event demo_ids demo_serve ev" if "ev \<in> set (sy_events demo_streamed)" for ev
  proof (cases "call_request ev")
    case (Some req)
    with that have "ev \<in> set (filter (\<lambda>ev. call_request ev \<noteq> None) (sy_events demo_streamed))" by simp
    then have "ev = StreamCall ''a'' demo_query" unfolding demo_streamed_facts(7) by simp
    with query show ?thesis by simp
  qed (rule other)
  then show ?thesis by (simp add: sy_proper_def demo_carries_id)
qed

theorem streamed_answers_complete_witness:
  "stream_answers (\<lambda>_. [])
     (map Value (parts_served demo_ids demo_serve ''a'' (bs_sent (sy_stream demo_streamed)) 0)) = [0, 1]"
proof -
  have "StreamCall ''a'' demo_query \<in> set (filter (\<lambda>ev. call_request ev \<noteq> None) (sy_events demo_streamed))"
    by (simp only: demo_streamed_facts(7)) simp
  then have call: "StreamCall ''a'' demo_query \<in> set (sy_events demo_streamed)" by simp
  have rest: "\<not> (\<exists>s'. net_step demo_ids demo_serve demo_streamed s')"
    by (auto elim!: net_step.cases simp: demo_streamed_facts)
  from streamed_answers_complete [OF demo_streamed_reachable demo_streamed_proper _ rest call _ _ refl] show ?thesis
    by (simp add: demo_streamed_facts)
qed

end
