(* ===== verification/Driver_Lifecycle.thy ===== *)
theory Driver_Lifecycle
  imports Driver_Model Transition_Systems
begin

text \<open>
  The life of a driver: the calls that a program makes on a driver, its sessions and its transactions, the timers of the
  sessions and the failures of transaction streams, as steps on the driver's state, and what holds in every state that is reached
  after the driver was created and opened. A method runs to its end before the next call starts.
\<close>

section \<open>Steps\<close>

text \<open>What \<open>BidirectionalStream.close(error)\<close> changes that the transaction sees.\<close>

definition stream_failed :: "nat \<Rightarrow> error_arg option \<Rightarrow> ('w, unit) drv_io" where
  "stream_failed t e =
     upd_transaction t (\<lambda>tx. tx\<lparr>tx_isOpen := False, tx_error := e\<rparr>)"

datatype lc_call =
    OpenSession string session_type "options option"
  | CloseSession nat
  | PulseFires nat nat
  | OnClose nat nat
  | OnReopen nat nat
  | OpenTransaction nat transaction_type "options option"
  | Execute nat proto "bool option"
  | ExecuteStream nat proto
  | Commit nat
  | Rollback nat
  | CloseTransaction nat
  | StreamFailed nat "error_arg option"
  | GetDatabase string
  | CurrentUser
  | CloseDriver

definition forget :: "('s, 'e, 'a) io \<Rightarrow> ('s, 'e, unit) io" where
  "forget m = io_bind m (\<lambda>_. io_return ())"

fun lc_run :: "'w world_env \<Rightarrow> lc_call \<Rightarrow> ('w, unit) drv_io" where
  "lc_run we (OpenSession name typ opts) = forget (driver_session we name typ opts)"
| "lc_run we (CloseSession i) = session_close we i"
| "lc_run we (PulseFires i h) = pulse_fires we i h"
| "lc_run we (OnClose i cb) = onClose i cb"
| "lc_run we (OnReopen i cb) = onReopen i cb"
| "lc_run we (OpenTransaction i typ opts) = forget (session_transaction we i typ opts)"
| "lc_run we (Execute t req b) = forget (rpcExecute we t req b)"
| "lc_run we (ExecuteStream t req) = forget (rpcStream we t req)"
| "lc_run we (Commit t) = commit we t"
| "lc_run we (Rollback t) = rollback we t"
| "lc_run we (CloseTransaction t) = transaction_close t"
| "lc_run we (StreamFailed t e) = stream_failed t e"
| "lc_run we (GetDatabase name) = forget (io_bind databases (\<lambda>_. dbm_get (we_env we) name))"
| "lc_run we CurrentUser = forget (driver_user (we_env we))"
| "lc_run we CloseDriver = driver_close"

text \<open>A program names sessions and transactions that it was given, and only a pending timer fires.\<close>

fun lc_enabled :: "'w driver \<Rightarrow> lc_call \<Rightarrow> bool" where
  "lc_enabled s (CloseSession i) \<longleftrightarrow> i < dr_session_count s"
| "lc_enabled s (PulseFires i h) \<longleftrightarrow> i < dr_session_count s \<and> h \<in> set (se_timers (dr_session s i))"
| "lc_enabled s (OnClose i cb) \<longleftrightarrow> i < dr_session_count s"
| "lc_enabled s (OnReopen i cb) \<longleftrightarrow> i < dr_session_count s"
| "lc_enabled s (OpenTransaction i typ opts) \<longleftrightarrow> i < dr_session_count s"
| "lc_enabled s (Execute t req b) \<longleftrightarrow> t < dr_transaction_count s"
| "lc_enabled s (ExecuteStream t req) \<longleftrightarrow> t < dr_transaction_count s"
| "lc_enabled s (Commit t) \<longleftrightarrow> t < dr_transaction_count s"
| "lc_enabled s (Rollback t) \<longleftrightarrow> t < dr_transaction_count s"
| "lc_enabled s (CloseTransaction t) \<longleftrightarrow> t < dr_transaction_count s"
| "lc_enabled s (StreamFailed t e) \<longleftrightarrow> t < dr_transaction_count s"
| "lc_enabled s _ \<longleftrightarrow> True"

inductive lc_step :: "'w world_env \<Rightarrow> 'w driver \<Rightarrow> 'w driver \<Rightarrow> bool" for we :: "'w world_env" where
  call: "lc_enabled s c \<Longrightarrow> lc_run we c s = (r, s') \<Longrightarrow> lc_step we s s'"

inductive_cases lc_stepE: "lc_step we s s'"

definition lc_init :: "'w world_env \<Rightarrow> 'w driver \<Rightarrow> bool" where
  "lc_init we s \<longleftrightarrow>
     (\<exists>w addresses credential d r. driver_new w addresses credential = Inr d \<and> driver_open (we_env we) d = (r, s))"

text \<open>Runs for the examples.\<close>

fun lc_runs :: "'w world_env \<Rightarrow> lc_call list \<Rightarrow> 'w driver \<Rightarrow> 'w driver option" where
  "lc_runs we [] s = Some s"
| "lc_runs we (c # cs) s = (if lc_enabled s c then lc_runs we cs (snd (lc_run we c s)) else None)"

lemma lc_runs_steps: "lc_runs we cs s = Some s' \<Longrightarrow> (lc_step we)\<^sup>*\<^sup>* s s'"
proof (induction cs arbitrary: s)
  case (Cons c cs)
  then have "lc_step we s (snd (lc_run we c s))" "(lc_step we)\<^sup>*\<^sup>* (snd (lc_run we c s)) s'"
    by (auto intro: lc_step.call [OF _ prod.collapse [symmetric]] split: if_splits)
  then show ?case by (rule converse_rtranclp_into_rtranclp)
qed simp

section \<open>The invariant\<close>

text \<open>
  A session holds its own transactions, each once; its pending timers are different and were handed out by it; while it is open
  its id is one that a server gave it.
\<close>

definition session_wf :: "nat \<Rightarrow> (nat \<Rightarrow> transaction) \<Rightarrow> nat \<Rightarrow> session \<Rightarrow> bool" where
  "session_wf i tx n se \<longleftrightarrow>
     distinct (se_transactions se) \<and> (\<forall>t \<in> set (se_transactions se). t < n \<and> tx_session (tx t) = i) \<and>
     distinct (se_timers se) \<and> (\<forall>h \<in> set (se_timers se). h < se_timer_count se) \<and>
     (se_isOpen se \<longrightarrow> (\<exists>bs. se_id se = bytesToHexString bs))"

definition pulsing :: "session \<Rightarrow> bool" where
  "pulsing se \<longleftrightarrow> (se_isOpen se \<longrightarrow> se_pulse se \<in> set (se_timers se))"

text \<open>The driver lists sessions under their ids.\<close>

definition registry_wf :: "(string, nat) jmap \<Rightarrow> (nat \<Rightarrow> session) \<Rightarrow> nat \<Rightarrow> bool" where
  "registry_wf table ses n \<longleftrightarrow> jmap_wf table \<and> (\<forall>(sid, i) \<in> set table. i < n \<and> se_id (ses i) = sid)"

definition lc_base :: "'w driver \<Rightarrow> bool" where
  "lc_base s \<longleftrightarrow>
     (\<forall>i. session_wf i (dr_transaction s) (dr_transaction_count s) (dr_session s i)) \<and>
     registry_wf (dr_sessions s) (dr_session s) (dr_session_count s)"

definition lc_invar :: "'w driver \<Rightarrow> bool" where
  "lc_invar s \<longleftrightarrow> lc_base s \<and> (\<forall>i. pulsing (dr_session s i))"

text \<open>
  The invariant with a condition on the sessions: while a session is being opened or reopened, the driver does not list it.
\<close>

type_synonym sessions_condition = "(string, nat) jmap \<Rightarrow> (nat \<Rightarrow> session) \<Rightarrow> nat \<Rightarrow> bool"

definition absent :: "nat \<Rightarrow> sessions_condition" where
  "absent i table ses n \<longleftrightarrow> i < n \<and> i \<notin> set (jmap_values table)"

definition lc_with :: "sessions_condition \<Rightarrow> 'w driver \<Rightarrow> bool" where
  "lc_with Q s \<longleftrightarrow> lc_invar s \<and> Q (dr_sessions s) (dr_session s) (dr_session_count s)"

definition belongs :: "nat \<Rightarrow> nat \<Rightarrow> 'w driver \<Rightarrow> bool" where
  "belongs i t s \<longleftrightarrow>
     t < dr_transaction_count s \<and> tx_session (dr_transaction s t) = i"

lemmas lc_defs = lc_invar_def lc_base_def session_wf_def registry_wf_def pulsing_def

lemma lc_invar_own: "lc_base s \<Longrightarrow> own_transactions i s"
  by (simp add: lc_base_def session_wf_def own_transactions_def)

text \<open>What the invariant is about; the connection layer leaves all of it alone.\<close>

definition lc_view :: "'w driver \<Rightarrow> (string, nat) jmap \<times> (nat \<Rightarrow> session) \<times> nat \<times> (nat \<Rightarrow> transaction) \<times> nat" where
  "lc_view s = (dr_sessions s, dr_session s, dr_session_count s, dr_transaction s, dr_transaction_count s)"

interpretation lifecycle: frame "lc_view :: 'w driver \<Rightarrow> _"
  by unfold_locales (simp_all add: lc_view_def)

lemma lc_view_preserves:
  assumes "keeps lc_view m"
  shows "preserves lc_invar m" "preserves (lc_with Q) m" "preserves (\<lambda>s. lc_with Q s \<and> belongs i t s) m"
  using assms
  by (auto simp: keeps_def preserves_iff lc_view_def lc_invar_def lc_base_def lc_with_def belongs_def)

interpretation lc_ok: stable "lc_with Q :: 'w driver \<Rightarrow> bool" for Q
  by unfold_locales (simp_all add: lc_with_def lc_invar_def lc_base_def)

section \<open>Transactions\<close>

lemma keeps_view_net [keeps_intros]:
  "keeps lc_view (rpcExecute we t req b)" "keeps lc_view (rpcStream we t req)" "keeps lc_view (open_stream we a)"
  "keeps lc_view databases"
  by (auto simp: keeps_def lc_view_def rpcExecute_def rpcStream_def throwTransactionClosed_def open_stream_def
      databases_def Let_def split: prod.split option.split)

text \<open>A change of a transaction that is not its session's.\<close>

lemma upd_transaction_preserves:
  assumes "\<And>tx. tx_session (f tx) = tx_session tx"
  shows "preserves lc_invar (upd_transaction t f)" "preserves (lc_with Q) (upd_transaction t f)"
    "preserves (\<lambda>s. lc_with Q s \<and> belongs i u s) (upd_transaction t f)"
  using assms by (auto simp: preserves_iff session_io lc_defs lc_with_def belongs_def)

lemma transaction_close_preserves: "preserves lc_invar (transaction_close t)"
  by (auto simp: preserves_iff transaction_close_effect lc_defs distinct_removeAll)

lemma transaction_new_belongs:
  "triple (lc_with Q) (transaction_new i typ opts) (\<lambda>t s. lc_with Q s \<and> belongs i t s) (lc_with Q)"
  by (rule tripleI) (auto simp: transaction_new_def Let_def lc_defs lc_with_def belongs_def less_Suc_eq)

lemma transaction_open_belongs:
  "preserves (\<lambda>s. lc_with Q s \<and> belongs i t s) (transaction_open we u)"
  unfolding transaction_open_def
  by (intro triple_intros upd_transaction_preserves lc_view_preserves keeps_intros) simp_all

lemma new_open_transaction_belongs:
  "triple (lc_with Q) (new_open_transaction we i typ opts) (\<lambda>t s. lc_with Q s \<and> belongs i t s) (lc_with Q)"
proof -
  have "triple (\<lambda>s. lc_with Q s \<and> belongs i t s) (io_bind (transaction_open we t) (\<lambda>_. io_return t))
      (\<lambda>t s. lc_with Q s \<and> belongs i t s) (lc_with Q)" for t
    by (rule triple_bind [OF triple_weaken [OF transaction_open_belongs [of Q i t]] triple_return]) auto
  then show ?thesis
    unfolding new_open_transaction_def by (rule triple_bind [OF transaction_new_belongs])
qed

section \<open>Sessions\<close>

text \<open>
  A session may change as long as its part of the invariant holds afterwards; it may change its id only while the driver does not
  list it.
\<close>

lemma lc_invar_session:
  assumes "lc_base s" and "\<And>j. j \<noteq> i \<Longrightarrow> pulsing (dr_session s j)"
    and "session_wf i (dr_transaction s) (dr_transaction_count s) se" and "pulsing se"
    and "se_id se = se_id (dr_session s i) \<or> i \<notin> set (jmap_values (dr_sessions s))"
  shows "lc_invar (s\<lparr>dr_session := (dr_session s)(i := se)\<rparr>)"
proof -
  have "registry_wf (dr_sessions s) ((dr_session s)(i := se)) (dr_session_count s)"
    using assms(1,5) by (force simp: lc_base_def registry_wf_def)
  with assms show ?thesis by (simp add: lc_invar_def lc_base_def)
qed

lemma upd_session_preserves:
  assumes "\<And>tx n se. session_wf i tx n se \<Longrightarrow> session_wf i tx n (f se)" "\<And>se. pulsing se \<Longrightarrow> pulsing (f se)"
    and "\<And>se. se_id (f se) = se_id se"
  shows "preserves lc_invar (upd_session i f)"
proof (rule tripleI)
  fix s :: "'w driver" and x s'
  assume "lc_invar s" "upd_session i f s = (Inr x, s')"
  then show "lc_invar s'"
    using lc_invar_session [of s i "f (dr_session s i)"] assms by (auto simp: session_io lc_invar_def lc_base_def)
qed (simp add: session_io)

lemma upd_absent_preserves:
  assumes "\<And>tx n se. session_wf i tx n se \<Longrightarrow> session_wf i tx n (f se)" "\<And>se. pulsing se \<Longrightarrow> pulsing (f se)"
  shows "preserves (lc_with (absent i)) (upd_session i f)"
proof (rule tripleI)
  fix s :: "'w driver" and x s'
  assume "lc_with (absent i) s" "upd_session i f s = (Inr x, s')"
  then show "lc_with (absent i) s'"
    using lc_invar_session [of s i "f (dr_session s i)"] assms
    by (auto simp: session_io lc_with_def absent_def lc_invar_def lc_base_def)
qed (simp add: session_io)

lemma set_pulse_wf: "session_wf i tx n se \<Longrightarrow> session_wf i tx n (set_pulse se)"
  by (auto simp: session_wf_def set_pulse_def less_Suc_eq)

lemma set_pulse_pulsing: "pulsing (set_pulse se)"
  by (simp add: pulsing_def set_pulse_def)

lemma set_pulse_id [simp]: "se_id (set_pulse se) = se_id se"
  by (simp add: set_pulse_def)

lemma openAt_preserves: "preserves (lc_with (absent i)) (openAt we i d)"
proof -
  have "keeps lc_view (with_stub d (\<lambda>st. sessionOpen (we_env we) st req))" for req
    unfolding with_stub_def sessionOpen_def by (intro keeps_intros)
  then show ?thesis
    unfolding openAt_def
    by (intro triple_intros lc_view_preserves upd_absent_preserves set_pulse_wf set_pulse_pulsing)
      (auto simp: session_wf_def)
qed

lemma reopenAt_preserves: "preserves (lc_with (absent i)) (reopenAt we i d)"
  unfolding reopenAt_def
  by (intro triple_intros openAt_preserves upd_absent_preserves) (simp_all add: session_wf_def pulsing_def)

lemma session_open_preserves: "preserves (lc_with (absent i)) (session_open we i)"
proof -
  have "preserves (lc_with (absent i)) (upd_session i (\<lambda>se. se\<lparr>se_database := d\<rparr>))" for d
    by (rule upd_absent_preserves) (simp_all add: session_wf_def pulsing_def)
  then have run: "preserves (lc_with (absent i))
      (case db of
         InheritedMember _ \<Rightarrow> io_throw e
       | CachedDatabase d \<Rightarrow>
           io_bind (upd_session i (\<lambda>se. se\<lparr>se_database := d\<rparr>)) (\<lambda>_.
           runFailsafe (we_env we) d (\<lambda>sd _. openAt we i sd)))" for db e
    by (cases db) (auto intro!: triple_intros openAt_preserves)
  have "preserves (lc_with (absent i)) databases" by (intro lc_view_preserves keeps_intros)
  with run show ?thesis
    unfolding session_open_def by (intro triple_intros)
qed

lemma session_new_absent:
  "triple lc_invar (session_new name typ opts) (\<lambda>i s. lc_with (absent i) s) lc_invar"
  by (rule tripleI) (auto simp: session_new_def Let_def lc_defs lc_with_def absent_def)

lemma register_preserves:
  "lc_with (absent i) s \<Longrightarrow> jmap_get (dr_sessions s) (se_id (dr_session s i)) = None \<Longrightarrow>
   lc_invar (s\<lparr>dr_sessions := jmap_set (se_id (dr_session s i)) i (dr_sessions s)\<rparr>)"
  using set_jmap_set [of "se_id (dr_session s i)" i "dr_sessions s"]
  by (auto simp: lc_with_def absent_def lc_invar_def lc_base_def registry_wf_def)

lemma driver_session_preserves: "preserves lc_invar (driver_session we name typ opts)"
proof -
  let ?register = "\<lambda>i. io_bind (io_gets (\<lambda>s. se_id (dr_session s i))) (\<lambda>sid.
       io_bind (io_gets (\<lambda>s. jmap_get (dr_sessions s) sid)) (\<lambda>known.
       case known of
         Some _ \<Rightarrow> io_throw (throw_message SESSION_ID_EXISTS [sid])
       | None \<Rightarrow> io_bind (io_update (\<lambda>s. s\<lparr>dr_sessions := jmap_set sid i (dr_sessions s)\<rparr>)) (\<lambda>_. io_return i))) :: ('a, nat) drv_io"
  have register: "triple (lc_with (absent i)) (?register i) (\<lambda>_. lc_invar) lc_invar" for i
    by (rule tripleI) (auto simp: io_simps register_preserves lc_with_def split: option.splits)
  have "triple lc_invar (io_bind (session_new name typ o') (\<lambda>i. io_bind (session_open we i) (\<lambda>_. ?register i)))
      (\<lambda>_. lc_invar) lc_invar" for o'
    by (rule triple_bind [OF session_new_absent], rule triple_bind [OF _ register],
        rule triple_weaken [OF session_open_preserves]) (auto simp: lc_with_def)
  then show ?thesis
    unfolding driver_session_def
    by (intro triple_bind_invariant [OF preserves_basic(2)] triple_cases(1) [OF preserves_basic(1)])
qed

text \<open>Closing a session, whether or not its pulse is pending.\<close>

lemma closeResources_closes:
  assumes "lc_base s" and "\<And>j. j \<noteq> i \<Longrightarrow> pulsing (dr_session s j)" and "closeResources i s = (r, s')"
  shows "r = Inr () \<and> lc_invar s' \<and> i \<notin> set (jmap_values (dr_sessions s')) \<and> dr_session_count s' = dr_session_count s"
proof -
  from closeResources_effect [OF lc_invar_own [OF assms(1)], of i] assms(3)
  have r: "r = Inr ()" and i: "dr_session s' i = clear_pulse ((dr_session s i)\<lparr>se_isOpen := False, se_transactions := [],
      se_called := se_called (dr_session s i) @ se_onClose (dr_session s i)\<rparr>)"
    and tx: "\<And>t. tx_session (dr_transaction s' t) = tx_session (dr_transaction s t)"
    and other: "\<And>j. j \<noteq> i \<Longrightarrow> dr_session s' j = dr_session s j"
    and table: "dr_sessions s' = jmap_delete (se_id (dr_session s i)) (dr_sessions s)"
    and count: "dr_session_count s' = dr_session_count s" "dr_transaction_count s' = dr_transaction_count s"
    by auto
  have "session_wf j (dr_transaction s') (dr_transaction_count s') (dr_session s' j) \<and> pulsing (dr_session s' j)" for j
    using assms(1) assms(2) [of j] i other [of j]
    by (cases "j = i") (auto simp: lc_base_def session_wf_def pulsing_def clear_pulse_def tx count distinct_removeAll)
  moreover have "se_id (dr_session s' j) = se_id (dr_session s j)" for j
    using i other [of j] by (cases "j = i") (auto simp: clear_pulse_def)
  then have "registry_wf (dr_sessions s') (dr_session s') (dr_session_count s')"
    and "i \<notin> set (jmap_values (dr_sessions s'))"
    using assms(1) table count jmap_wf_delete [of "dr_sessions s"] by (auto simp: lc_base_def registry_wf_def)
  ultimately show ?thesis using r count by (simp add: lc_invar_def lc_base_def)
qed

lemma closeResources_preserves: "preserves lc_invar (closeResources i)"
  by (rule tripleI; drule closeResources_closes [rotated 2]) (auto simp: lc_invar_def)

lemma closeResources_absent:
  "triple (lc_with (\<lambda>table ses n. i < n \<and> se_isOpen (ses i))) (closeResources i) (\<lambda>_. lc_with (absent i)) (lc_with (absent i))"
  by (rule tripleI; drule closeResources_closes [rotated 2]) (auto simp: lc_with_def absent_def lc_invar_def)

text \<open>The request that tells the server, after the resources were released.\<close>

definition tell_close :: "'w world_env \<Rightarrow> nat \<Rightarrow> ('w, unit) drv_io" where
  "tell_close we i =
     io_bind (io_gets (\<lambda>s. dr_session s i)) (\<lambda>se.
     io_bind (io_lift (Session_closeReq (se_id se))) (\<lambda>req.
     with_stub (se_serverDriver se) (\<lambda>st. sessionClose (we_env we) st req)))"

lemma keeps_tell_close: "keeps lc_view (tell_close we i)"
  unfolding tell_close_def with_stub_def sessionClose_def by (intro keeps_intros)

lemma session_close_tell:
  "session_close we i = io_bind (io_gets (\<lambda>s. se_isOpen (dr_session s i))) (\<lambda>is_open.
     if is_open then io_bind (closeResources i) (\<lambda>_. tell_close we i) else io_return ())"
  unfolding session_close_def tell_close_def by (rule refl)

lemma session_close_preserves: "preserves lc_invar (session_close we i)"
  unfolding session_close_tell
  by (intro triple_intros closeResources_preserves lc_view_preserves keeps_tell_close)

lemma session_close_absent:
  "triple (lc_with (\<lambda>table ses n. i < n \<and> se_isOpen (ses i))) (session_close we i) (\<lambda>_. lc_with (absent i)) lc_invar"
proof (rule triple_weaken)
  let ?P = "lc_with (\<lambda>table ses n. i < n \<and> se_isOpen (ses i)) :: 'a driver \<Rightarrow> bool"
  have "session_close we i s = io_bind (closeResources i) (\<lambda>_. tell_close we i) s" if "?P s" for s
    using that by (simp add: session_close_tell io_simps lc_with_def)
  then show "triple ?P (session_close we i) (\<lambda>_. lc_with (absent i)) (lc_with (absent i))"
    using triple_bind [OF closeResources_absent lc_view_preserves(2) [OF keeps_tell_close]] by (simp add: triple_def)
qed (simp_all add: lc_with_def)

text \<open>Opening a transaction, also over the reconnection of the session.\<close>

lemma hold_preserves:
  assumes "lc_invar s" and "belongs i t s"
  shows "lc_invar (s\<lparr>dr_session := (dr_session s)(i :=
    (dr_session s i)\<lparr>se_transactions := set_add t (se_transactions (dr_session s i))\<rparr>)\<rparr>)"
  by (rule lc_invar_session) (use assms in \<open>auto simp: lc_defs belongs_def\<close>)

lemma session_transaction_preserves:
  "triple (\<lambda>s. lc_invar s \<and> i < dr_session_count s) (session_transaction we i typ opts) (\<lambda>_. lc_invar) lc_invar"
proof -
  let ?P = "lc_with (\<lambda>table ses n. i < n \<and> se_isOpen (ses i)) :: 'a driver \<Rightarrow> bool"
  let ?held = "\<lambda>t s. lc_invar s \<and> belongs i t s"
  let ?opts = "case opts of None \<Rightarrow> options_default | Some o' \<Rightarrow> o'"
  let ?task = "\<lambda>sd. io_bind (reopenAt we i sd) (\<lambda>_. new_open_transaction we i typ ?opts)"
  have "triple (lc_with (absent i)) (io_bind (io_gets (\<lambda>s. se_database (dr_session s i))) (\<lambda>d.
      runFailsafe (we_env we) d (\<lambda>sd _. ?task sd))) (\<lambda>t s. lc_with (absent i) s \<and> belongs i t s) (lc_with (absent i))"
    by (intro triple_intros reopenAt_preserves new_open_transaction_belongs)
  then have "triple (lc_with (absent i)) (io_bind (io_gets (\<lambda>s. se_database (dr_session s i))) (\<lambda>d.
      runFailsafe (we_env we) d (\<lambda>sd _. ?task sd))) ?held lc_invar"
    by (rule triple_weaken) (auto simp: lc_with_def)
  from triple_bind [OF session_close_absent this]
  have recover: "triple ?P (io_bind (session_close we i) (\<lambda>_. io_bind (io_gets (\<lambda>s. se_database (dr_session s i))) (\<lambda>d.
      runFailsafe (we_env we) d (\<lambda>sd _. ?task sd)))) ?held lc_invar" .
  have new: "triple ?P (new_open_transaction we i typ ?opts) ?held ?P"
    by (rule triple_weaken [OF new_open_transaction_belongs]) (auto simp: lc_with_def)
  have hold: "triple (?held t) (io_bind (upd_session i (\<lambda>se. se\<lparr>se_transactions := set_add t (se_transactions se)\<rparr>)) (\<lambda>_. io_return t))
      (\<lambda>_. lc_invar) lc_invar" for t
    by (rule tripleI) (auto simp: session_io hold_preserves)
  have "triple ?P (io_bind (io_catch (new_open_transaction we i typ ?opts)
      (\<lambda>e. io_bind (session_close we i) (\<lambda>_. io_bind (io_gets (\<lambda>s. se_database (dr_session s i))) (\<lambda>d.
         runFailsafe (we_env we) d (\<lambda>sd _. ?task sd)))))
      (\<lambda>t. io_bind (upd_session i (\<lambda>se. se\<lparr>se_transactions := set_add t (se_transactions se)\<rparr>)) (\<lambda>_. io_return t)))
      (\<lambda>_. lc_invar) lc_invar"
    by (rule triple_bind [OF triple_catch [OF new recover] hold])
  then show ?thesis
    by (simp add: triple_def session_transaction_def io_gets_def io_throw_def io_bind_def [of "io_gets _"] Let_def lc_with_def)
qed

section \<open>The pulse\<close>

lemma pulse_effect:
  assumes "lc_base s" and "\<And>j. j \<noteq> i \<Longrightarrow> pulsing (dr_session s j)" and "pulse we i s = (r, s')"
  shows "r = Inr () \<and> lc_invar s' \<and> (se_isOpen (dr_session s' i) \<longrightarrow> dr_session s' i = set_pulse (dr_session s i))"
proof (cases "se_isOpen (dr_session s i)")
  case False
  have "pulsing (dr_session s j)" for j using assms(2) False by (cases "j = i") (auto simp: pulsing_def)
  with assms(1,3) False show ?thesis by (simp add: pulse_def io_simps lc_invar_def)
next
  case True
  let ?ask = "\<lambda>req. with_stub (se_serverDriver (dr_session s i)) (\<lambda>st. sessionPulse (we_env we) st req) :: ('a, bool) drv_io"
  have wf: "session_wf i (dr_transaction s) (dr_transaction_count s) (dr_session s i)"
    using assms(1) by (simp add: lc_base_def)
  then obtain req where req: "Session_pulseReq (se_id (dr_session s i)) = Inr req"
    using True by (auto simp: session_wf_def Session_pulseReq_def)
  obtain a s1 where ask: "?ask req s = (a, s1)" by fastforce
  have "keeps lc_view (?ask req)"
    unfolding with_stub_def sessionPulse_def by (intro keeps_intros)
  from keepsD [OF this ask] have same: "lc_view s1 = lc_view s" .
  then have base: "lc_base s1" and other: "\<And>j. j \<noteq> i \<Longrightarrow> pulsing (dr_session s1 j)"
    and i: "dr_session s1 i = dr_session s i"
    using assms(1,2) by (simp_all add: lc_view_def lc_base_def)
  from wf same have wf1: "session_wf i (dr_transaction s1) (dr_transaction_count s1) (dr_session s i)"
    by (simp add: lc_view_def)
  consider "a = Inr False" | "a = Inr True" | e where "a = Inl e" by (cases a) auto
  then show ?thesis
  proof cases
    case 1
    obtain r2 s2 where c: "closeResources i s1 = (r2, s2)" by fastforce
    have closed: "r2 = Inr () \<and> lc_invar s2" using closeResources_closes [OF base other c] by blast
    moreover have "\<not> se_isOpen (dr_session s2 i)"
      using closeResources_effect [OF lc_invar_own [OF base], of i] c by (auto simp: clear_pulse_def)
    ultimately show ?thesis
      using assms(3) True req ask c 1 by (simp add: pulse_def io_simps)
  next
    case 2
    have "lc_invar (s1\<lparr>dr_session := (dr_session s1)(i := set_pulse (dr_session s1 i))\<rparr>)"
      by (rule lc_invar_session [OF base other]) (use wf1 i in \<open>simp_all add: set_pulse_wf set_pulse_pulsing\<close>)
    then show ?thesis
      using assms(3) True req ask i 2 by (auto simp: pulse_def session_io)
  next
    case 3
    have "lc_invar (s1\<lparr>dr_session := (dr_session s1)(i := (dr_session s1 i)\<lparr>se_isOpen := False\<rparr>)\<rparr>)"
      by (rule lc_invar_session [OF base other]) (use wf1 i in \<open>simp_all add: session_wf_def pulsing_def\<close>)
    then show ?thesis
      using assms(3) True req ask i 3 by (auto simp: pulse_def session_io)
  qed
qed

lemma pulse_fires_effect:
  assumes "lc_invar s" and "pulse_fires we i h s = (r, s')"
  shows "r = Inr () \<and> lc_invar s' \<and>
    (se_isOpen (dr_session s' i) \<longrightarrow>
       dr_session s' i = set_pulse ((dr_session s i)\<lparr>se_timers := removeAll h (se_timers (dr_session s i))\<rparr>))"
proof -
  let ?s = "s\<lparr>dr_session := (dr_session s)(i := (dr_session s i)\<lparr>se_timers := removeAll h (se_timers (dr_session s i))\<rparr>)\<rparr>"
  have "pulse we i ?s = (r, s')"
    using assms(2) by (simp add: pulse_fires_def session_io)
  moreover have "lc_base ?s" "\<And>j. j \<noteq> i \<Longrightarrow> pulsing (dr_session ?s j)"
    using assms(1) by (auto simp: lc_defs distinct_removeAll)
  ultimately show ?thesis using pulse_effect [of ?s i we r s'] by simp
qed

section \<open>The driver\<close>

lemma keeps_view_stub [keeps_intros]:
  "keeps lc_view (stub_new env a c)" "keeps lc_view (stub_close i)" "keeps lc_view (add_server_driver k a i)"
  "keeps lc_view set_open" "keeps lc_view (users m)"
  by (auto simp: keeps_def lc_view_def stub_new_def stub_close_def add_server_driver_def set_open_def users_def io_simps
      split: sum.split)

lemma keeps_view_open [keeps_intros]: "keeps lc_view (stub_open env i)"
  unfolding stub_open_def connectionOpen_def userToken_def by (intro keeps_intros)

lemma keeps_view_fetch [keeps_intros]: "keeps lc_view (fetchFrom env c as e)"
  by (induction as) (auto simp: serversAll_def intro!: keeps_intros)

lemma keeps_view_servers [keeps_intros]: "keeps lc_view (open_servers env c m)"
  by (induction m) (auto intro!: keeps_intros)

lemma keeps_view_driver_open: "keeps lc_view (driver_open env)"
proof -
  have "keeps lc_view (io_update (\<lambda>s. s\<lparr>dr_userManager := True, dr_isOpen := True\<rparr>))"
    by (simp add: keeps_update lc_view_def)
  then have "keeps lc_view (openCloud env)"
    unfolding openCloud_def fetchCloudServerAddresses_def by (intro keeps_intros)
  moreover have "keeps lc_view (openCore env)"
    unfolding openCore_def serversAll_def
    by (intro keeps_intros) (auto intro!: keeps_intros split: list.split)
  ultimately show ?thesis unfolding driver_open_def by (intro keeps_intros)
qed

lemma keeps_view_driver_close: "keeps lc_view driver_close"
  by (auto simp: driver_close_def keeps_def lc_view_def io_simps object_values_of_map_def)

lemma keeps_view_user: "keeps lc_view (driver_user env)"
  unfolding driver_user_def um_get_def um_runFailsafe_def with_stub_def usersGet_def by (intro keeps_intros)

lemma lc_init_invar: "lc_init we s \<Longrightarrow> lc_invar s"
proof -
  assume "lc_init we s"
  then obtain w addresses credential d r where d: "driver_new w addresses credential = Inr d"
    and o: "driver_open (we_env we) d = (r, s)"
    by (auto simp: lc_init_def)
  have "lc_invar d"
    using d by (auto simp: driver_new_def Let_def lc_defs split: option.splits)
  then show "lc_invar s"
    using preservesD [OF lc_view_preserves(1) [OF keeps_view_driver_open] _ o] by blast
qed

section \<open>Every step keeps the invariant\<close>

lemma triple_forget: "preserves P m \<Longrightarrow> preserves P (forget m)"
  unfolding forget_def by (intro triple_intros)

lemma commit_preserves: "preserves lc_invar (commit we t)"
proof -
  have "lc_invar s''" if "lc_invar s" "commit we t s = (r, s'')" for s :: "'a driver" and r s''
  proof -
    obtain a s1 where e: "rpcExecute we t Transaction_commitReq (Some False) s = (a, s1)" by fastforce
    have "lc_invar s1"
      using preservesD [OF lc_view_preserves(1) [OF keeps_view_net(1)] that(1) e] .
    moreover have "snd (transaction_close t s1) = s''"
      using that(2) e by (auto simp: commit_def split: prod.splits sum.splits)
    ultimately show ?thesis using transaction_close_preserves by (auto simp: preserves_iff)
  qed
  then show ?thesis by (metis preserves_iff prod.collapse)
qed

lemma small_preserves:
  "preserves lc_invar (onClose i cb)" "preserves lc_invar (onReopen i cb)" "preserves lc_invar (stream_failed t e)"
  "preserves lc_invar (rollback we t)" "preserves lc_invar (io_bind databases (\<lambda>_. dbm_get env name))"
  unfolding onClose_def onReopen_def stream_failed_def rollback_def
  by (intro upd_session_preserves triple_intros upd_transaction_preserves lc_view_preserves keeps_intros;
      simp add: session_wf_def pulsing_def)+

lemmas lc_preserves =
  small_preserves commit_preserves transaction_close_preserves session_close_preserves
  driver_session_preserves [THEN triple_forget] small_preserves(5) [THEN triple_forget]
  keeps_view_net(1) [THEN lc_view_preserves(1), THEN triple_forget]
  keeps_view_net(2) [THEN lc_view_preserves(1), THEN triple_forget]
  keeps_view_user [THEN lc_view_preserves(1), THEN triple_forget]
  keeps_view_driver_close [THEN lc_view_preserves(1)]

lemma lc_run_invar:
  assumes "lc_invar s" and "lc_enabled s c" and "lc_run we c s = (r, s')"
  shows "lc_invar s'"
proof -
  consider i ty opts where "c = OpenTransaction i ty opts" | i h where "c = PulseFires i h"
    | "preserves lc_invar (lc_run we c)"
    by (cases c) (simp_all add: lc_preserves)
  then show ?thesis
  proof cases
    case 1
    with assms have "forget (session_transaction we i ty opts) s = (r, s')" and i: "i < dr_session_count s" by simp_all
    then obtain r' where "session_transaction we i ty opts s = (r', s')"
      by (auto simp: forget_def io_simps split: prod.splits sum.splits)
    with session_transaction_preserves [of i we ty opts] assms(1) i show ?thesis
      by (cases r') (auto dest: triple_throws triple_returns)
  next
    case 2
    with assms(3) show ?thesis using pulse_fires_effect [OF assms(1)] by simp
  next
    case 3
    from preservesD [OF this assms(1,3)] show ?thesis .
  qed
qed

interpretation lc: transition_system "lc_init we" "lc_step we" lc_invar for we :: "'w world_env"
  by unfold_locales (auto intro: lc_init_invar lc_run_invar elim: lc_stepE)

section \<open>Properties\<close>

definition lc_demo_env :: "nat world_env" where
  "lc_demo_env = demo_world_env\<lparr>we_env := demo_env\<lparr>env_rpc := (\<lambda>a m md req w.
     (Inr (PMsg m [(''servers'', PList [PMsg ''Server'' [(''address'', PString ''h:1'')]]),
        (''contains'', PBool True), (''session_id'', PBytes [2]), (''alive'', PBool True),
        (''database'', PMsg ''DatabaseReplicas'' [(''replicas'', PList [PMsg ''Replica'' [(''address'', PString ''h:1'')]])])]),
      w + 1))\<rparr>\<rparr>"

definition lc_demo_start :: "nat driver" where
  "lc_demo_start =
     (case driver_new 0 (OneAddress ''h:1'') None of
        Inr d \<Rightarrow> snd (driver_open (we_env lc_demo_env) d)
      | Inl _ \<Rightarrow> demo_driver)"

definition lc_demo :: "nat driver option" where
  "lc_demo = lc_runs lc_demo_env
     [OpenSession ''db'' DATA None, OnClose 0 7, OpenTransaction 0 READ None, OpenTransaction 0 READ None, Commit 0] lc_demo_start"

lemma lc_demo_init: "lc_init lc_demo_env lc_demo_start"
proof -
  obtain d where d: "driver_new (0 :: nat) (OneAddress ''h:1'') None = Inr d"
    by (simp add: driver_new_def)
  then have "driver_open (we_env lc_demo_env) d = (fst (driver_open (we_env lc_demo_env) d), lc_demo_start)"
    by (simp add: lc_demo_start_def)
  with d show ?thesis unfolding lc_init_def by blast
qed

lemmas lc_demo_defs =
  lc_demo_env_def demo_world_env_def demo_env_def forget_def
  driver_session_def session_new_def session_open_def databases_def dbm_get_def dbm_contains_def
  dbm_runFailsafe_def databasesContains_def databasesGet_def cache_lookup_def object_prototype_members_def
  database_get_def fetchReplicas_def read_replicas_def replicas_of_def replica_of_def database_new_def
  runFailsafe_def runOnAnyReplica_def openAt_def sessionOpen_def with_stub_def set_pulse_def stub_call_defs
  session_transaction_def new_open_transaction_def transaction_new_def transaction_open_def open_stream_def
  Transaction_openReq_def rpcExecute_def set_add_def onClose_def commit_def transaction_close_effect session_io Let_def

lemma lc_demo_state:
  "\<exists>s. lc_demo = Some s \<and> se_isOpen (dr_session s 0) \<and> se_transactions (dr_session s 0) = [1] \<and>
     se_timers (dr_session s 0) = [0] \<and> se_onClose (dr_session s 0) = [7] \<and> se_called (dr_session s 0) = [] \<and>
     tx_isOpen (dr_transaction s 1) \<and> se_pulse (dr_session s 0) = 0 \<and> se_id (dr_session s 0) = bytesToHexString [2]"
  by (simp add: lc_demo_def lc_demo_start_def driver_new_def driver_open_def openCore_def add_server_driver_def set_open_def lc_demo_defs)

lemma distinct_values:
  assumes "distinct (map fst m)" and "\<forall>(k, v) \<in> set m. f v = k"
  shows "distinct (map snd m)"
proof -
  have "map fst m = map f (map snd m)" using assms(2) by auto
  with assms(1) show ?thesis by (metis distinct_map)
qed

lemma lc_demo_reached:
  obtains s where "(lc_step lc_demo_env)\<^sup>*\<^sup>* lc_demo_start s" "lc_demo = Some s" "se_isOpen (dr_session s 0)"
    "se_transactions (dr_session s 0) = [1]" "se_timers (dr_session s 0) = [0]" "se_onClose (dr_session s 0) = [7]"
    "se_called (dr_session s 0) = []" "se_id (dr_session s 0) = bytesToHexString [2]"
  using lc_demo_state lc_runs_steps unfolding lc_demo_def by metis

text \<open>
  C5. In the life of a driver whose calls are made one after the other, each running to its end before the next one starts and before a timer fires or a
  stream breaks: whichever calls are made on it, its sessions and its transactions, whichever of them fail, and whatever
  the servers answer, a session holds each of its transactions once and
  no transaction of another session, its pending timers are distinct, and the driver lists a session only under the id that the session has,
  so that no two ids name the same session. (When calls interleave, the part on ids is lost; \<open>Session_Procs\<close> has what remains.)
\<close>

theorem driver_lifecycle_invariant:
  assumes "lc_init we s0" and "(lc_step we)\<^sup>*\<^sup>* s0 s"
  shows "own_transactions i s \<and> distinct (se_transactions (dr_session s i)) \<and> distinct (se_timers (dr_session s i)) \<and>
    jmap_wf (dr_sessions s) \<and>
    (jmap_get (dr_sessions s) sid = Some j \<longrightarrow> j < dr_session_count s \<and> se_id (dr_session s j) = sid) \<and>
    distinct (jmap_values (dr_sessions s))"
proof -
  have inv: "lc_invar s" by (rule lc.reachable_invar [OF assms])
  then have "registry_wf (dr_sessions s) (dr_session s) (dr_session_count s)"
    by (simp add: lc_invar_def lc_base_def)
  moreover from this have "distinct (jmap_values (dr_sessions s))"
    by (auto simp: registry_wf_def jmap_wf_def intro!: distinct_values [where f = "\<lambda>j. se_id (dr_session s j)"])
  moreover have "own_transactions i s" "distinct (se_transactions (dr_session s i))" "distinct (se_timers (dr_session s i))"
    using inv by (simp_all add: lc_invar_def lc_base_def session_wf_def own_transactions_def)
  ultimately show ?thesis
    by (auto simp: registry_wf_def dest: map_of_SomeD)
qed

theorem driver_lifecycle_invariant_witness:
  "\<exists>s. lc_demo = Some s \<and> own_transactions 0 s \<and> distinct (jmap_values (dr_sessions s))"
proof (rule lc_demo_reached)
  fix s assume s: "(lc_step lc_demo_env)\<^sup>*\<^sup>* lc_demo_start s" "lc_demo = Some s"
  from driver_lifecycle_invariant [OF lc_demo_init s(1)] s(2) show ?thesis by blast
qed

text \<open>
  C8. Closing a session releases everything it holds, whatever the server answers to the closing request, when calls run one after the other and close callbacks
  return: each of
  its transactions is closed, it holds none any more, its close callbacks have run once in the order of registration, the
  driver no longer lists it under any id, and the timer its \<open>_pulse\<close> names is gone. Other sessions and their transactions are as they were.
\<close>

theorem session_close_releases:
  assumes "lc_init we s0" and "(lc_step we)\<^sup>*\<^sup>* s0 s"
    and "se_isOpen (dr_session s i)" and "session_close we i s = (r, s')"
  shows "\<not> se_isOpen (dr_session s' i) \<and> se_transactions (dr_session s' i) = [] \<and>
    (\<forall>t \<in> set (se_transactions (dr_session s i)). \<not> tx_isOpen (dr_transaction s' t)) \<and>
    se_called (dr_session s' i) = se_called (dr_session s i) @ se_onClose (dr_session s i) \<and>
    i \<notin> set (jmap_values (dr_sessions s')) \<and> se_pulse (dr_session s i) \<notin> set (se_timers (dr_session s' i)) \<and>
    (\<forall>j. j \<noteq> i \<longrightarrow> dr_session s' j = dr_session s j) \<and>
    (\<forall>t. tx_session (dr_transaction s t) \<noteq> i \<longrightarrow> dr_transaction s' t = dr_transaction s t)"
proof -
  have inv: "lc_base s" "\<And>j. pulsing (dr_session s j)"
    using lc.reachable_invar [OF assms(1,2)] by (simp_all add: lc_invar_def)
  obtain r1 s1 where c: "closeResources i s = (r1, s1)" by fastforce
  have gone: "r1 = Inr ()" "i \<notin> set (jmap_values (dr_sessions s1))"
    using closeResources_closes [OF inv(1) inv(2) c] by blast+
  have "tell_close we i s1 = (r, s')"
    using assms(3,4) c gone(1) by (simp add: session_close_tell io_simps)
  from keepsD [OF keeps_tell_close this]
  have "dr_session s' = dr_session s1" "dr_transaction s' = dr_transaction s1" "dr_sessions s' = dr_sessions s1"
    by (simp_all add: lc_view_def)
  with closeResources_effect [OF lc_invar_own [OF inv(1)], of i] c gone(2) show ?thesis
    using lc_invar_own [OF inv(1), of i] by (auto simp: clear_pulse_def own_transactions_def)
qed

theorem session_close_releases_witness:
  "\<exists>s r s'. lc_demo = Some s \<and> se_transactions (dr_session s 0) = [1] \<and> session_close lc_demo_env 0 s = (r, s') \<and>
     \<not> tx_isOpen (dr_transaction s' 1) \<and> se_called (dr_session s' 0) = [7] \<and> 0 \<notin> set (jmap_values (dr_sessions s'))"
proof (rule lc_demo_reached)
  fix s assume s: "(lc_step lc_demo_env)\<^sup>*\<^sup>* lc_demo_start s" "lc_demo = Some s" "se_isOpen (dr_session s 0)"
    "se_transactions (dr_session s 0) = [1]" "se_onClose (dr_session s 0) = [7]" "se_called (dr_session s 0) = []"
  obtain r s' where c: "session_close lc_demo_env 0 s = (r, s')" by fastforce
  from session_close_releases [OF lc_demo_init s(1,3) c] s(4-6)
  have "\<not> tx_isOpen (dr_transaction s' 1)" "se_called (dr_session s' 0) = [7]" "0 \<notin> set (jmap_values (dr_sessions s'))"
    by simp_all
  with s(2,4) c show ?thesis by blast
qed

text \<open>
  C22. An open session is about to pulse whenever no call is running: in the life of a driver whose calls and timers run one after the other, each to
  its end, the timer that an open session's \<open>_pulse\<close> names is
  pending after each of them, and when one of its timers fires, the pulse never throws, and it leaves the session closed or open with
  exactly that timer replaced by a new one. (While a pulse waits for its answer its timer has fired and no other is set yet.)
\<close>

theorem open_session_keeps_pulsing:
  assumes "lc_init we s0" and "(lc_step we)\<^sup>*\<^sup>* s0 s" and "se_isOpen (dr_session s i)"
    and "pulse_fires we i h s = (r, s')"
  shows "se_pulse (dr_session s i) \<in> set (se_timers (dr_session s i)) \<and> r = Inr () \<and>
    (se_isOpen (dr_session s' i) \<longrightarrow>
       se_pulse (dr_session s' i) \<notin> set (se_timers (dr_session s i)) \<and>
       se_timers (dr_session s' i) = removeAll h (se_timers (dr_session s i)) @ [se_pulse (dr_session s' i)])"
proof -
  have inv: "lc_invar s" by (rule lc.reachable_invar [OF assms(1,2)])
  then have "\<forall>h \<in> set (se_timers (dr_session s i)). h < se_timer_count (dr_session s i)"
    and "se_pulse (dr_session s i) \<in> set (se_timers (dr_session s i))"
    using assms(3) by (simp_all add: lc_defs)
  with pulse_fires_effect [OF inv assms(4)] show ?thesis by (auto simp: set_pulse_def)
qed

theorem open_session_keeps_pulsing_witness:
  "\<exists>s s'. lc_demo = Some s \<and> pulse_fires lc_demo_env 0 0 s = (Inr (), s') \<and>
     (se_isOpen (dr_session s' 0) \<longrightarrow> se_timers (dr_session s' 0) = [se_pulse (dr_session s' 0)])"
proof (rule lc_demo_reached)
  fix s assume s: "(lc_step lc_demo_env)\<^sup>*\<^sup>* lc_demo_start s" "lc_demo = Some s" "se_isOpen (dr_session s 0)"
    "se_timers (dr_session s 0) = [0]"
  obtain r s' where p: "pulse_fires lc_demo_env 0 0 s = (r, s')" by fastforce
  from open_session_keeps_pulsing [OF lc_demo_init s(1,3) p] s p show ?thesis by auto
qed

end
