(* ===== verification/Async_Procs.thy ===== *)
theory Async_Procs
  imports TDB_Prelude Transition_Systems
begin

text \<open>
  Asynchronous methods with their suspensions. A call of an \<open>async\<close> method runs without interruption up to its first \<open>await\<close>; there
  it is suspended, other code runs, and it goes on later in whatever state it then finds. So a method is a function from a state to a state and either its
  result or the rest of the method. The rest may go on for ever, since a loop over a set or an array sees what is added to it in the
  meantime.

  Two views of such methods are developed: what a method does when nothing else runs, which is compared with the
  state-and-exception functions of \<open>TDB_Prelude\<close>, and what any number of methods do when they are interleaved, where assertions are proved
  from a guarantee that every uninterrupted piece of code gives and every suspended method relies on.
\<close>

section \<open>Methods\<close>

codatatype ('s, 'e, 'a) proc =
    Done "'e + 'a"
  | Await "'s \<Rightarrow> 's \<times> ('s, 'e, 'a) proc"

type_synonym ('s, 'e, 'a) act = "'s \<Rightarrow> 's \<times> ('s, 'e, 'a) proc"

text \<open>\<open>K\<close> goes on with the result, value or error, in the same piece of code.\<close>

primcorec p_then :: "('e + 'a \<Rightarrow> ('s, 'e, 'b) act) \<Rightarrow> ('s, 'e, 'a) act \<Rightarrow> ('s, 'e, 'b) proc" where
  "p_then K f = Await (\<lambda>s. map_prod id (\<lambda>t. case t of Inl g \<Rightarrow> p_then K g | Inr p \<Rightarrow> p)
     (case f s of
        (s', Done r) \<Rightarrow> (case K r s' of (s'', p) \<Rightarrow> (s'', Inr p))
      | (s', Await g) \<Rightarrow> (s', Inl g)))"

definition a_then :: "('s, 'e, 'a) act \<Rightarrow> ('e + 'a \<Rightarrow> ('s, 'e, 'b) act) \<Rightarrow> ('s, 'e, 'b) act" where
  "a_then a K s = (case a s of (s', Done r) \<Rightarrow> K r s' | (s', Await f) \<Rightarrow> (s', p_then K f))"

text \<open>Synchronous code, and the ways an \<open>async\<close> method is put together.\<close>

definition a_io :: "('s, 'e, 'a) io \<Rightarrow> ('s, 'e, 'a) act" where
  "a_io m s = (case m s of (r, s') \<Rightarrow> (s', Done r))"

definition a_return :: "'a \<Rightarrow> ('s, 'e, 'a) act" where
  "a_return x s = (s, Done (Inr x))"

definition a_throw :: "'e \<Rightarrow> ('s, 'e, 'a) act" where
  "a_throw e s = (s, Done (Inl e))"

definition a_bind :: "('s, 'e, 'a) act \<Rightarrow> ('a \<Rightarrow> ('s, 'e, 'b) act) \<Rightarrow> ('s, 'e, 'b) act" where
  "a_bind a k = a_then a (case_sum a_throw k)"

definition a_catch :: "('s, 'e, 'a) act \<Rightarrow> ('e \<Rightarrow> ('s, 'e, 'a) act) \<Rightarrow> ('s, 'e, 'a) act" where
  "a_catch a h = a_then a (case_sum h a_return)"

text \<open>\<open>await\<close> suspends even when the promise is settled already.\<close>

definition a_suspend :: "'e + 'a \<Rightarrow> ('s, 'e, 'a) act" where
  "a_suspend r s = (s, Await (\<lambda>s. (s, Done r)))"

definition a_await :: "('s, 'e, 'a) act \<Rightarrow> ('s, 'e, 'a) act" where
  "a_await a = a_then a a_suspend"

text \<open>
  A loop that awaits its body in each round. \<open>next\<close> looks at the current state and gives the body of the next round, which yields where the loop is
  afterwards.
\<close>

type_synonym ('s, 'e, 'x) rounds = "'x \<Rightarrow> 's \<Rightarrow> ('s, 'e, 'x) act option"

definition start_round :: "('s, 'e, 'x) rounds \<Rightarrow> 'x \<Rightarrow> 's \<Rightarrow> 's \<times> (('s, 'e, 'x) act + 'e + unit)" where
  "start_round next x s =
     (case next x s of
        None \<Rightarrow> (s, Inr (Inr ()))
      | Some body \<Rightarrow>
          (case a_await body s of
             (s', Await f) \<Rightarrow> (s', Inl f)
           | (s', Done (Inl e)) \<Rightarrow> (s', Inr (Inl e))
           | (s', Done (Inr _)) \<Rightarrow> (s', Inr (Inr ()))))"

primcorec p_for :: "('s, 'e, 'x) rounds \<Rightarrow> ('s, 'e, 'x) act \<Rightarrow> ('s, 'e, unit) proc" where
  "p_for next f = Await (\<lambda>s. map_prod id (\<lambda>t. case t of Inl g \<Rightarrow> p_for next g | Inr r \<Rightarrow> Done r)
     (case f s of
        (s', Done (Inl e)) \<Rightarrow> (s', Inr (Inl e))
      | (s', Done (Inr x)) \<Rightarrow> start_round next x s'
      | (s', Await g) \<Rightarrow> (s', Inl g)))"

definition a_for :: "('s, 'e, 'x) rounds \<Rightarrow> 'x \<Rightarrow> ('s, 'e, unit) act" where
  "a_for next x s =
     (case start_round next x s of (s', Inl f) \<Rightarrow> (s', p_for next f) | (s', Inr r) \<Rightarrow> (s', Done r))"

lemmas act_defs = a_io_def a_return_def a_throw_def a_suspend_def

lemma p_then_Await: "p_then K f = Await (a_then f K)"
  by (subst p_then.code) (auto simp: a_then_def fun_eq_iff split: prod.split proc.split)

lemma a_then_code: "a_then a K s = (case a s of (s', Done r) \<Rightarrow> K r s' | (s', Await f) \<Rightarrow> (s', Await (a_then f K)))"
  by (simp add: a_then_def p_then_Await split: prod.split proc.split)

text \<open>Every round suspends.\<close>

lemma a_await_suspends: "\<exists>s' f. a_await a s = (s', Await f)"
  by (auto simp: a_await_def a_then_code a_suspend_def split: prod.split proc.split)

lemma p_for_Await: "p_for next f = Await (a_bind f (a_for next))"
proof (coinduction arbitrary: f rule: proc.coinduct_strong)
  case Eq_proc
  show ?case
    by (auto simp: rel_fun_def a_bind_def a_then_code a_for_def a_throw_def split: prod.split proc.split sum.split)
qed

lemma a_for_code:
  "a_for next x s =
     (case next x s of
        None \<Rightarrow> (s, Done (Inr ()))
      | Some body \<Rightarrow> a_bind (a_await body) (a_for next) s)"
proof (cases "next x s")
  case (Some body)
  obtain s' f where f: "a_await body s = (s', Await f)" using a_await_suspends by metis
  with Some show ?thesis
    by (simp add: a_for_def start_round_def p_for_Await a_bind_def a_then_code)
qed (simp add: a_for_def start_round_def)

section \<open>Running alone\<close>

text \<open>\<open>runs a s r s'\<close>: started in \<open>s\<close> and resumed until it ends, with nothing else running, the method ends with \<open>r\<close> in \<open>s'\<close>.\<close>

inductive runs :: "('s, 'e, 'a) act \<Rightarrow> 's \<Rightarrow> 'e + 'a \<Rightarrow> 's \<Rightarrow> bool" where
  ends: "a s = (s', Done r) \<Longrightarrow> runs a s r s'"
| goes_on: "a s = (s1, Await f) \<Longrightarrow> runs f s1 r s' \<Longrightarrow> runs a s r s'"

inductive_cases runsE: "runs a s r s'"

lemma runs_deterministic: "runs a s r s' \<Longrightarrow> runs a s r2 s2 \<Longrightarrow> r2 = r \<and> s2 = s'"
proof (induction arbitrary: r2 s2 rule: runs.induct)
  case (ends a s s' r)
  then show ?case by (auto elim: runsE)
next
  case (goes_on a s s1 f r s')
  from goes_on.prems goes_on.hyps(1) have "runs f s1 r2 s2" by (auto elim: runsE)
  then show ?case by (rule goes_on.IH)
qed

lemma runs_same: "runs a s r s' \<Longrightarrow> b t = a s \<Longrightarrow> runs b t r s'"
  by (erule runsE) (auto intro: runs.intros)

lemma runs_then: "runs a s r s1 \<Longrightarrow> runs (K r) s1 r' s' \<Longrightarrow> runs (a_then a K) s r' s'"
proof (induction rule: runs.induct)
  case (ends a s s1 r)
  then have "a_then a K s = K r s1" by (simp add: a_then_code)
  with ends(2) show ?case by (rule runs_same)
next
  case (goes_on a s s1 f r s2)
  then have "a_then a K s = (s1, Await (a_then f K))" by (simp add: a_then_code)
  then show ?case by (rule runs.goes_on) (rule goes_on.IH [OF goes_on.prems])
qed

lemma runs_await: "runs a s r s' \<Longrightarrow> runs (a_await a) s r s'"
  unfolding a_await_def
  by (erule runs_then) (rule runs.goes_on, simp add: a_suspend_def, rule runs.ends, simp)

text \<open>A method that does, when nothing else runs, what a state-and-exception function does.\<close>

definition alone :: "('s, 'e, 'a) act \<Rightarrow> ('s, 'e, 'a) io \<Rightarrow> bool" where
  "alone a m \<longleftrightarrow> (\<forall>s. runs a s (fst (m s)) (snd (m s)))"

named_theorems alone_intros \<open>methods that do what a function does\<close>

lemma aloneI: "(\<And>s r s'. m s = (r, s') \<Longrightarrow> runs a s r s') \<Longrightarrow> alone a m"
  by (simp add: alone_def)

lemma aloneD: "alone a m \<Longrightarrow> m s = (r, s') \<Longrightarrow> runs a s r s'"
  unfolding alone_def by (metis fst_conv snd_conv)

lemma alone_basic [alone_intros]: "alone (a_io m) m" "alone (a_return x) (io_return x)" "alone (a_throw e) (io_throw e)"
  by (auto simp: alone_def act_defs io_simps intro!: runs.ends split: prod.split)

lemma alone_bind [alone_intros]:
  assumes "alone a m" and "\<And>x. alone (k x) (f x)"
  shows "alone (a_bind a k) (io_bind m f)"
proof (rule aloneI)
  fix s r s' assume "io_bind m f s = (r, s')"
  moreover obtain r1 s1 where m: "m s = (r1, s1)" by fastforce
  ultimately have rest: "case_sum io_throw f r1 s1 = (r, s')" by (cases r1) (simp_all add: io_simps)
  have "runs (case_sum a_throw k r1) s1 r s'"
    using rest assms(2) by (cases r1) (auto intro: aloneD alone_basic(3))
  then show "runs (a_bind a k) s r s'"
    unfolding a_bind_def by (rule runs_then [OF aloneD [OF assms(1) m]])
qed

lemma alone_catch [alone_intros]:
  assumes "alone a m" and "\<And>e. alone (h e) (g e)"
  shows "alone (a_catch a h) (io_catch m g)"
proof (rule aloneI)
  fix s r s' assume "io_catch m g s = (r, s')"
  moreover obtain r1 s1 where m: "m s = (r1, s1)" by fastforce
  ultimately have rest: "case_sum g io_return r1 s1 = (r, s')" by (cases r1) (auto simp: io_simps)
  have "runs (case_sum h a_return r1) s1 r s'"
    using rest assms(2) by (cases r1) (auto intro: aloneD alone_basic(2))
  then show "runs (a_catch a h) s r s'"
    unfolding a_catch_def by (rule runs_then [OF aloneD [OF assms(1) m]])
qed

lemma alone_await [alone_intros]: "alone a m \<Longrightarrow> alone (a_await a) m"
proof (rule aloneI)
  fix s r s' assume "alone a m" "m s = (r, s')"
  then show "runs (a_await a) s r s'" by (blast intro: runs_await aloneD)
qed

lemma alone_cases [alone_intros]:
  "alone a m \<Longrightarrow> alone a' m' \<Longrightarrow> alone (if b then a else a') (if b then m else m')"
  "alone a m \<Longrightarrow> (\<And>x. alone (k x) (f x)) \<Longrightarrow> alone (case y of None \<Rightarrow> a | Some x \<Rightarrow> k x) (case y of None \<Rightarrow> m | Some x \<Rightarrow> f x)"
  by (auto split: option.split)

lemma runs_for:
  "next x s = None \<Longrightarrow> runs (a_for next x) s (Inr ()) s"
  "next x s = Some body \<Longrightarrow> runs body s (Inr x') s1 \<Longrightarrow> runs (a_for next x') s1 r s' \<Longrightarrow> runs (a_for next x) s r s'"
proof -
  show "next x s = None \<Longrightarrow> runs (a_for next x) s (Inr ()) s"
    by (rule runs.ends) (simp add: a_for_code)
  assume body: "next x s = Some body" "runs body s (Inr x') s1" and rest: "runs (a_for next x') s1 r s'"
  have "runs (a_bind (a_await body) (a_for next)) s r s'"
    unfolding a_bind_def by (rule runs_then [OF runs_await [OF body(2)]]) (simp add: rest)
  moreover have "a_for next x s = a_bind (a_await body) (a_for next) s"
    using body(1) by (simp add: a_for_code)
  ultimately show "runs (a_for next x) s r s'" by (rule runs_same)
qed

section \<open>Running interleaved\<close>

text \<open>
  An assertion that the code of others cannot falsify, and methods that give the guarantee \<open>G\<close> with every uninterrupted piece of code:
  started where \<open>P\<close> holds, the method is suspended only where an assertion holds that is kept, and ends with a result and a state that satisfy \<open>Q\<close>.
\<close>

definition kept :: "('s \<Rightarrow> 's \<Rightarrow> bool) \<Rightarrow> ('s \<Rightarrow> bool) \<Rightarrow> bool" where
  "kept G P \<longleftrightarrow> (\<forall>s s'. P s \<longrightarrow> G s s' \<longrightarrow> P s')"

coinductive safe :: "('s \<Rightarrow> 's \<Rightarrow> bool) \<Rightarrow> ('e + 'a \<Rightarrow> 's \<Rightarrow> bool) \<Rightarrow> ('s \<Rightarrow> bool) \<Rightarrow> ('s, 'e, 'a) act \<Rightarrow> bool"
  for G :: "'s \<Rightarrow> 's \<Rightarrow> bool" and Q :: "'e + 'a \<Rightarrow> 's \<Rightarrow> bool" where
  safeI: "(\<And>s s' r. P s \<Longrightarrow> a s = (s', Done r) \<Longrightarrow> G s s' \<and> Q r s') \<Longrightarrow>
    (\<And>s s' f. P s \<Longrightarrow> a s = (s', Await f) \<Longrightarrow> G s s' \<and> (\<exists>P'. kept G P' \<and> P' s' \<and> safe G Q P' f)) \<Longrightarrow> safe G Q P a"

named_theorems safe_intros \<open>methods that give a guarantee\<close>

lemma safe_done: "safe G Q P a \<Longrightarrow> P s \<Longrightarrow> a s = (s', Done r) \<Longrightarrow> G s s' \<and> Q r s'"
  by (erule safe.cases) metis

lemma safe_await: "safe G Q P a \<Longrightarrow> P s \<Longrightarrow> a s = (s', Await f) \<Longrightarrow> G s s' \<and> (\<exists>P'. kept G P' \<and> P' s' \<and> safe G Q P' f)"
  by (erule safe.cases) metis

lemma safe_pre:
  assumes "safe G Q P a" and "\<And>s. P' s \<Longrightarrow> P s"
  shows "safe G Q P' a"
proof (rule safeI)
  show "G s s' \<and> Q r s'" if "P' s" "a s = (s', Done r)" for s s' r
    using safe_done [OF assms(1) assms(2)] that .
  show "G s s' \<and> (\<exists>P'. kept G P' \<and> P' s' \<and> safe G Q P' f)" if "P' s" "a s = (s', Await f)" for s s' f
    using safe_await [OF assms(1) assms(2)] that .
qed

lemma safe_post:
  assumes "safe G Q P a" and "\<And>r s. Q r s \<Longrightarrow> Q' r s"
  shows "safe G Q' P a"
  using assms(1)
proof (coinduction arbitrary: P a)
  case safe
  show ?case using safe_done [OF safe] safe_await [OF safe] assms(2) by metis
qed

text \<open>Any number of methods, each suspended somewhere; methods that a program may call start at any time.\<close>

inductive pool_step :: "('s \<Rightarrow> ('s, 'e, 'a) act \<Rightarrow> bool) \<Rightarrow> 's \<times> ('s, 'e, 'a) act list \<Rightarrow> 's \<times> ('s, 'e, 'a) act list \<Rightarrow> bool"
  for calls :: "'s \<Rightarrow> ('s, 'e, 'a) act \<Rightarrow> bool" where
  call_ends: "calls s a \<Longrightarrow> a s = (s', Done r) \<Longrightarrow> pool_step calls (s, fs) (s', fs)"
| call_awaits: "calls s a \<Longrightarrow> a s = (s', Await f) \<Longrightarrow> pool_step calls (s, fs) (s', fs @ [f])"
| resume_ends: "a s = (s', Done r) \<Longrightarrow> pool_step calls (s, us @ a # vs) (s', us @ vs)"
| resume_awaits: "a s = (s', Await f) \<Longrightarrow> pool_step calls (s, us @ a # vs) (s', us @ f # vs)"

locale guarantee =
  fixes G :: "'s \<Rightarrow> 's \<Rightarrow> bool"
  assumes G_refl: "G s s"
    and G_trans: "G s t \<Longrightarrow> G t u \<Longrightarrow> G s u"
begin

lemma safe_then:
  assumes "safe G R P a" and "\<And>r. safe G Q (R r) (K r)"
  shows "safe G Q P (a_then a K)"
  using assms(1)
proof (coinduction arbitrary: P a)
  case safe
  have done': "G s s' \<and> Q r s'" if P: "P s" and step: "a_then a K s = (s', Done r)" for s s' r
  proof -
    obtain s1 r1 where a: "a s = (s1, Done r1)" "K r1 s1 = (s', Done r)"
      using step by (auto simp: a_then_code split: prod.splits proc.splits)
    from safe_done [OF safe P a(1)] have "G s s1" "R r1 s1" by blast+
    with safe_done [OF assms(2) this(2) a(2)] show ?thesis by (blast intro: G_trans)
  qed
  have await: "G s s' \<and> (\<exists>P'. kept G P' \<and> P' s' \<and> ((\<exists>P a. P' = P \<and> f = a_then a K \<and> safe G R P a) \<or> safe G Q P' f))"
    if P: "P s" and step: "a_then a K s = (s', Await f)" for s s' f
  proof (cases "snd (a s)")
    case (Done r1)
    then obtain s1 where a: "a s = (s1, Done r1)" by (cases "a s") auto
    with step have K: "K r1 s1 = (s', Await f)" by (simp add: a_then_code)
    from safe_done [OF safe P a] have "G s s1" "R r1 s1" by blast+
    with safe_await [OF assms(2) this(2) K] show ?thesis by (blast intro: G_trans)
  next
    case (Await g)
    then obtain s1 where a: "a s = (s1, Await g)" by (cases "a s") auto
    with step have "s1 = s'" "f = a_then g K" by (auto simp: a_then_code)
    with safe_await [OF safe P a] show ?thesis by blast
  qed
  show ?case using done' await by blast
qed

lemma safe_io: "(\<And>s r s'. P s \<Longrightarrow> m s = (r, s') \<Longrightarrow> G s s' \<and> Q r s') \<Longrightarrow> safe G Q P (a_io m)"
  by (rule safeI) (auto simp: a_io_def split: prod.splits)

lemma safe_return: "(\<And>s. P s \<Longrightarrow> Q (Inr x) s) \<Longrightarrow> safe G Q P (a_return x)"
  by (rule safeI) (auto simp: a_return_def G_refl)

lemma safe_throw: "(\<And>s. P s \<Longrightarrow> Q (Inl e) s) \<Longrightarrow> safe G Q P (a_throw e)"
  by (rule safeI) (auto simp: a_throw_def G_refl)

lemma safe_bind:
  assumes "safe G (case_sum (\<lambda>_. E) R) P a" and "\<And>x. safe G (case_sum (\<lambda>_. E) Q) (R x) (k x)"
  shows "safe G (case_sum (\<lambda>_. E) Q) P (a_bind a k)"
  unfolding a_bind_def
proof (rule safe_then [OF assms(1)])
  fix r show "safe G (case_sum (\<lambda>_. E) Q) (case_sum (\<lambda>_. E) R r) (case_sum a_throw k r)"
    by (cases r) (auto intro: safe_throw assms(2))
qed

lemma safe_catch:
  assumes "safe G (case_sum (\<lambda>_. F) Q) P a" and "\<And>e. safe G (case_sum (\<lambda>_. E) Q) F (h e)"
  shows "safe G (case_sum (\<lambda>_. E) Q) P (a_catch a h)"
  unfolding a_catch_def
proof (rule safe_then [OF assms(1)])
  fix r show "safe G (case_sum (\<lambda>_. E) Q) (case_sum (\<lambda>_. F) Q r) (case_sum h a_return r)"
    by (cases r) (auto intro: safe_return assms(2))
qed

lemma safe_suspend:
  assumes "safe G Q P a" and "\<And>r. kept G (Q r)"
  shows "safe G Q P (a_await a)"
  unfolding a_await_def
proof (rule safe_then [OF assms(1)])
  fix r
  have "safe G Q (Q r) (\<lambda>s. (s, Done r))" by (rule safeI) (auto simp: G_refl)
  then show "safe G Q (Q r) (a_suspend r)"
    by (intro safeI) (auto simp: a_suspend_def G_refl intro: assms(2))
qed

lemma safe_rounds:
  assumes body: "\<And>x s b. next x s = Some b \<Longrightarrow> safe G (case_sum (\<lambda>_. E) (\<lambda>_. P)) P b"
    and keep: "kept G P" "kept G E" and f: "safe G (case_sum (\<lambda>_. E) (\<lambda>_. P)) P1 f"
  shows "safe G (case_sum (\<lambda>_. E) (\<lambda>_. P)) P1 (a_bind f (a_for next))"
  using f
proof (coinduction arbitrary: P1 f)
  case safe
  let ?Q = "case_sum (\<lambda>_. E) (\<lambda>_. P)"
  let ?R = "\<lambda>P' g. \<exists>P1 f. P' = P1 \<and> g = a_bind f (a_for next) \<and> safe G ?Q P1 f"
  have step: "case p of Done r \<Rightarrow> G s s' \<and> ?Q r s' | Await g \<Rightarrow> G s s' \<and> (\<exists>P'. kept G P' \<and> P' s' \<and> ?R P' g)"
    if P: "P1 s" and step: "a_bind f (a_for next) s = (s', p)" for s s' p
  proof (cases "snd (f s)")
    case (Await g)
    then obtain s1 where g: "f s = (s1, Await g)" by (cases "f s") auto
    with step have "s1 = s'" "p = Await (a_bind g (a_for next))" by (auto simp: a_bind_def a_then_code)
    with safe_await [OF safe P g] show ?thesis by auto
  next
    case (Done r)
    then obtain s1 where r: "f s = (s1, Done r)" by (cases "f s") auto
    from safe_done [OF safe P r] have s1: "G s s1" "?Q r s1" by blast+
    show ?thesis
    proof (cases r)
      case (Inl e)
      with step r have "s1 = s'" "p = Done (Inl e)" by (auto simp: a_bind_def a_then_code a_throw_def)
      with s1 Inl show ?thesis by simp
    next
      case (Inr x)
      with step r have x: "a_for next x s1 = (s', p)" by (simp add: a_bind_def a_then_code)
      show ?thesis
      proof (cases "next x s1")
        case None
        with x s1 Inr show ?thesis by (auto simp: a_for_code)
      next
        case (Some b)
        obtain s2 g where g: "a_await b s1 = (s2, Await g)" using a_await_suspends by metis
        with x Some have p: "s2 = s'" "p = Await (a_bind g (a_for next))"
          by (auto simp: a_for_code a_bind_def a_then_code)
        have "safe G ?Q P (a_await b)"
          by (rule safe_suspend [OF body [OF Some]]) (simp add: keep split: sum.split)
        from safe_await [OF this _ g] s1 Inr p show ?thesis by (auto intro: G_trans)
      qed
    qed
  qed
  have "G s s' \<and> ?Q r s'" if "P1 s" "a_bind f (a_for next) s = (s', Done r)" for s s' r
    using step [OF that] by simp
  moreover have "G s s' \<and> (\<exists>P'. kept G P' \<and> P' s' \<and> (?R P' g \<or> safe G ?Q P' g))"
    if "P1 s" "a_bind f (a_for next) s = (s', Await g)" for s s' g
    using step [OF that] by (simp only: proc.case) blast
  ultimately show ?case by blast
qed

lemma safe_for:
  assumes "\<And>x s b. next x s = Some b \<Longrightarrow> safe G (case_sum (\<lambda>_. E) (\<lambda>_. P)) P b" and "kept G P" and "kept G E"
  shows "safe G (case_sum (\<lambda>_. E) (\<lambda>_. P)) P (a_for next x)"
proof -
  have "a_for next x = a_bind (a_return x) (a_for next)"
    by (simp add: fun_eq_iff a_bind_def a_then_code a_return_def)
  then show ?thesis using safe_rounds [OF assms safe_return [of P]] by simp
qed

text \<open>Methods that keep an assertion which others keep as well.\<close>

lemma calm_io: "kept G P \<Longrightarrow> (\<And>s r s'. P s \<Longrightarrow> m s = (r, s') \<Longrightarrow> G s s') \<Longrightarrow> safe G (case_sum (\<lambda>_. P) (\<lambda>_. P)) P (a_io m)"
  by (rule safe_io) (auto simp: kept_def split: sum.split)

lemma calm_basic [safe_intros]:
  "safe G (case_sum (\<lambda>_. P) (\<lambda>_. P)) P (a_return x)" "safe G (case_sum (\<lambda>_. P) Q) P (a_throw e)"
  "safe G (case_sum (\<lambda>_. P) (\<lambda>_. P)) P (a_io (io_gets f))" "safe G (case_sum (\<lambda>_. P) (\<lambda>_. P)) P (a_io (io_lift r))"
  by (auto intro!: safe_return safe_throw safe_io simp: io_simps G_refl split: sum.split)

lemma calm_bind [safe_intros]:
  "safe G (case_sum (\<lambda>_. P) (\<lambda>_. P)) P a \<Longrightarrow> (\<And>x. safe G (case_sum (\<lambda>_. P) Q) P (k x)) \<Longrightarrow>
   safe G (case_sum (\<lambda>_. P) Q) P (a_bind a k)"
  by (rule safe_bind)

lemma calm_catch [safe_intros]:
  "safe G (case_sum (\<lambda>_. P) Q) P a \<Longrightarrow> (\<And>e. safe G (case_sum (\<lambda>_. P) Q) P (h e)) \<Longrightarrow>
   safe G (case_sum (\<lambda>_. P) Q) P (a_catch a h)"
  by (rule safe_catch)

lemma calm_await [safe_intros]:
  "safe G (case_sum (\<lambda>_. P) Q) P a \<Longrightarrow> kept G P \<Longrightarrow> (\<And>x. kept G (Q x)) \<Longrightarrow> safe G (case_sum (\<lambda>_. P) Q) P (a_await a)"
  by (rule safe_suspend) (auto split: sum.split)

lemma safe_cases [safe_intros]:
  "safe G Q P a \<Longrightarrow> safe G Q P a' \<Longrightarrow> safe G Q P (if b then a else a')"
  "safe G Q P a \<Longrightarrow> (\<And>x. safe G Q P (k x)) \<Longrightarrow> safe G Q P (case y of None \<Rightarrow> a | Some x \<Rightarrow> k x)"
  by (auto split: option.split)

end

text \<open>
  A pool of methods that give the guarantee keeps what the guarantee keeps: in every state that is reached the invariant holds, and each suspended
  method has an assertion that holds and with which it can go on.
\<close>

definition resumable :: "('s \<Rightarrow> 's \<Rightarrow> bool) \<Rightarrow> 's \<Rightarrow> ('s, 'e, 'a) act \<Rightarrow> bool" where
  "resumable G s f \<longleftrightarrow> (\<exists>P. kept G P \<and> P s \<and> safe G (\<lambda>_ _. True) P f)"

fun pool_ok :: "('s \<Rightarrow> 's \<Rightarrow> bool) \<Rightarrow> ('s \<Rightarrow> bool) \<Rightarrow> 's \<times> ('s, 'e, 'a) act list \<Rightarrow> bool" where
  "pool_ok G I (s, fs) \<longleftrightarrow> I s \<and> (\<forall>f \<in> set fs. resumable G s f)"

lemma resumable_kept: "resumable G s f \<Longrightarrow> G s s' \<Longrightarrow> resumable G s' f"
  unfolding resumable_def kept_def by blast

locale guaranteed_pool = guarantee G for G :: "'s \<Rightarrow> 's \<Rightarrow> bool" +
  fixes init :: "'s \<Rightarrow> bool" and invar :: "'s \<Rightarrow> bool" and calls :: "'s \<Rightarrow> ('s, 'e, 'a) act \<Rightarrow> bool"
  assumes init_invar: "init s \<Longrightarrow> invar s"
    and invar_kept: "kept G invar"
    and calls_safe: "invar s \<Longrightarrow> calls s a \<Longrightarrow> \<exists>P. P s \<and> safe G (\<lambda>_ _. True) P a"
begin

lemma pool_step_ok:
  assumes "pool_step calls c c'" and "pool_ok G invar c"
  shows "pool_ok G invar c'"
  using assms
proof (cases rule: pool_step.cases)
  case (call_ends s a s' r fs)
  then have "G s s'" using calls_safe assms(2) safe_done by (metis pool_ok.simps)
  then show ?thesis
    using call_ends assms(2) invar_kept by (auto simp: kept_def intro: resumable_kept)
next
  case (call_awaits s a s' f fs)
  then obtain P where "P s" "safe G (\<lambda>_ _. True) P a" using calls_safe [of s a] assms(2) by auto
  from safe_await [OF this(2,1) call_awaits(4)] have "G s s'" "resumable G s' f" unfolding resumable_def by blast+
  then show ?thesis
    using call_awaits assms(2) invar_kept by (auto simp: kept_def intro: resumable_kept)
next
  case (resume_ends a s s' r us vs)
  then have "resumable G s a" using assms(2) by simp
  then have "G s s'" unfolding resumable_def using safe_done resume_ends(3) by metis
  then show ?thesis
    using resume_ends assms(2) invar_kept by (auto simp: kept_def intro: resumable_kept)
next
  case (resume_awaits a s s' f us vs)
  then obtain P where "P s" "safe G (\<lambda>_ _. True) P a" using assms(2) by (auto simp: resumable_def)
  from safe_await [OF this(2,1) resume_awaits(3)] have "G s s'" "resumable G s' f" unfolding resumable_def by blast+
  then show ?thesis
    using resume_awaits assms(2) invar_kept by (auto simp: kept_def intro: resumable_kept)
qed

end

sublocale guaranteed_pool \<subseteq> pool: transition_system "\<lambda>(s, fs). init s \<and> fs = []" "pool_step calls" "pool_ok G invar"
  by unfold_locales (auto intro: init_invar pool_step_ok)

text \<open>A method that is called and runs alone, beside those that are suspended.\<close>

lemma runs_pool_resume: "runs a s r s' \<Longrightarrow> (pool_step calls)\<^sup>*\<^sup>* (s, us @ a # vs) (s', us @ vs)"
proof (induction rule: runs.induct)
  case (goes_on a s s1 f r s')
  have "pool_step calls (s, us @ a # vs) (s1, us @ f # vs)" using goes_on(1) by (rule pool_step.resume_awaits)
  then show ?case using goes_on(3) by (rule converse_rtranclp_into_rtranclp)
qed (auto intro: pool_step.resume_ends)

lemma runs_pool:
  assumes "runs a s r s'" and "calls s a"
  shows "(pool_step calls)\<^sup>*\<^sup>* (s, fs) (s', fs)"
  using assms(1)
proof cases
  case ends
  then show ?thesis using assms(2) by (auto intro: pool_step.call_ends)
next
  case (goes_on s1 f)
  have "pool_step calls (s, fs) (s1, fs @ [f])" using assms(2) goes_on(1) by (rule pool_step.call_awaits)
  moreover have "(pool_step calls)\<^sup>*\<^sup>* (s1, fs @ [f]) (s', fs @ [])" using goes_on(2) by (rule runs_pool_resume)
  ultimately show ?thesis by (simp add: converse_rtranclp_into_rtranclp)
qed

text \<open>The steps of a pool as functions, so that runs can be evaluated.\<close>

datatype ('s, 'e, 'a) move = Call "('s, 'e, 'a) act" | Resume nat

fun pool_move :: "('s, 'e, 'a) move \<Rightarrow> 's \<times> ('s, 'e, 'a) act list \<Rightarrow> 's \<times> ('s, 'e, 'a) act list" where
  "pool_move (Call a) (s, fs) = (case a s of (s', Done _) \<Rightarrow> (s', fs) | (s', Await f) \<Rightarrow> (s', fs @ [f]))"
| "pool_move (Resume n) (s, fs) =
     (if n < length fs then
        (case (fs ! n) s of
           (s', Done _) \<Rightarrow> (s', take n fs @ drop (Suc n) fs)
         | (s', Await f) \<Rightarrow> (s', take n fs @ f # drop (Suc n) fs))
      else (s, fs))"

lemma pool_move_call: "calls (fst c) a \<Longrightarrow> pool_step calls c (pool_move (Call a) c)"
  by (cases c) (auto intro: pool_step.call_ends pool_step.call_awaits split: prod.split proc.split)

lemma pool_move_resume: "(pool_step calls)\<^sup>*\<^sup>* c (pool_move (Resume n) c)"
proof (cases "n < length (snd c)")
  case True
  obtain s fs where c: "c = (s, fs)" by fastforce
  with True have "fs = take n fs @ fs ! n # drop (Suc n) fs" by (simp add: id_take_nth_drop)
  then have "pool_step calls (s, fs) (pool_move (Resume n) (s, fs))"
    using True c pool_step.resume_ends [of "fs ! n" s _ _ calls "take n fs" "drop (Suc n) fs"]
      pool_step.resume_awaits [of "fs ! n" s _ _ calls "take n fs" "drop (Suc n) fs"]
    by (auto split: prod.split proc.split)
  with c show ?thesis by auto
qed (cases c, simp)

end
