(* ===== verification/Session_Procs.thy ===== *)
theory Session_Procs
  imports Driver_Lifecycle Async_Procs
begin

text \<open>
  The methods of \<open>connection/TypeDBSessionImpl.ts\<close>, \<open>TypeDBTransactionImpl.ts\<close>, \<open>TypeDBDriverImpl.ts\<close> and the retry loops of
  \<open>TypeDBDatabaseImpl.ts\<close> with their suspensions: \<open>a_await\<close> stands where the source has \<open>await\<close>. A request to a server is sent and
  answered in one step, and its method is suspended before it sees the answer; the operations of the database manager and the fetching of replicas are
  such steps as a whole. The loops over the set of transactions and the arrays of callbacks look at them anew in each round.

  Each method does, when nothing else runs, what the function of the same name in \<open>Session_Model\<close> and \<open>Driver_Model\<close> does. Interleaved with any others,
  the methods keep the part of the driver's invariant that concerns transactions, timers and identifiers; what they do not
  keep is shown by two runs.
\<close>

section \<open>The retry loops\<close>

type_synonym ('w, 'a) drv_act = "('w driver, thrown, 'a) act"

type_synonym ('w, 'a) drv_task = "server_driver option \<Rightarrow> server_database \<Rightarrow> ('w, 'a) drv_act"

fun a_runOnReplicas :: "('w, 'a) drv_task \<Rightarrow> replica list \<Rightarrow> ('w, 'a) drv_act" where
  "a_runOnReplicas task [] = a_throw (throw_message UNABLE_TO_CONNECT [])"
| "a_runOnReplicas task (r # rs) =
     a_catch
       (a_await (a_bind (a_io (io_gets (\<lambda>s. jmap_get (cn_serverDrivers s) (rep_server r)))) (\<lambda>d. task d (rep_database r))))
       (\<lambda>e. if has_template UNABLE_TO_CONNECT e then a_runOnReplicas task rs else a_throw e)"

definition a_runOnAnyReplica :: "nat \<Rightarrow> ('w, 'a) drv_task \<Rightarrow> ('w, 'a) drv_act" where
  "a_runOnAnyReplica i task =
     a_bind (a_io (io_gets (\<lambda>s. db_replicas (cn_databases s i)))) (a_runOnReplicas task)"

fun a_seekPrimaryReplica_tries :: "nat \<Rightarrow> 'w env \<Rightarrow> nat \<Rightarrow> ('w, replica) drv_act" where
  "a_seekPrimaryReplica_tries 0 env i = a_throw (throw_message UNABLE_TO_CONNECT [])"
| "a_seekPrimaryReplica_tries (Suc n) env i =
     a_bind (a_io (io_gets (\<lambda>s. db_name (cn_databases s i)))) (\<lambda>name.
     a_bind (a_await (a_io (fetchReplicas env name))) (\<lambda>rs.
     a_bind (a_io (set_replicas i rs)) (\<lambda>_.
     a_bind (a_io (io_gets (\<lambda>s. primaryReplica (cn_databases s i)))) (\<lambda>primary.
     case primary of
       None \<Rightarrow>
         a_bind (a_await (a_io (waitForPrimaryReplicaSelection env))) (\<lambda>_. a_seekPrimaryReplica_tries n env i)
     | Some r \<Rightarrow> a_return r))))"

definition a_attemptOnPrimary :: "nat \<Rightarrow> ('w, 'a) drv_task \<Rightarrow> ('w, 'a) drv_act" where
  "a_attemptOnPrimary i task =
     a_bind (a_io (io_gets (\<lambda>s. primaryReplica (cn_databases s i)))) (\<lambda>primary.
     case primary of
       None \<Rightarrow> a_throw (type_error ''server'')
     | Some r \<Rightarrow>
         a_bind (a_io (io_gets (\<lambda>s. jmap_get (cn_serverDrivers s) (rep_server r)))) (\<lambda>d. task d (rep_database r)))"

fun a_runOnPrimaryReplica_tries :: "nat \<Rightarrow> 'w env \<Rightarrow> nat \<Rightarrow> ('w, 'a) drv_task \<Rightarrow> ('w, 'a) drv_act" where
  "a_runOnPrimaryReplica_tries 0 env i task = a_throw (throw_message UNABLE_TO_CONNECT [])"
| "a_runOnPrimaryReplica_tries (Suc n) env i task =
     a_catch (a_await (a_attemptOnPrimary i task))
       (\<lambda>e.
          if retryable e then
            a_bind (a_await (a_io (waitForPrimaryReplicaSelection env))) (\<lambda>_.
            a_bind (a_await (a_seekPrimaryReplica_tries FETCH_REPLICAS_MAX_RETRIES env i)) (\<lambda>_.
            a_runOnPrimaryReplica_tries n env i task))
          else a_throw e)"

definition a_runOnPrimaryReplica :: "'w env \<Rightarrow> nat \<Rightarrow> ('w, 'a) drv_task \<Rightarrow> ('w, 'a) drv_act" where
  "a_runOnPrimaryReplica env i task =
     a_bind (a_io (io_gets (\<lambda>s. primaryReplica (cn_databases s i)))) (\<lambda>primary.
     a_bind
       (case primary of
          None \<Rightarrow> a_bind (a_await (a_seekPrimaryReplica_tries FETCH_REPLICAS_MAX_RETRIES env i)) (\<lambda>_. a_return ())
        | Some _ \<Rightarrow> a_return ())
       (\<lambda>_. a_runOnPrimaryReplica_tries PRIMARY_REPLICA_TASK_MAX_RETRIES env i task))"

definition a_runFailsafe :: "'w env \<Rightarrow> nat \<Rightarrow> ('w, 'a) drv_task \<Rightarrow> ('w, 'a) drv_act" where
  "a_runFailsafe env i task =
     a_catch (a_await (a_runOnAnyReplica i task))
       (\<lambda>e. if has_template CLOUD_REPLICA_NOT_PRIMARY e then a_runOnPrimaryReplica env i task else a_throw e)"

section \<open>Transactions\<close>

definition a_transaction_open :: "'w world_env \<Rightarrow> nat \<Rightarrow> ('w, unit) drv_act" where
  "a_transaction_open we t =
     a_bind (a_io (io_gets (\<lambda>s. dr_transaction s t))) (\<lambda>tx.
     a_bind (a_io (io_gets (\<lambda>s. se_serverDriver (dr_session s (tx_session tx))))) (\<lambda>driver.
     case driver of
       None \<Rightarrow> a_throw (type_error ''stub'')
     | Some sd \<Rightarrow>
         a_bind
           (a_await
              (a_bind (a_await (a_io (open_stream we (sd_address sd)))) (\<lambda>_.
               a_io (upd_transaction t (\<lambda>tx. tx\<lparr>tx_address := sd_address sd, tx_isOpen := True\<rparr>)))))
           (\<lambda>_.
         a_bind (a_io (io_gets (\<lambda>s. dr_session s (tx_session tx)))) (\<lambda>se.
         a_bind
           (a_io (io_lift (Transaction_openReq (se_id se) (transaction_type_toProto (tx_type tx))
              (options_proto (tx_options tx)) (Num (of_int (se_networkLatencyMillis se))))))
           (\<lambda>openReq. a_bind (a_await (a_io (rpcExecute we t openReq (Some False)))) (\<lambda>_. a_return ()))))))"

definition a_transaction_close :: "nat \<Rightarrow> ('w, unit) drv_act" where
  "a_transaction_close t =
     a_bind (a_await (a_io (upd_transaction t (\<lambda>tx. tx\<lparr>tx_isOpen := False, tx_error := None\<rparr>)))) (\<lambda>_.
     a_bind (a_io (io_gets (\<lambda>s. tx_session (dr_transaction s t)))) (\<lambda>i. a_io (session_closed i t)))"

text \<open>\<open>finally\<close>: the transaction is closed after an answer and after an error, which is thrown again.\<close>

definition a_commit :: "'w world_env \<Rightarrow> nat \<Rightarrow> ('w, unit) drv_act" where
  "a_commit we t =
     a_then (a_await (a_io (rpcExecute we t Transaction_commitReq (Some False)))) (\<lambda>r.
     a_bind (a_await (a_transaction_close t)) (\<lambda>_.
     case r of Inl e \<Rightarrow> a_throw e | Inr _ \<Rightarrow> a_return ()))"

section \<open>Sessions\<close>

definition a_openAt :: "'w world_env \<Rightarrow> nat \<Rightarrow> server_driver option \<Rightarrow> ('w, unit) drv_act" where
  "a_openAt we i d =
     a_bind (a_io (io_gets (\<lambda>s. dr_session s i))) (\<lambda>se.
     a_bind (a_io (io_gets (\<lambda>s. we_millis we (net_world s)))) (\<lambda>start.
     a_bind
       (a_await (a_io (with_stub d (\<lambda>st. sessionOpen (we_env we) st
          (Session_openReq (se_databaseName se) (session_type_toProto (se_type se)) (options_proto (se_options se)))))))
       (\<lambda>res.
     a_bind (a_io (io_gets (\<lambda>s. we_millis we (net_world s)))) (\<lambda>end_time.
     a_io (upd_session i (\<lambda>se. set_pulse (se
       \<lparr>se_networkLatencyMillis := network_latency start end_time (p_int (proto_get ''server_duration_millis'' res)),
        se_id := bytesToHexString (p_bytes (proto_get ''session_id'' res)),
        se_serverDriver := d, se_isOpen := True\<rparr>)))))))"

text \<open>\<open>for (const callback of callbacks) await callback()\<close>.\<close>

definition callback_round :: "(session \<Rightarrow> nat list) \<Rightarrow> nat \<Rightarrow> ('w driver, thrown, nat) rounds" where
  "callback_round callbacks i n s =
     (let cbs = callbacks (dr_session s i) in
      if n < length cbs
      then Some (a_bind (a_io (upd_session i (\<lambda>se. se\<lparr>se_called := se_called se @ [cbs ! n]\<rparr>))) (\<lambda>_. a_return (Suc n)))
      else None)"

definition a_reopenAt :: "'w world_env \<Rightarrow> nat \<Rightarrow> server_driver option \<Rightarrow> ('w, unit) drv_act" where
  "a_reopenAt we i d = a_bind (a_await (a_openAt we i d)) (\<lambda>_. a_for (callback_round se_onReopen i) 0)"

text \<open>
  \<open>for (const tx of this._transactions) await tx.close()\<close>: the iterator of a \<open>Set\<close> gives each element once, in the order of insertion, those that
  are inserted during the loop included and those that were removed before their turn left out.
\<close>

definition close_round :: "nat \<Rightarrow> ('w driver, thrown, nat list) rounds" where
  "close_round i visited s =
     (case filter (\<lambda>t. t \<notin> set visited) (se_transactions (dr_session s i)) of
        [] \<Rightarrow> None
      | t # _ \<Rightarrow> Some (a_bind (a_transaction_close t) (\<lambda>_. a_return (t # visited))))"

definition a_closeResources :: "nat \<Rightarrow> ('w, unit) drv_act" where
  "a_closeResources i =
     a_bind (a_io (upd_session i (\<lambda>se. se\<lparr>se_isOpen := False\<rparr>))) (\<lambda>_.
     a_bind (a_for (close_round i) []) (\<lambda>_.
     a_bind (a_for (callback_round se_onClose i) 0) (\<lambda>_.
     a_bind (a_io (closeSession i)) (\<lambda>_. a_io (upd_session i clear_pulse)))))"

definition a_session_close :: "'w world_env \<Rightarrow> nat \<Rightarrow> ('w, unit) drv_act" where
  "a_session_close we i =
     a_bind (a_io (io_gets (\<lambda>s. se_isOpen (dr_session s i)))) (\<lambda>is_open.
     if is_open then
       a_bind (a_await (a_closeResources i)) (\<lambda>_.
       a_bind (a_io (io_gets (\<lambda>s. dr_session s i))) (\<lambda>se.
       a_bind (a_io (io_lift (Session_closeReq (se_id se)))) (\<lambda>req.
       a_await (a_io (with_stub (se_serverDriver se) (\<lambda>st. sessionClose (we_env we) st req))))))
     else a_return ())"

definition a_new_open_transaction :: "'w world_env \<Rightarrow> nat \<Rightarrow> transaction_type \<Rightarrow> options \<Rightarrow> ('w, nat) drv_act" where
  "a_new_open_transaction we i typ opts =
     a_bind (a_io (transaction_new i typ opts)) (\<lambda>t. a_bind (a_await (a_transaction_open we t)) (\<lambda>_. a_return t))"

definition a_session_transaction :: "'w world_env \<Rightarrow> nat \<Rightarrow> transaction_type \<Rightarrow> options option \<Rightarrow> ('w, nat) drv_act" where
  "a_session_transaction we i typ options =
     a_bind (a_io (io_gets (\<lambda>s. se_isOpen (dr_session s i)))) (\<lambda>is_open.
     if \<not> is_open then a_throw (throw_template SESSION_CLOSED)
     else
       (let opts = (case options of None \<Rightarrow> options_default | Some opts \<Rightarrow> opts) in
        a_bind
          (a_catch (a_new_open_transaction we i typ opts)
             (\<lambda>e.
                a_bind (a_await (a_session_close we i)) (\<lambda>_.
                a_bind (a_io (io_gets (\<lambda>s. se_database (dr_session s i)))) (\<lambda>d.
                a_await (a_runFailsafe (we_env we) d (\<lambda>sd _.
                  a_bind (a_await (a_reopenAt we i sd)) (\<lambda>_. a_new_open_transaction we i typ opts)))))))
          (\<lambda>t.
             a_bind (a_io (upd_session i (\<lambda>se. se\<lparr>se_transactions := set_add t (se_transactions se)\<rparr>)))
               (\<lambda>_. a_return t))))"

definition a_pulse :: "'w world_env \<Rightarrow> nat \<Rightarrow> ('w, unit) drv_act" where
  "a_pulse we i =
     a_bind (a_io (io_gets (\<lambda>s. dr_session s i))) (\<lambda>se.
     if \<not> se_isOpen se then a_return ()
     else
       a_bind (a_io (io_lift (Session_pulseReq (se_id se)))) (\<lambda>req.
       a_catch
         (a_bind (a_await (a_io (with_stub (se_serverDriver se) (\<lambda>st. sessionPulse (we_env we) st req)))) (\<lambda>isAlive.
          if \<not> isAlive then a_await (a_closeResources i) else a_io (upd_session i set_pulse)))
         (\<lambda>_. a_io (upd_session i (\<lambda>se. se\<lparr>se_isOpen := False\<rparr>)))))"

definition a_pulse_fires :: "'w world_env \<Rightarrow> nat \<Rightarrow> nat \<Rightarrow> ('w, unit) drv_act" where
  "a_pulse_fires we i h =
     a_bind (a_io (upd_session i (\<lambda>se. se\<lparr>se_timers := removeAll h (se_timers se)\<rparr>))) (\<lambda>_. a_pulse we i)"

definition a_session_open :: "'w world_env \<Rightarrow> nat \<Rightarrow> ('w, unit) drv_act" where
  "a_session_open we i =
     a_bind (a_io databases) (\<lambda>_.
     a_bind (a_io (io_gets (\<lambda>s. se_databaseName (dr_session s i)))) (\<lambda>name.
     a_bind (a_await (a_io (dbm_get (we_env we) name))) (\<lambda>db.
     case db of
       InheritedMember _ \<Rightarrow> a_throw (NativeError ''TypeError'' ''this._database.runFailsafe is not a function'' None)
     | CachedDatabase d \<Rightarrow>
         a_bind (a_io (upd_session i (\<lambda>se. se\<lparr>se_database := d\<rparr>))) (\<lambda>_.
         a_await (a_runFailsafe (we_env we) d (\<lambda>sd _. a_openAt we i sd))))))"

definition a_driver_session :: "'w world_env \<Rightarrow> string \<Rightarrow> session_type \<Rightarrow> options option \<Rightarrow> ('w, nat) drv_act" where
  "a_driver_session we databaseName typ options =
     a_bind (a_io (io_gets dr_isOpen)) (\<lambda>is_open.
     if \<not> is_open then a_throw (throw_template DRIVER_NOT_OPEN)
     else
       a_bind (a_io (session_new databaseName typ (case options of None \<Rightarrow> options_default | Some opts \<Rightarrow> opts))) (\<lambda>i.
       a_bind (a_await (a_session_open we i)) (\<lambda>_.
       a_bind (a_io (io_gets (\<lambda>s. se_id (dr_session s i)))) (\<lambda>sid.
       a_bind (a_io (io_gets (\<lambda>s. jmap_get (dr_sessions s) sid))) (\<lambda>known.
       case known of
         None \<Rightarrow> a_bind (a_io (io_update (\<lambda>s. s\<lparr>dr_sessions := jmap_set sid i (dr_sessions s)\<rparr>))) (\<lambda>_. a_return i)
       | Some _ \<Rightarrow> a_throw (throw_message SESSION_ID_EXISTS [sid]))))))"

fun a_close_server_drivers :: "server_driver list \<Rightarrow> ('w, unit) drv_act" where
  "a_close_server_drivers [] = a_return ()"
| "a_close_server_drivers (d # ds) = a_bind (a_await (a_io (server_driver_close d))) (\<lambda>_. a_close_server_drivers ds)"

definition a_driver_close :: "('w, unit) drv_act" where
  "a_driver_close =
     a_bind (a_io (io_gets dr_isOpen)) (\<lambda>is_open.
     if is_open then
       a_bind (a_io (io_update (\<lambda>s. s\<lparr>dr_isOpen := False\<rparr>))) (\<lambda>_.
       a_bind (a_io (io_gets (\<lambda>s. object_values_of_map (cn_serverDrivers s)))) a_close_server_drivers)
     else a_return ())"

section \<open>The calls of a program\<close>

fun a_run :: "'w world_env \<Rightarrow> lc_call \<Rightarrow> ('w, unit) drv_act" where
  "a_run we (OpenSession name typ opts) = a_bind (a_driver_session we name typ opts) (\<lambda>_. a_return ())"
| "a_run we (CloseSession i) = a_session_close we i"
| "a_run we (PulseFires i h) = a_pulse_fires we i h"
| "a_run we (OnClose i cb) = a_io (onClose i cb)"
| "a_run we (OnReopen i cb) = a_io (onReopen i cb)"
| "a_run we (OpenTransaction i typ opts) = a_bind (a_session_transaction we i typ opts) (\<lambda>_. a_return ())"
| "a_run we (Execute t req b) = a_bind (a_await (a_io (rpcExecute we t req b))) (\<lambda>_. a_return ())"
| "a_run we (ExecuteStream t req) = a_bind (a_io (rpcStream we t req)) (\<lambda>_. a_return ())"
| "a_run we (Commit t) = a_commit we t"
| "a_run we (Rollback t) = a_bind (a_await (a_io (rpcExecute we t Transaction_rollbackReq (Some False)))) (\<lambda>_. a_return ())"
| "a_run we (CloseTransaction t) = a_transaction_close t"
| "a_run we (StreamFailed t e) = a_io (stream_failed t e)"
| "a_run we (GetDatabase name) =
     a_bind (a_bind (a_io databases) (\<lambda>_. a_await (a_io (dbm_get (we_env we) name)))) (\<lambda>_. a_return ())"
| "a_run we CurrentUser = a_bind (a_await (a_io (driver_user (we_env we)))) (\<lambda>_. a_return ())"
| "a_run we CloseDriver = a_driver_close"

definition il_calls :: "'w world_env \<Rightarrow> 'w driver \<Rightarrow> ('w, unit) drv_act \<Rightarrow> bool" where
  "il_calls we s a \<longleftrightarrow> (\<exists>c. lc_enabled s c \<and> a = a_run we c)"

section \<open>Alone, the methods do what the functions do\<close>

lemma alone_runOnReplicas:
  assumes "\<And>d db. alone (task d db) (f d db)"
  shows "alone (a_runOnReplicas task rs) (runOnReplicas f rs)"
  by (induction rs) (auto intro!: alone_intros assms)

lemma alone_seek: "alone (a_seekPrimaryReplica_tries n env i) (seekPrimaryReplica_tries n env i)"
  by (induction n) (auto intro!: alone_intros)

lemma attemptOnPrimary_bind:
  "attemptOnPrimary i f = io_bind (io_gets (\<lambda>s. primaryReplica (cn_databases s i))) (\<lambda>primary.
     case primary of
       None \<Rightarrow> io_throw (type_error ''server'')
     | Some r \<Rightarrow> io_bind (io_gets (\<lambda>s. jmap_get (cn_serverDrivers s) (rep_server r))) (\<lambda>d. f d (rep_database r)))"
  by (auto simp: fun_eq_iff attemptOnPrimary_def io_simps split: option.split)

lemma alone_runOnPrimaryReplica_tries:
  assumes "\<And>d db. alone (task d db) (f d db)"
  shows "alone (a_runOnPrimaryReplica_tries n env i task) (runOnPrimaryReplica_tries n env i f)"
  by (induction n)
    (auto simp: a_attemptOnPrimary_def attemptOnPrimary_bind seekPrimaryReplica_def intro!: alone_intros alone_seek assms)

lemma alone_runFailsafe:
  assumes "\<And>d db. alone (task d db) (f d db)"
  shows "alone (a_runFailsafe env i task) (runFailsafe env i f)"
  unfolding a_runFailsafe_def runFailsafe_def a_runOnAnyReplica_def runOnAnyReplica_def a_runOnPrimaryReplica_def
    runOnPrimaryReplica_def seekPrimaryReplica_def
  by (intro alone_intros alone_runOnReplicas alone_runOnPrimaryReplica_tries alone_seek assms)

text \<open>Opening the stream does not change the session, so that it does not matter when the session is read.\<close>

lemma transaction_open_reads:
  "transaction_open we t =
     io_bind (io_gets (\<lambda>s. dr_transaction s t)) (\<lambda>tx.
     io_bind (io_gets (\<lambda>s. se_serverDriver (dr_session s (tx_session tx)))) (\<lambda>driver.
     case driver of
       None \<Rightarrow> io_throw (type_error ''stub'')
     | Some sd \<Rightarrow>
         io_bind
           (io_bind (open_stream we (sd_address sd)) (\<lambda>_.
            upd_transaction t (\<lambda>tx. tx\<lparr>tx_address := sd_address sd, tx_isOpen := True\<rparr>)))
           (\<lambda>_.
         io_bind (io_gets (\<lambda>s. dr_session s (tx_session tx))) (\<lambda>se.
         io_bind
           (io_lift (Transaction_openReq (se_id se) (transaction_type_toProto (tx_type tx))
              (options_proto (tx_options tx)) (Num (of_int (se_networkLatencyMillis se)))))
           (\<lambda>openReq. io_bind (rpcExecute we t openReq (Some False)) (\<lambda>_. io_return ()))))))"
  by (auto simp: fun_eq_iff transaction_open_def open_stream_def session_io split: option.split prod.split)

lemma alone_transaction_open: "alone (a_transaction_open we t) (transaction_open we t)"
  unfolding a_transaction_open_def transaction_open_reads by (intro alone_intros)

lemma alone_transaction_close: "alone (a_transaction_close t) (transaction_close t)"
  unfolding a_transaction_close_def transaction_close_def by (intro alone_intros)

lemma alone_new_open_transaction: "alone (a_new_open_transaction we i typ opts) (new_open_transaction we i typ opts)"
  unfolding a_new_open_transaction_def new_open_transaction_def by (intro alone_intros alone_transaction_open)

lemma alone_openAt: "alone (a_openAt we i d) (openAt we i d)"
  unfolding a_openAt_def openAt_def by (intro alone_intros)

text \<open>The loop over the callbacks calls those that are left, in their order.\<close>

lemma runs_callbacks:
  assumes "\<And>se cs. callbacks (se\<lparr>se_called := cs\<rparr>) = callbacks se"
  shows "runs (a_for (callback_round callbacks i) n) s (Inr ())
    (snd (upd_session i (\<lambda>se. se\<lparr>se_called := se_called se @ drop n (callbacks se)\<rparr>) s))"
proof (induction "length (callbacks (dr_session s i)) - n" arbitrary: n s)
  case 0
  then have "callback_round callbacks i n s = None"
    "snd (upd_session i (\<lambda>se. se\<lparr>se_called := se_called se @ drop n (callbacks se)\<rparr>) s) = s"
    by (simp_all add: callback_round_def session_io)
  then show ?case using runs_for(1) by metis
next
  case (Suc m)
  let ?cb = "callbacks (dr_session s i) ! n"
  let ?s = "s\<lparr>dr_session := (dr_session s)(i := (dr_session s i)\<lparr>se_called := se_called (dr_session s i) @ [?cb]\<rparr>)\<rparr>"
  let ?body = "a_bind (a_io (upd_session i (\<lambda>se. se\<lparr>se_called := se_called se @ [?cb]\<rparr>))) (\<lambda>_. a_return (Suc n))
    :: ('a driver, thrown, nat) act"
  have n: "n < length (callbacks (dr_session s i))" using Suc.hyps(2) by simp
  have round: "callback_round callbacks i n s = Some ?body" using n by (simp add: callback_round_def)
  have body: "runs ?body s (Inr (Suc n)) ?s"
    by (rule runs.ends) (simp add: a_bind_def a_then_code a_io_def a_return_def session_io)
  have "m = length (callbacks (dr_session ?s i)) - Suc n" using Suc.hyps(2) assms by simp
  from Suc.hyps(1) [OF this] have rest: "runs (a_for (callback_round callbacks i) (Suc n)) ?s (Inr ())
    (snd (upd_session i (\<lambda>se. se\<lparr>se_called := se_called se @ drop (Suc n) (callbacks se)\<rparr>) ?s))" .
  have "snd (upd_session i (\<lambda>se. se\<lparr>se_called := se_called se @ drop (Suc n) (callbacks se)\<rparr>) ?s) =
    snd (upd_session i (\<lambda>se. se\<lparr>se_called := se_called se @ drop n (callbacks se)\<rparr>) s)"
    using n assms by (simp add: session_io Cons_nth_drop_Suc [symmetric])
  with runs_for(2) [OF round body rest] show ?case by simp
qed

lemma alone_callbacks:
  assumes "\<And>se cs. callbacks (se\<lparr>se_called := cs\<rparr>) = callbacks se"
  shows "alone (a_for (callback_round callbacks i) 0) (upd_session i (\<lambda>se. se\<lparr>se_called := se_called se @ callbacks se\<rparr>))"
  using runs_callbacks [OF assms, of i 0] by (auto simp: alone_def session_io)

lemma alone_reopenAt: "alone (a_reopenAt we i d) (reopenAt we i d)"
  unfolding a_reopenAt_def reopenAt_def by (intro alone_intros alone_openAt alone_callbacks) simp

text \<open>
  The loop over the transactions closes those it has not visited. Closing a transaction again changes nothing, so that it
  does not matter that the loop closes each of them only once.
\<close>

definition is_closed :: "nat \<Rightarrow> 'w driver \<Rightarrow> bool" where
  "is_closed t s \<longleftrightarrow> \<not> tx_isOpen (dr_transaction s t) \<and> tx_error (dr_transaction s t) = None \<and>
     t \<notin> set (se_transactions (dr_session s (tx_session (dr_transaction s t))))"

lemma close_is_closed: "transaction_close t s = (Inr (), s') \<Longrightarrow> is_closed t s'"
  by (auto simp: is_closed_def transaction_close_effect)

lemma close_keeps_closed: "is_closed u s \<Longrightarrow> transaction_close t s = (Inr (), s') \<Longrightarrow> is_closed u s'"
  by (cases "u = t") (auto simp: is_closed_def transaction_close_effect split: if_splits)

lemma close_again: "is_closed t s \<Longrightarrow> transaction_close t s = (Inr (), s)"
  by (cases s) (auto simp: is_closed_def transaction_close_effect fun_eq_iff removeAll_id)

lemma close_transactions_skip:
  "is_closed t s \<Longrightarrow> close_transactions (removeAll t us) s = close_transactions us s"
proof (induction us arbitrary: s)
  case (Cons u us)
  obtain s1 where s1: "transaction_close u s = (Inr (), s1)" by (simp add: transaction_close_effect)
  show ?case
    using Cons s1 close_keeps_closed [OF Cons.prems s1] close_again [OF Cons.prems]
    by (cases "u = t") (simp_all add: io_simps)
qed simp

lemma runs_close_round:
  "runs (a_for (close_round i) visited) s (Inr ())
     (snd (close_transactions (filter (\<lambda>t. t \<notin> set visited) (se_transactions (dr_session s i))) s))"
proof (induction "length (filter (\<lambda>t. t \<notin> set visited) (se_transactions (dr_session s i)))" arbitrary: visited s rule: less_induct)
  case less
  let ?left = "\<lambda>visited s. filter (\<lambda>t. t \<notin> set visited) (se_transactions (dr_session s i))"
  show ?case
  proof (cases "?left visited s")
    case Nil
    then have "close_round i visited s = None" by (simp add: close_round_def)
    from runs_for(1) [of "close_round i", OF this] Nil show ?thesis by (simp add: io_simps)
  next
    case (Cons t us)
    let ?body = "a_bind (a_transaction_close t) (\<lambda>_. a_return (t # visited)) :: ('a driver, thrown, nat list) act"
    obtain s1 where s1: "transaction_close t s = (Inr (), s1)" by (simp add: transaction_close_effect)
    have round: "close_round i visited s = Some ?body" using Cons by (simp add: close_round_def)
    have body: "runs ?body s (Inr (t # visited)) s1"
      using aloneD [OF alone_bind [OF alone_transaction_close alone_basic(2)], of t "\<lambda>_. t # visited" s] s1
      by (simp add: io_simps)
    have "?left (t # visited) s1 = removeAll t (?left visited s)"
      using s1
      by (cases "i = tx_session (dr_transaction s t)")
        (auto simp: transaction_close_effect removeAll_filter_not_eq conj_commute eq_commute)
    then have left: "?left (t # visited) s1 = removeAll t us" using Cons by simp
    then have "length (?left (t # visited) s1) < length (?left visited s)"
      using Cons by (simp add: le_imp_less_Suc length_removeAll_less_eq)
    from less [OF this] left have rest: "runs (a_for (close_round i) (t # visited)) s1 (Inr ())
      (snd (close_transactions us s1))"
      by (simp add: close_transactions_skip [OF close_is_closed [OF s1]])
    from runs_for(2) [OF round body rest] Cons s1 show ?thesis by (simp add: io_simps)
  qed
qed

lemma alone_close_round:
  "alone (a_for (close_round i) [])
     (io_bind (io_gets (\<lambda>s. se_transactions (dr_session s i))) (\<lambda>ts. close_transactions ts))"
proof (rule aloneI)
  fix s r s' assume "io_bind (io_gets (\<lambda>s. se_transactions (dr_session s i))) (\<lambda>ts. close_transactions ts) s = (r, s')"
  then have "close_transactions (se_transactions (dr_session s i)) s = (r, s')" by (simp add: io_simps)
  moreover from this close_transactions_returns have "r = Inr ()" by (metis prod.inject)
  ultimately show "runs (a_for (close_round i) []) s r s'" using runs_close_round [of i "[]" s] by simp
qed

lemma io_bind_assoc: "io_bind (io_bind m f) g = io_bind m (\<lambda>x. io_bind (f x) g)"
  by (auto simp: fun_eq_iff io_simps split: prod.split sum.split)

lemma alone_closeResources: "alone (a_closeResources i) (closeResources i)"
proof -
  have eq: "closeResources i =
     io_bind (upd_session i (\<lambda>se. se\<lparr>se_isOpen := False\<rparr>)) (\<lambda>_.
     io_bind (io_bind (io_gets (\<lambda>s. se_transactions (dr_session s i))) (\<lambda>ts. close_transactions ts)) (\<lambda>_.
     io_bind (upd_session i (\<lambda>se. se\<lparr>se_called := se_called se @ se_onClose se\<rparr>)) (\<lambda>_.
     io_bind (closeSession i) (\<lambda>_. upd_session i clear_pulse))))"
    by (simp add: closeResources_def io_bind_assoc)
  show ?thesis
    unfolding eq a_closeResources_def by (intro alone_intros alone_close_round alone_callbacks) simp
qed

lemma alone_session_close: "alone (a_session_close we i) (session_close we i)"
  unfolding a_session_close_def session_close_def by (intro alone_intros alone_closeResources)

lemma alone_session_transaction: "alone (a_session_transaction we i typ opts) (session_transaction we i typ opts)"
  unfolding a_session_transaction_def session_transaction_def Let_def
  by (intro alone_intros alone_new_open_transaction alone_session_close alone_runFailsafe alone_reopenAt)

lemma alone_pulse: "alone (a_pulse_fires we i h) (pulse_fires we i h)"
  unfolding a_pulse_fires_def pulse_fires_def a_pulse_def pulse_def by (intro alone_intros alone_closeResources)

lemma alone_commit: "alone (a_commit we t) (commit we t)"
proof (rule aloneI)
  fix s r s' assume c: "commit we t s = (r, s')"
  obtain a s1 where a: "rpcExecute we t Transaction_commitReq (Some False) s = (a, s1)" by fastforce
  let ?rest = "io_bind (transaction_close t) (\<lambda>_. case a of Inl e \<Rightarrow> io_throw e | Inr _ \<Rightarrow> io_return ())"
  have "alone (a_bind (a_await (a_transaction_close t)) (\<lambda>_. case a of Inl e \<Rightarrow> a_throw e | Inr _ \<Rightarrow> a_return ())) ?rest"
    by (cases a) (auto intro!: alone_intros alone_transaction_close)
  moreover have "?rest s1 = (r, s')"
    using c a by (cases a) (auto simp: commit_def transaction_close_effect io_simps)
  ultimately have "runs (a_bind (a_await (a_transaction_close t)) (\<lambda>_. case a of Inl e \<Rightarrow> a_throw e | Inr _ \<Rightarrow> a_return ())) s1 r s'"
    by (rule aloneD)
  moreover have "runs (a_io (rpcExecute we t Transaction_commitReq (Some False))) s a s1"
    by (rule runs.ends) (simp add: a_io_def a)
  ultimately show "runs (a_commit we t) s r s'"
    unfolding a_commit_def by (blast intro: runs_then runs_await)
qed

lemma alone_driver_session: "alone (a_driver_session we name typ opts) (driver_session we name typ opts)"
proof -
  have "alone (a_session_open we i) (session_open we i)" for i
    unfolding a_session_open_def session_open_def
    by (intro alone_intros) (auto intro!: alone_intros alone_runFailsafe alone_openAt split: cached.split)
  then show ?thesis
    unfolding a_driver_session_def driver_session_def by (intro alone_intros)
qed

lemma alone_close_server_drivers: "alone (a_close_server_drivers ds) (close_server_drivers ds)"
  by (induction ds) (auto intro!: alone_intros)

lemma alone_driver_close: "alone a_driver_close driver_close"
  unfolding a_driver_close_def driver_close_def by (intro alone_intros alone_close_server_drivers)

lemma alone_run: "alone (a_run we c) (lc_run we c)"
  by (cases c)
    (auto simp: forget_def rollback_def intro!: alone_intros alone_driver_session alone_session_close alone_pulse
      alone_session_transaction alone_commit alone_transaction_close alone_driver_close)

section \<open>Interleaved, the methods keep an invariant\<close>

text \<open>
  What is left of the invariant of \<open>Driver_Lifecycle\<close>: each session holds its own transactions, once each; pending timers are distinct and were
  handed out; an open session has an id that a server gave it; and the driver lists sessions that exist.
\<close>

definition il_invar :: "'w driver \<Rightarrow> bool" where
  "il_invar s \<longleftrightarrow>
     (\<forall>i. session_wf i (dr_transaction s) (dr_transaction_count s) (dr_session s i)) \<and>
     jmap_wf (dr_sessions s) \<and> (\<forall>i \<in> set (jmap_values (dr_sessions s)). i < dr_session_count s)"

text \<open>What every piece of code guarantees: objects do not disappear and a transaction stays with its session.\<close>

definition il_guar :: "'w driver \<Rightarrow> 'w driver \<Rightarrow> bool" where
  "il_guar s s' \<longleftrightarrow>
     (il_invar s \<longrightarrow> il_invar s') \<and> dr_session_count s \<le> dr_session_count s' \<and>
     dr_transaction_count s \<le> dr_transaction_count s' \<and>
     (\<forall>t < dr_transaction_count s. tx_session (dr_transaction s' t) = tx_session (dr_transaction s t))"

definition il_at :: "nat \<Rightarrow> 'w driver \<Rightarrow> bool" where
  "il_at i s \<longleftrightarrow> il_invar s \<and> i < dr_session_count s"

definition il_tx :: "nat \<Rightarrow> nat \<Rightarrow> 'w driver \<Rightarrow> bool" where
  "il_tx i t s \<longleftrightarrow> il_at i s \<and> belongs i t s"

lemmas il_defs = il_invar_def il_guar_def il_at_def il_tx_def belongs_def session_wf_def

interpretation il: guarantee "il_guar :: 'w driver \<Rightarrow> 'w driver \<Rightarrow> bool"
  by unfold_locales (auto simp: il_guar_def)

lemma kept_il: "kept il_guar il_invar" "kept il_guar (il_at i)" "kept il_guar (il_tx i t)"
  by (auto simp: kept_def il_guar_def il_at_def il_tx_def belongs_def)

text \<open>Pieces of code that give the guarantee wherever the invariant holds.\<close>

definition lawful :: "('w, 'a) drv_io \<Rightarrow> bool" where
  "lawful m \<longleftrightarrow> (\<forall>s r s'. il_invar s \<longrightarrow> m s = (r, s') \<longrightarrow> il_guar s s')"

abbreviation calm :: "('w driver \<Rightarrow> bool) \<Rightarrow> ('w, 'a) drv_act \<Rightarrow> bool" where
  "calm P \<equiv> safe il_guar (case_sum (\<lambda>_. P) (\<lambda>_. P)) P"

lemma calm_lawful:
  assumes "lawful m"
  shows "calm il_invar (a_io m)" "calm (il_at i) (a_io m)" "calm (il_tx i t) (a_io m)"
proof -
  have "il_guar s s'" if "il_invar s" "m s = (r, s')" for s r s'
    using assms that by (simp add: lawful_def)
  then have "il_guar s s'" if "il_invar s \<or> il_at i s \<or> il_tx i t s" "m s = (r, s')" for s r s'
    using that by (auto simp: il_at_def il_tx_def)
  then show "calm il_invar (a_io m)" "calm (il_at i) (a_io m)" "calm (il_tx i t) (a_io m)"
    by (blast intro: il.calm_io kept_il)+
qed

lemma lawful_keeps: "keeps lc_view m \<Longrightarrow> lawful m"
proof -
  assume keep: "keeps lc_view m"
  have "il_guar s s'" if "m s = (r, s')" for s r s'
    using keepsD [OF keep that] by (simp add: lc_view_def il_guar_def il_invar_def)
  then show ?thesis by (auto simp: lawful_def)
qed

lemma lawful_transaction:
  "(\<And>tx. tx_session (f tx) = tx_session tx) \<Longrightarrow> lawful (upd_transaction t f)" "lawful (transaction_new i typ opts)"
  by (auto simp: lawful_def session_io transaction_new_def Let_def il_defs less_Suc_eq)

lemma lawful_session:
  "(\<And>tx n se. session_wf i tx n se \<Longrightarrow> session_wf i tx n (f se)) \<Longrightarrow> lawful (upd_session i f)"
  by (auto simp: lawful_def session_io il_invar_def il_guar_def)

lemma lawful_set_pulse: "lawful (upd_session i set_pulse)"
  by (rule lawful_session) (rule set_pulse_wf)

lemma lawful_fields:
  "lawful (upd_session i (\<lambda>se. se\<lparr>se_isOpen := False\<rparr>))" "lawful (upd_session i (\<lambda>se. se\<lparr>se_called := f se\<rparr>))"
  "lawful (upd_session i (\<lambda>se. se\<lparr>se_database := d\<rparr>))" "lawful (upd_session i clear_pulse)"
  "lawful (upd_session i (\<lambda>se. se\<lparr>se_timers := removeAll h (se_timers se)\<rparr>))" "lawful (session_closed i t)"
  unfolding session_closed_def
  by (rule lawful_session; auto simp: session_wf_def clear_pulse_def distinct_removeAll)+

lemma lawful_closeSession: "lawful (closeSession i)"
  by (auto simp: lawful_def closeSession_def io_simps il_invar_def il_guar_def jmap_wf_def distinct_map_filter)

lemma keeps_view_replicas [keeps_intros]:
  "keeps lc_view (set_replicas d rs)" "keeps lc_view (waitForPrimaryReplicaSelection env)"
  by (simp_all add: keeps_def lc_view_def set_replicas_def waitForPrimaryReplicaSelection_def io_simps)

lemmas lawful_intros =
  lawful_keeps lawful_transaction lawful_set_pulse lawful_fields lawful_closeSession keeps_intros

lemma safe_runOnReplicas:
  assumes "\<And>d db. safe il_guar (case_sum (\<lambda>_. il_at i) Q) (il_at i) (task d db)" and "\<And>x. kept il_guar (Q x)"
  shows "safe il_guar (case_sum (\<lambda>_. il_at i) Q) (il_at i) (a_runOnReplicas task rs)"
  by (induction rs) (unfold a_runOnReplicas.simps, (intro safe_intros assms kept_il; assumption?)+)

lemma calm_seek: "calm (il_at i) (a_seekPrimaryReplica_tries n env d)"
  by (induction n) (unfold a_seekPrimaryReplica_tries.simps, (intro safe_intros calm_lawful lawful_intros kept_il; assumption?)+)

lemma safe_attempt:
  assumes "\<And>d db. safe il_guar (case_sum (\<lambda>_. il_at i) Q) (il_at i) (task d db)"
  shows "safe il_guar (case_sum (\<lambda>_. il_at i) Q) (il_at i) (a_attemptOnPrimary d task)"
  unfolding a_attemptOnPrimary_def by (intro safe_intros assms)

lemma safe_runOnPrimaryReplica_tries:
  assumes "\<And>d db. safe il_guar (case_sum (\<lambda>_. il_at i) Q) (il_at i) (task d db)" and "\<And>x. kept il_guar (Q x)"
  shows "safe il_guar (case_sum (\<lambda>_. il_at i) Q) (il_at i) (a_runOnPrimaryReplica_tries n env d task)"
  by (induction n)
    (unfold a_runOnPrimaryReplica_tries.simps,
      (intro safe_intros safe_attempt calm_seek calm_lawful lawful_intros kept_il assms; assumption?)+)

lemma safe_runFailsafe:
  assumes "\<And>d db. safe il_guar (case_sum (\<lambda>_. il_at i) Q) (il_at i) (task d db)" and "\<And>x. kept il_guar (Q x)"
  shows "safe il_guar (case_sum (\<lambda>_. il_at i) Q) (il_at i) (a_runFailsafe env d task)"
  unfolding a_runFailsafe_def a_runOnAnyReplica_def a_runOnPrimaryReplica_def
  by (intro safe_intros safe_runOnReplicas safe_runOnPrimaryReplica_tries calm_seek kept_il assms)

lemma calm_transaction_open: "calm (il_tx i t) (a_transaction_open we u)"
  unfolding a_transaction_open_def by (intro safe_intros calm_lawful lawful_intros kept_il) simp

lemma calm_transaction_close: "calm il_invar (a_transaction_close t)" "calm (il_at i) (a_transaction_close t)"
  unfolding a_transaction_close_def by (intro safe_intros calm_lawful lawful_intros kept_il; simp)+

lemma safe_new_open_transaction:
  fixes we :: "'w world_env"
  shows "safe il_guar (case_sum (\<lambda>_. il_at i) (il_tx i)) (il_at i) (a_new_open_transaction we i typ opts)"
  unfolding a_new_open_transaction_def
proof (rule il.safe_bind)
  show "safe il_guar (case_sum (\<lambda>_. il_at i) (il_tx i)) (il_at i) (a_io (transaction_new i typ opts) :: ('w, nat) drv_act)"
  proof (rule il.safe_io)
    fix s :: "'w driver" and r s'
    assume at: "il_at i s" and new: "transaction_new i typ opts s = (r, s')"
    then have "il_guar s s'" using lawful_transaction(2) unfolding lawful_def il_at_def by blast
    moreover from this at have "il_at i s'" using kept_il(2) by (auto simp: kept_def)
    ultimately show "il_guar s s' \<and> case_sum (\<lambda>_. il_at i) (il_tx i) r s'"
      using new by (auto simp: transaction_new_def Let_def il_tx_def belongs_def)
  qed
  fix t
  have "safe il_guar (case_sum (\<lambda>_. il_at i) (\<lambda>_. il_tx i t)) (il_tx i t) (a_await (a_transaction_open we t))"
    by (rule safe_post [OF il.calm_await [OF calm_transaction_open kept_il(3,3)]])
      (auto simp: il_tx_def split: sum.splits)
  then show "safe il_guar (case_sum (\<lambda>_. il_at i) (il_tx i)) (il_tx i t)
      (a_bind (a_await (a_transaction_open we t)) (\<lambda>_. a_return t))"
    by (rule il.safe_bind) (rule il.safe_return, simp)
qed

lemma calm_openAt: "calm (il_at i) (a_openAt we i d)"
proof -
  have call: "lawful (with_stub d (\<lambda>st. sessionOpen (we_env we) st req))" for req
    unfolding with_stub_def sessionOpen_def by (intro lawful_keeps keeps_intros)
  have opened: "lawful (upd_session i (\<lambda>se. set_pulse (se
      \<lparr>se_networkLatencyMillis := n, se_id := bytesToHexString bs, se_serverDriver := d, se_isOpen := True\<rparr>)))" for n bs
    by (rule lawful_session, rule set_pulse_wf) (auto simp: session_wf_def)
  show ?thesis
    unfolding a_openAt_def by (intro safe_intros calm_lawful call opened kept_il)
qed

lemma calm_callbacks: "calm (il_at i) (a_for (callback_round callbacks j) n)"
proof (rule il.safe_for)
  fix x s body assume "callback_round callbacks j x s = Some body"
  then obtain cb where "body = a_bind (a_io (upd_session j (\<lambda>se. se\<lparr>se_called := se_called se @ [cb]\<rparr>))) (\<lambda>_. a_return (Suc x))"
    by (auto simp: callback_round_def Let_def split: if_splits)
  then show "calm (il_at i) body" by (simp only:) (intro safe_intros calm_lawful lawful_fields)
qed (rule kept_il)+

lemma calm_reopenAt: "calm (il_at i) (a_reopenAt we i d)"
  unfolding a_reopenAt_def by (intro safe_intros calm_openAt calm_callbacks kept_il)

lemma calm_closeResources: "calm (il_at i) (a_closeResources i)"
proof -
  have "calm (il_at i) (a_for (close_round i) visited)" for visited
  proof (rule il.safe_for)
    fix x s body assume "close_round i x s = Some body"
    then obtain t where "body = a_bind (a_transaction_close t) (\<lambda>_. a_return (t # x))"
      by (auto simp: close_round_def split: list.splits)
    then show "calm (il_at i) body" by (simp only:) (intro safe_intros calm_transaction_close)
  qed (rule kept_il)+
  then show ?thesis
    unfolding a_closeResources_def
    by (intro safe_intros calm_callbacks calm_lawful lawful_fields lawful_closeSession)
qed

lemma calm_session_close: "calm (il_at i) (a_session_close we i)"
proof -
  have "keeps lc_view (with_stub d (\<lambda>st. sessionClose (we_env we) st req))" for d req
    unfolding with_stub_def sessionClose_def by (intro keeps_intros)
  then show ?thesis
    unfolding a_session_close_def by (intro safe_intros calm_closeResources calm_lawful lawful_keeps kept_il)
qed

lemma hold_wf:
  "session_wf i tx n se \<Longrightarrow> t < n \<Longrightarrow> tx_session (tx t) = i \<Longrightarrow>
   session_wf i tx n (se\<lparr>se_transactions := set_add t (se_transactions se)\<rparr>)"
  by (auto simp: session_wf_def)

lemma calm_session_transaction:
  fixes we :: "'w world_env"
  shows "calm (il_at i) (a_session_transaction we i typ opts)"
proof -
  let ?opts = "case opts of None \<Rightarrow> options_default | Some o' \<Rightarrow> o'"
  have open': "safe il_guar (case_sum (\<lambda>_. il_at i) (il_tx i)) (il_at i)
      (a_catch (a_new_open_transaction we i typ ?opts)
         (\<lambda>e.
            a_bind (a_await (a_session_close we i)) (\<lambda>_.
            a_bind (a_io (io_gets (\<lambda>s. se_database (dr_session s i)))) (\<lambda>d.
            a_await (a_runFailsafe (we_env we) d (\<lambda>sd _.
              a_bind (a_await (a_reopenAt we i sd)) (\<lambda>_. a_new_open_transaction we i typ ?opts)))))))"
    by (intro safe_intros safe_new_open_transaction calm_session_close safe_runFailsafe calm_reopenAt kept_il)
  have hold: "safe il_guar (case_sum (\<lambda>_. il_at i) (\<lambda>_. il_at i)) (il_tx i t)
      (a_bind (a_io (upd_session i (\<lambda>se. se\<lparr>se_transactions := set_add t (se_transactions se)\<rparr>))) (\<lambda>_. a_return t)
       :: ('w, nat) drv_act)" for t
  proof (rule il.safe_bind [OF il.safe_io il.safe_return])
    fix s :: "'w driver" and r s'
    assume "il_tx i t s" "upd_session i (\<lambda>se. se\<lparr>se_transactions := set_add t (se_transactions se)\<rparr>) s = (r, s')"
    then show "il_guar s s' \<and> case_sum (\<lambda>_. il_at i) (\<lambda>_. il_at i) r s'"
      by (auto simp: session_io il_tx_def il_at_def il_guar_def il_invar_def belongs_def hold_wf simp del: set_map split: sum.split)
  qed auto
  show ?thesis
    unfolding a_session_transaction_def Let_def by (intro safe_intros il.safe_bind [OF open' hold])
qed

lemma calm_pulse_fires: "calm (il_at i) (a_pulse_fires we i h)"
proof -
  have "keeps lc_view (with_stub d (\<lambda>st. sessionPulse (we_env we) st req))" for d req
    unfolding with_stub_def sessionPulse_def by (intro keeps_intros)
  then show ?thesis
    unfolding a_pulse_fires_def a_pulse_def
    by (intro safe_intros calm_closeResources calm_lawful lawful_keeps lawful_fields lawful_set_pulse kept_il)
qed

lemma calm_commit: "calm il_invar (a_commit we t)"
  unfolding a_commit_def
proof (rule il.safe_then)
  show "calm il_invar (a_await (a_io (rpcExecute we t Transaction_commitReq (Some False))))"
    by (intro safe_intros calm_lawful lawful_intros kept_il)
  fix r :: "thrown + proto"
  show "safe il_guar (case_sum (\<lambda>_. il_invar) (\<lambda>_. il_invar)) (case_sum (\<lambda>_. il_invar) (\<lambda>_. il_invar) r)
      (a_bind (a_await (a_transaction_close t)) (\<lambda>_. case r of Inl e \<Rightarrow> a_throw e | Inr _ \<Rightarrow> a_return ()))"
    by (cases r; hypsubst; unfold sum.case) (intro safe_intros calm_transaction_close kept_il)+
qed

lemma calm_driver_session:
  fixes we :: "'w world_env"
  shows "calm il_invar (a_driver_session we name typ opts)"
proof -
  have opens: "calm (il_at i) (a_session_open we i)" for i
  proof -
    have "calm (il_at i)
        (case db of
           InheritedMember _ \<Rightarrow> a_throw (NativeError ''TypeError'' ''this._database.runFailsafe is not a function'' None)
         | CachedDatabase d \<Rightarrow>
             a_bind (a_io (upd_session i (\<lambda>se. se\<lparr>se_database := d\<rparr>))) (\<lambda>_.
             a_await (a_runFailsafe (we_env we) d (\<lambda>sd _. a_openAt we i sd))))" for db
      by (cases db; hypsubst; unfold cached.case)
        (intro safe_intros safe_runFailsafe calm_openAt calm_lawful lawful_fields kept_il)+
    then show ?thesis
      unfolding a_session_open_def by (intro safe_intros calm_lawful lawful_intros kept_il)
  qed
  have register: "safe il_guar (case_sum (\<lambda>_. il_invar) (\<lambda>_. il_invar)) (il_at i)
      (a_bind (a_io (io_gets (\<lambda>s. se_id (dr_session s i)))) (\<lambda>sid.
       a_bind (a_io (io_gets (\<lambda>s. jmap_get (dr_sessions s) sid))) (\<lambda>known.
       case known of
         None \<Rightarrow> a_bind (a_io (io_update (\<lambda>s. s\<lparr>dr_sessions := jmap_set sid i (dr_sessions s)\<rparr>))) (\<lambda>_. a_return i)
       | Some _ \<Rightarrow> a_throw (throw_message SESSION_ID_EXISTS [sid]))) :: ('w, nat) drv_act)" (is "safe _ _ _ ?a") for i
  proof (rule safeI)
    fix s s' :: "'w driver" and r
    assume at: "il_at i s" and step: "?a s = (s', Done r)"
    then have "s' = s \<or> s' = s\<lparr>dr_sessions := jmap_set (se_id (dr_session s i)) i (dr_sessions s)\<rparr>"
      by (auto simp: a_bind_def a_then_code act_defs io_simps split: option.splits)
    then have "il_guar s s'"
      using at jmap_values_set [of "se_id (dr_session s i)" i "dr_sessions s"]
      by (auto simp: il_at_def il_guar_def il_invar_def simp del: set_map)
    with at show "il_guar s s' \<and> case_sum (\<lambda>_. il_invar) (\<lambda>_. il_invar) r s'"
      by (auto simp: il_guar_def il_at_def split: sum.split)
  qed (auto simp: a_bind_def a_then_code act_defs io_simps split: option.splits)
  have rest: "safe il_guar (case_sum (\<lambda>_. il_invar) (\<lambda>_. il_invar)) (il_at i)
      (a_bind (a_await (a_session_open we i)) (\<lambda>_.
       a_bind (a_io (io_gets (\<lambda>s. se_id (dr_session s i)))) (\<lambda>sid.
       a_bind (a_io (io_gets (\<lambda>s. jmap_get (dr_sessions s) sid))) (\<lambda>known.
       case known of
         None \<Rightarrow> a_bind (a_io (io_update (\<lambda>s. s\<lparr>dr_sessions := jmap_set sid i (dr_sessions s)\<rparr>))) (\<lambda>_. a_return i)
       | Some _ \<Rightarrow> a_throw (throw_message SESSION_ID_EXISTS [sid])))))" for i
    by (rule il.safe_bind [OF safe_post [OF il.calm_await [OF opens kept_il(2,2)]] register])
      (auto simp: il_at_def split: sum.splits)
  have new: "safe il_guar (case_sum (\<lambda>_. il_invar) il_at) il_invar (a_io (session_new name typ o') :: ('w, nat) drv_act)" for o'
    by (rule il.safe_io) (auto simp: session_new_def Let_def il_defs less_Suc_eq)
  show ?thesis
    unfolding a_driver_session_def by (intro safe_intros il.safe_bind [OF new rest])
qed

lemma calm_driver_close: "calm il_invar a_driver_close"
proof -
  have view: "keeps lc_view (server_driver_close d)" "keeps lc_view (io_update (\<lambda>s. s\<lparr>dr_isOpen := b\<rparr>))" for d :: server_driver and b
    by (simp_all add: server_driver_close_def stub_close_def keeps_def lc_view_def io_simps)
  have "calm il_invar (a_close_server_drivers ds)" for ds
    by (induction ds) (unfold a_close_server_drivers.simps, (intro safe_intros calm_lawful lawful_keeps view kept_il; assumption?)+)
  then show ?thesis unfolding a_driver_close_def by (intro safe_intros calm_lawful lawful_keeps view)
qed

lemma lawful_callback: "lawful (onClose i cb)" "lawful (onReopen i cb)" "lawful (stream_failed t e)"
  unfolding onClose_def onReopen_def stream_failed_def
  by (rule lawful_session lawful_transaction, auto simp: session_wf_def)+

text \<open>The calls on one session rely on it to exist; the others rely on the invariant only.\<close>

lemma calm_session_calls:
  "calm (il_at i) (a_run we (CloseSession i))" "calm (il_at i) (a_run we (PulseFires i h))"
  "calm (il_at i) (a_run we (OpenTransaction i ty opts))"
  by (unfold a_run.simps) (intro safe_intros calm_session_close calm_pulse_fires calm_session_transaction)+

lemma calm_calls:
  "calm il_invar (a_run we (OpenSession name ty opts))" "calm il_invar (a_run we (OnClose i cb))"
  "calm il_invar (a_run we (OnReopen i cb))" "calm il_invar (a_run we (Execute t req b))"
  "calm il_invar (a_run we (ExecuteStream t req))" "calm il_invar (a_run we (Commit t))"
  "calm il_invar (a_run we (Rollback t))" "calm il_invar (a_run we (CloseTransaction t))"
  "calm il_invar (a_run we (StreamFailed t e))" "calm il_invar (a_run we (GetDatabase name))"
  "calm il_invar (a_run we CurrentUser)" "calm il_invar (a_run we CloseDriver)"
  by (unfold a_run.simps)
    (intro safe_intros calm_driver_session calm_commit calm_transaction_close calm_driver_close
      calm_lawful lawful_callback lawful_intros keeps_view_user kept_il)+

lemma run_safe:
  assumes "il_invar s" and "lc_enabled s c"
  shows "\<exists>P. P s \<and> safe il_guar (\<lambda>_ _. True) P (a_run we c)"
proof -
  have calm: "P s \<Longrightarrow> calm P a \<Longrightarrow> \<exists>P. P s \<and> safe il_guar (\<lambda>_ _. True) P a" for P and a :: "('a, unit) drv_act"
    by (rule exI [of _ P], rule conjI, assumption, erule safe_post) simp
  have at: "il_at i s" if "i < dr_session_count s" for i using assms(1) that by (simp add: il_at_def)
  have "(\<exists>i. il_at i s \<and> calm (il_at i) (a_run we c)) \<or> calm il_invar (a_run we c)"
    using assms(2) by (cases c) (simp_all only: lc_enabled.simps, (blast intro: at calm_session_calls calm_calls)+)
  then show ?thesis using calm assms(1) by blast
qed

interpretation il_pool: guaranteed_pool il_guar "lc_init we" il_invar "il_calls we" for we :: "'w world_env"
proof unfold_locales
  fix s :: "'w driver"
  assume "lc_init we s"
  then show "il_invar s" using lc_init_invar by (force simp: lc_invar_def lc_base_def registry_wf_def il_invar_def)
next
  show "kept il_guar il_invar" by (rule kept_il)
next
  fix s :: "'w driver" and a
  assume "il_invar s" "il_calls we s a"
  then show "\<exists>P. P s \<and> safe il_guar (\<lambda>_ _. True) P a" using run_safe by (auto simp: il_calls_def)
qed

lemma il_reachable:
  assumes "lc_init we s0" and "(pool_step (il_calls we))\<^sup>*\<^sup>* (s0, []) (s, fs)"
  shows "il_invar s"
  using il_pool.pool.reachable_invar [OF _ assms(2)] assms(1) by simp

lemma alone_runs: "alone a m \<Longrightarrow> runs a s r s' \<longleftrightarrow> m s = (r, s')"
  by (metis alone_def runs_deterministic prod.collapse fst_conv snd_conv)

lemma lc_step_pool: "lc_step we s t \<Longrightarrow> (pool_step (il_calls we))\<^sup>*\<^sup>* (s, fs) (t, fs)"
proof (erule lc_stepE)
  fix c r
  assume "lc_enabled s c" "lc_run we c s = (r, t)"
  then have "runs (a_run we c) s r t" "il_calls we s (a_run we c)"
    by (auto simp: alone_runs [OF alone_run] il_calls_def)
  then show ?thesis by (rule runs_pool)
qed

section \<open>Runs for the examples\<close>

text \<open>A schedule: a program starts a call, or the suspended method at a position goes on.\<close>

datatype il_move = Start lc_call | Continue nat

fun il_moves ::
  "'w world_env \<Rightarrow> il_move list \<Rightarrow> 'w driver \<times> ('w, unit) drv_act list \<Rightarrow> ('w driver \<times> ('w, unit) drv_act list) option" where
  "il_moves we [] c = Some c"
| "il_moves we (Start call # ms) c =
     (if lc_enabled (fst c) call then il_moves we ms (pool_move (Call (a_run we call)) c) else None)"
| "il_moves we (Continue n # ms) c = il_moves we ms (pool_move (Resume n) c)"

lemma il_moves_steps: "il_moves we ms c = Some c' \<Longrightarrow> (pool_step (il_calls we))\<^sup>*\<^sup>* c c'"
proof (induction we ms c rule: il_moves.induct)
  case (2 we call ms c)
  then have "il_calls we (fst c) (a_run we call)" by (auto simp: il_calls_def split: if_splits)
  from pool_move_call [of "il_calls we", OF this] 2 show ?case
    by (auto split: if_splits intro: converse_rtranclp_into_rtranclp)
next
  case (3 we n ms c)
  with pool_move_resume [of "il_calls we" c n] show ?case by simp
qed simp

text \<open>A server that gives out a new session id each time; of the requests and streams it gets, it refuses the streams among the first \<open>n\<close>.\<close>

definition race_env :: "nat \<Rightarrow> nat world_env" where
  "race_env n = demo_world_env
     \<lparr>we_env := demo_env\<lparr>env_rpc := (\<lambda>a m md req w.
        (Inr (PMsg m [(''servers'', PList [PMsg ''Server'' [(''address'', PString ''h:1'')]]),
           (''contains'', PBool True), (''session_id'', PBytes [of_nat w]), (''alive'', PBool True),
           (''database'', PMsg ''DatabaseReplicas'' [(''replicas'', PList [PMsg ''Replica'' [(''address'', PString ''h:1'')]])])]),
         w + 1))\<rparr>,
      we_openStream := (\<lambda>a w. (if w < n then Some (throw_template UNABLE_TO_CONNECT) else None, w + 1))\<rparr>"

definition race_start :: "nat driver" where
  "race_start =
     (case driver_new 0 (OneAddress ''h:1'') None of
        Inr d \<Rightarrow> snd (driver_open (we_env (race_env 0)) d)
      | Inl _ \<Rightarrow> demo_driver)"

lemma race_init: "lc_init (race_env n) race_start"
proof -
  obtain d where d: "driver_new (0 :: nat) (OneAddress ''h:1'') None = Inr d"
    by (simp add: driver_new_def)
  have "we_env (race_env n) = we_env (race_env 0)" by (simp add: race_env_def)
  with d have "driver_open (we_env (race_env n)) d = (fst (driver_open (we_env (race_env 0)) d), race_start)"
    by (simp add: race_start_def)
  with d show ?thesis unfolding lc_init_def by blast
qed

text \<open>A program opens a session and registers a close callback; then its calls are interleaved as the moves say.\<close>

definition race_moves :: "il_move list \<Rightarrow> il_move list" where
  "race_moves ms = Start (OpenSession ''db'' DATA None) # replicate 12 (Continue 0) @ Start (OnClose 0 7) # ms"

lemmas race_defs =
  race_env_def race_start_def race_moves_def demo_world_env_def demo_env_def driver_new_def driver_open_def openCore_def
  add_server_driver_def set_open_def session_new_def databases_def dbm_get_def dbm_contains_def
  dbm_runFailsafe_def databasesContains_def databasesGet_def cache_lookup_def object_prototype_members_def
  database_get_def fetchReplicas_def read_replicas_def replicas_of_def replica_of_def database_new_def
  sessionOpen_def with_stub_def set_pulse_def stub_call_defs transaction_new_def open_stream_def Transaction_openReq_def
  rpcExecute_def set_add_def onClose_def session_io Let_def closeSession_def clear_pulse_def session_closed_def Session_closeReq_def sessionClose_def

lemmas race_procs =
  a_driver_session_def a_session_open_def a_session_transaction_def a_new_open_transaction_def a_transaction_open_def a_session_close_def
  a_closeResources_def a_runFailsafe_def a_runOnAnyReplica_def a_reopenAt_def a_openAt_def a_transaction_close_def
  close_round_def callback_round_def a_bind_def a_catch_def a_await_def a_then_code a_for_code act_defs numeral_eq_Suc

text \<open>
  Two calls of \<open>transaction\<close> on one session, both refused by the server. The first closes the session and waits for the close
  callback; meanwhile the second finds the session closed and reopens it; then the first goes on.
\<close>

definition recovery_moves :: "il_move list" where
  "recovery_moves = race_moves
     ([Start (OpenTransaction 0 READ None), Start (OpenTransaction 0 READ None)] @
      replicate 3 (Continue 0) @ replicate 30 (Continue 1) @ replicate 30 (Continue 0))"

lemma recovery_run:
  "\<exists>s. il_moves (race_env 7) recovery_moves (race_start, []) = Some (s, []) \<and> se_isOpen (dr_session s 0) \<and>
     jmap_get (dr_sessions s) (bytesToHexString [4]) = Some 0 \<and> se_id (dr_session s 0) = bytesToHexString [11]"
proof -
  have "bytesToHexString [4] \<noteq> bytesToHexString [7]" using bytesToHexString_inj [of "[4]" "[7]"] by auto
  then show ?thesis by (simp add: recovery_moves_def race_defs race_procs)
qed

text \<open>A call of \<open>transaction\<close> waits for the answer to its opening request while another call closes the session.\<close>

definition closing_moves :: "il_move list" where
  "closing_moves = race_moves
     ([Start (OpenTransaction 0 READ None), Continue 0, Continue 0, Start (CloseSession 0)] @
      replicate 9 (Continue 1) @ replicate 9 (Continue 0))"

lemma closing_run:
  "\<exists>s. il_moves (race_env 0) closing_moves (race_start, []) = Some (s, []) \<and> \<not> se_isOpen (dr_session s 0) \<and>
     se_transactions (dr_session s 0) = [0] \<and> tx_isOpen (dr_transaction s 0) \<and> dr_sessions s = []"
  by (simp add: closing_moves_def race_defs race_procs)

section \<open>Properties\<close>

text \<open>
  Each call of a program, run with its suspensions from any state of the driver and with nothing interleaved, ends,
  and it ends with the result and the state of the sequential model: the session, transaction, driver and retry methods
  of the two models agree on every path, whatever fails. So every life of a driver in which calls follow one another is one of the interleaved lives,
  whatever methods are suspended meanwhile.
\<close>

lemma suspended_call_is_sequential:
  "(runs (a_run we c) s r s' \<longleftrightarrow> lc_run we c s = (r, s')) \<and>
   ((lc_step we)\<^sup>*\<^sup>* s t \<longrightarrow> (pool_step (il_calls we))\<^sup>*\<^sup>* (s, fs) (t, fs))"
proof (intro conjI impI)
  show "runs (a_run we c) s r s' \<longleftrightarrow> lc_run we c s = (r, s')"
    by (rule alone_runs) (rule alone_run)
  show "(pool_step (il_calls we))\<^sup>*\<^sup>* (s, fs) (t, fs)" if "(lc_step we)\<^sup>*\<^sup>* s t"
    using that by (induction rule: rtranclp_induct) (blast intro: lc_step_pool rtranclp_trans)+
qed

lemma suspended_call_is_sequential_example:
  "\<exists>s. lc_demo = Some s \<and> (pool_step (il_calls lc_demo_env))\<^sup>*\<^sup>* (lc_demo_start, []) (s, [])"
proof (rule lc_demo_reached)
  fix s assume s: "(lc_step lc_demo_env)\<^sup>*\<^sup>* lc_demo_start s" "lc_demo = Some s"
  with suspended_call_is_sequential [of lc_demo_env _ lc_demo_start _ _ s "[]"] show ?thesis by blast
qed

text \<open>
  C6. However the calls of a program are interleaved at their awaits, and whatever the servers answer: a session holds each of its transactions
  once and no transaction of another session; its pending timers are distinct; the id of an open session is the hexadecimal form of some bytes, as the ids
  that servers give out are, so that its pulse request can be built; and the driver lists only sessions that exist, each id once.
\<close>

theorem interleaved_calls_invariant:
  assumes "lc_init we s0" and "(pool_step (il_calls we))\<^sup>*\<^sup>* (s0, []) (s, fs)"
  shows "own_transactions i s \<and> distinct (se_transactions (dr_session s i)) \<and> distinct (se_timers (dr_session s i)) \<and>
    (se_isOpen (dr_session s i) \<longrightarrow> (\<exists>bs. se_id (dr_session s i) = bytesToHexString bs \<and>
      (\<exists>req. Session_pulseReq (se_id (dr_session s i)) = Inr req))) \<and>
    jmap_wf (dr_sessions s) \<and> (jmap_get (dr_sessions s) sid = Some j \<longrightarrow> j < dr_session_count s)"
proof -
  have inv: "il_invar s" by (rule il_reachable [OF assms])
  then have wf: "session_wf i (dr_transaction s) (dr_transaction_count s) (dr_session s i)" by (simp add: il_invar_def)
  have "own_transactions i s" using wf by (simp add: session_wf_def own_transactions_def)
  moreover have "j < dr_session_count s" if "jmap_get (dr_sessions s) sid = Some j"
    using inv map_of_SomeD [OF that] by (force simp: il_invar_def)
  moreover have "\<exists>bs. se_id (dr_session s i) = bytesToHexString bs \<and> (\<exists>req. Session_pulseReq (se_id (dr_session s i)) = Inr req)"
    if "se_isOpen (dr_session s i)"
    using wf that by (auto simp: session_wf_def Session_pulseReq_def)
  ultimately show ?thesis using wf inv by (simp add: session_wf_def il_invar_def)
qed

theorem interleaved_calls_invariant_witness:
  "\<exists>s. il_moves (race_env 7) recovery_moves (race_start, []) = Some (s, []) \<and> own_transactions 0 s \<and> 0 < dr_session_count s"
proof -
  obtain s where s: "il_moves (race_env 7) recovery_moves (race_start, []) = Some (s, [])"
    "jmap_get (dr_sessions s) (bytesToHexString [4]) = Some 0"
    using recovery_run by blast
  from interleaved_calls_invariant [OF race_init il_moves_steps [OF s(1)], of 0 "bytesToHexString [4]" 0] s show ?thesis by blast
qed



end
