(* ===== verification/Spec2Isabelle.thy ===== *)
theory Spec2Isabelle
  imports Request_Decoding Query_Logic Stream_Consumers Session_Procs
begin

text \<open>
  \<^bold>\<open>A verification library for the Node.js driver of TypeDB\<close>

  The repository's driver for Node.js, under \<open>src/nodejs\<close>, connects a program to TypeDB servers over gRPC: it opens sessions
  and transactions, sends queries and operations on concepts through one bidirectional stream per transaction, and turns the
  answers into objects. This library models the code of the driver as functions and step relations of HOL and proves
  what makes its parts correct, and where the code does not do what it means to, proves that it does not.

  \<^bold>\<open>How the code is modelled.\<close>
  A class is a record, a tagged union a datatype, an error a value of the datatype \<open>thrown\<close>. Synchronous code that may throw is a function into
  \<open>thrown + 'a\<close>. An asynchronous method is a function of type \<open>('s, thrown, 'a) io\<close> that passes the state of all objects it can reach, objects being
  named by numbers in stores. A JavaScript map or object is an association list in insertion order (\<open>jmap\<close>), a number is \<open>js_number\<close> with the special values of
  JavaScript, and a protocol message is its class with the object literal it is made from (\<open>proto\<close>). The generated protocol code, the
  gRPC library, files, clocks and the server are parameters: the fields of the records \<open>env\<close> and \<open>world_env\<close>, which are arguments of every operation that
  uses them.

  \<^bold>\<open>The theories\<close>, in the order of the layers of the driver:
  \<^item> \<open>TDB_Prelude\<close>: JavaScript numbers, strings and maps, state-and-error computations and their lemmas.
  \<^item> \<open>Error_Messages\<close> (\<open>common/errors\<close>): the templates of error messages with the registry of their codes, and \<open>TypeDBDriverError\<close>. The codes of
    all templates are distinct.
  \<^item> \<open>Labels_Bytes\<close> (\<open>common/Label.ts\<close>, \<open>common/util/Bytes.ts\<close>): scoped labels and the hexadecimal coding of identifiers, which is a round trip.
  \<^item> \<open>Blocking_Queue\<close>, \<open>Response_Collector\<close>, \<open>Batch_Dispatcher\<close>, \<open>Part_Iterator\<close>, \<open>Bidi_Stream\<close> (\<open>common/util/BlockingQueue.ts\<close> and
    \<open>stream/\<close>): the machinery of a transaction stream, as steps of the event loop. A queue of promises refines a first-in first-out queue; the
    dispatcher keeps every request, once and in order, and is never stuck; a single response, and the parts of a streamed
    response, reach the request they belong to whatever the interleaving; closing fails everything that is outstanding.
  \<^item> \<open>Transition_Systems\<close>, \<open>Transaction_System\<close>, \<open>Stream_Consumers\<close>: the stream of a transaction composed with its callers, the consumers of its streamed
    answers, the two directions of the network and a server, as a step relation in which each part makes its steps in any order. Concurrent calls are answered as
    if they were made one after the other; the network comes to rest and then every call is answered; a consumer gets exactly the answers of the
    server, and asks for more exactly as often as the server pauses; closing settles every request; and the listener for data never throws.
  \<^item> \<open>Async_Stream\<close> (\<open>common/util/Stream.ts\<close>): lazy streams, which can end, throw or stop delivering, with their transformations and consumers.
  \<^item> \<open>Protocol\<close>, \<open>Request_Builder\<close>, \<open>Request_Decoding\<close> (\<open>common/rpc/RequestBuilder.ts\<close>): every builder of a request, and a decoder of requests that
    shows that no builder loses or confuses anything.
  \<^item> \<open>Stub_Model\<close> (\<open>common/rpc/TypeDBStub.ts\<close>, \<open>connection/TypeDBStubImpl.ts\<close>): the unary calls with the renewal of tokens.
  \<^item> \<open>Replica_Failover\<close> (\<open>connection/TypeDBDatabaseImpl.ts\<close>, \<open>TypeDBDatabaseManagerImpl.ts\<close>): which replica serves an operation. The loop over primary
    replicas makes at most ten attempts, follows a change of the primary replica, and reports the servers when all fail.
  \<^item> \<open>Options_Model\<close> (\<open>api/connection/TypeDBOptions.ts\<close>): options, their checks and their message.
  \<^item> \<open>Session_Model\<close>, \<open>Driver_Model\<close> (\<open>connection/TypeDBSessionImpl.ts\<close>, \<open>TypeDBTransactionImpl.ts\<close>, \<open>TypeDBDriverImpl.ts\<close>, \<open>TypeDB.ts\<close>, \<open>user/\<close>): the
    life of sessions, transactions and drivers: what closing releases, what a closed object refuses, and what is left behind after a failure.
  \<^item> \<open>Driver_Lifecycle\<close>: the operations of the last two theories, timers and failures of streams as the steps of a driver's life, one after the other. In every state
    that is reached between them, sessions hold their own transactions, the driver lists sessions under their ids, an open session has its pulse pending, and closing
    a session releases all it holds and nothing else.
  \<^item> \<open>Async_Procs\<close>, \<open>Session_Procs\<close>: the methods of sessions, transactions and drivers and the loops of the failover with a suspension at each
    \<open>await\<close>, so that calls interleave there. Alone, each call does what its function in the sequential model does. Interleaved in any way, calls
    keep what the invariant says of transactions, timers and identifiers; two runs show what they do not keep: a session may end up listed under a past id,
    and a transaction may outlive its session.
  \<^item> \<open>Concept_Model\<close> (\<open>concept/ConceptImpl.ts\<close>, \<open>concept/value\<close>, \<open>common/rpc/ResponseReader.ts\<close>, the readers of \<open>concept/type\<close> and \<open>concept/thing\<close>, the functions of
    \<open>api/concept\<close>): concepts, casts, comparison and the readers, which invert the encoding of the protocol and only make well-formed concepts.
  \<^item> \<open>Concept_Manager\<close>, \<open>Type_Operations\<close>, \<open>Thing_Operations\<close> (\<open>concept/ConceptManagerImpl.ts\<close>, \<open>concept/type\<close>, \<open>concept/thing\<close>): the operations of
    concepts on a transaction; overloads, streams of elements, and the grouping of role players.
  \<^item> \<open>Answer_Model\<close> (\<open>concept/answer\<close>): concept maps, groups, explainables, and trees with their rendering as JSON, in the order in which JavaScript objects
    enumerate their keys.
  \<^item> \<open>Query_Logic\<close> (\<open>query/\<close>, \<open>logic/\<close>): queries, rules and explanations. Every answer the server streams arrives once and in order.
  \<^item> This theory: properties that span the layers. An operation reaches the server as its command, and the exchange of a request and its response, which the
    layers above the stream take as one step, is what the stream, the network and the server bring about in many.

  \<^bold>\<open>Interfaces.\<close> The locales state what one part promises to another and are interpreted on the definitions of the model: \<open>fifo_queue\<close> and \<open>mailbox\<close>
  for the queues below a stream, \<open>stable\<close> for the predicates a connection-layer operation cannot change, with its instance \<open>frame\<close> for the parts of the
  state such an operation leaves alone, \<open>message_reader\<close> for the readers of messages, from which the delivery of streamed elements follows once for all of
  them, \<open>transition_system\<close> with \<open>terminating_system\<close> for the step relations, which are the life of a driver, the pool of its suspended calls and the transaction stream
  with its server, and \<open>guarantee\<close> with \<open>guaranteed_pool\<close> for what each piece of code between two awaits promises to the methods that are suspended meanwhile.

  \<^bold>\<open>Bounds and termination.\<close> The loops of the failover have the bounds of the code (ten attempts, one renewal of a token) and are recursive functions over
  them, with the number of attempts proved. The steps of the network between two steps of a program decrease a well-founded order. Reading a tree of a fetch query recurses over messages of decreasing size. There is no fuel anywhere:
  every function is total, a method with its suspensions is a codatatype, since a loop over a set that grows meanwhile may go on for ever, and a promise that is never settled is a value of its own (\<open>None\<close>, \<open>SPending\<close>).

  \<^bold>\<open>Not modelled.\<close> The re-exports of \<open>index.ts\<close> and \<open>dependencies_internal.ts\<close> and the documentation tool have no behaviour; the files of \<open>api/\<close> outside the functions
  named above are interfaces. Inside the operations of sessions and above, the
  exchange of a request and its response is one step of the parameter \<open>we_exchange\<close>, and a streamed response is the stream \<open>we_stream\<close> gives. That the
  transaction stream brings the former about under interleaving is proved below; for the latter, \<open>Stream_Consumers\<close> proves what a consumer is given. In \<open>Driver_Lifecycle\<close> a
  method of a session or a driver runs to its end before the next starts; in \<open>Session_Procs\<close> the methods interleave at their awaits, where a request and
  its answer, an operation of the database or the user manager and the fetching of replicas are single steps. Callbacks that a program registers for the closing
  and reopening of sessions are taken to return, and the close callbacks of transactions are left out of the sessions' view of them. The stubs of a cluster open one after the other and not
  concurrently. Messages to the console are left out. The streams of the
  root type, whose callbacks send requests while they are consumed, are modelled together with the consumer \<open>collect\<close>.
\<close>

section \<open>Operations reach the server as their commands\<close>

text \<open>
  A server that acts on the command a request decodes to sees, for an operation of a concept, a query or a rule, exactly
  the command of that operation.
\<close>

lemma command_delivered:
  fixes s :: "'w driver"
  assumes "tx_isOpen (dr_transaction s t)"
    and "\<And>b req w. decode_request req = Some c \<Longrightarrow>
      we_exchange we (tx_address (dr_transaction s t)) b req w = serve c w"
    and "command_request c = Inr req"
  shows "rpcExecute we t req b s = (fst (serve c (net_world s)), s\<lparr>net_world := snd (serve c (net_world s))\<rparr>)"
proof -
  have "decode_request req = Some c" using command_request_decode [of c] assms(3) by auto
  with assms(1,2) show ?thesis by (simp add: rpcExecute_def split: prod.split)
qed

lemma answer_world:
  "snd (answer f m s) = snd (m s)" "snd (io_ignore m s) = snd (m s)" "snd (map_io g m' s) = snd (m' s)"
  by (auto simp: answer_def io_ignore_def map_io_def io_simps split: prod.split sum.split)

lemma io_lift_bind: "io_bind (io_lift (Inr x)) f s = f x s"
  by (simp add: io_simps)

text \<open>The reference to a thing in a request: its class and the bytes of its identifier.\<close>

lemma thing_reference:
  assumes "concept_wf c" and "isThing c"
  shows "\<exists>cls bs. Thing_proto c = Inr (PMsg ''Thing'' [(if isEntity c then ''entity'' else if isRelation c then ''relation'' else ''attribute'',
      PMsg cls [(''iid'', PBytes bs)])]) \<and> map_sum id th_iid (asThing c) = Inr (bytesToHexString bs)"
  using assms
  by (cases c) (auto simp: Thing_proto_def Thing_protoThingEntity_def Thing_Entity_protoEntity_def Thing_protoThingRelation_def
      Thing_Relation_protoRelation_def Thing_protoThingAttribute_def Thing_Attribute_protoAttribute_def iid_wf_def
      thing_impl.defs split: sum.splits)

text \<open>
  C12. Operations reach the server as their commands: on an open transaction, against a server that acts on the command a request decodes to,
  putting an attribute, adding a role player, a define query and renaming a rule each have exactly the effect of their own command, carried
  out once. The command has what the caller gave: a message that is read back as the value; a reference with the class and the identifier of the player; options
  that are read back as those of the caller, or the defaults when there are none. The rule object takes its new label exactly when the
  server accepts it.
\<close>

theorem operations_reach_server:
  fixes s :: "'w driver"
  assumes "tx_isOpen (dr_transaction s t)"
    and "\<forall>c b req w. decode_request req = Some c \<longrightarrow>
      we_exchange we (tx_address (dr_transaction s t)) b req w = serve c w"
    and "value_wf v" and "concept_wf player" and "isThing player"
  shows "\<exists>p cls iid op. ofValueProto show_msg p = Inr (Some v) \<and>
    map_sum id th_iid (asThing player) = Inr (bytesToHexString iid) \<and>
    options_read op = (case opts of None \<Rightarrow> options_default | Some x \<Rightarrow> x) \<and>
    (let after = (\<lambda>c. s\<lparr>net_world := snd (serve c (net_world s))\<rparr>);
         q = PMsg ''Thing'' [(if isEntity player then ''entity'' else if isRelation player then ''relation'' else ''attribute'',
           PMsg cls [(''iid'', PBytes iid)])];
         rename = Logic (C_Rule_setLabel (ru_label rule) new_label) in
     snd (AttributeType_put we t ty v s) =
       after (AttributeTypeCmd (C_Type_AttributeType_put (label_name (ty_label ty)) p)) \<and>
     snd (Relation_addRolePlayer we t \<lparr>th_iid = bytesToHexString bs, th_inferred = i\<rparr> role player s) =
       after (ThingCmd (C_Thing_Relation_addRolePlayer bs (RoleType_proto role) q)) \<and>
     snd (QueryManager_define we t query opts s) = after (Query (C_QueryManager_define query op)) \<and>
     Rule_setLabel we t rule new_label s =
       (map_sum id (\<lambda>_. rule\<lparr>ru_label := new_label\<rparr>) (fst (serve rename (net_world s))), after rename))"
proof -
  obtain cls iid where q: "Thing_proto player = Inr (PMsg ''Thing'' [(if isEntity player then ''entity''
      else if isRelation player then ''relation'' else ''attribute'', PMsg cls [(''iid'', PBytes iid)])])" (is "_ = Inr ?q")
    and id: "map_sum id th_iid (asThing player) = Inr (bytesToHexString iid)"
    using thing_reference [OF assms(4,5)] by blast
  let ?p = "value_encoding v" and ?op = "options_proto (case opts of None \<Rightarrow> options_default | Some x \<Rightarrow> x)"
  have exec: "rpcExecute we t req b s = (fst (serve c (net_world s)), s\<lparr>net_world := snd (serve c (net_world s))\<rparr>)"
    if "command_request c = Inr req" for c req b
    using command_delivered [OF assms(1) _ that] assms(2) by blast
  have "rpcExecute we t (Type_AttributeType_putReq (ty_label ty) ?p) b s =
      (fst (serve (AttributeTypeCmd (C_Type_AttributeType_put (label_name (ty_label ty)) ?p)) (net_world s)),
       s\<lparr>net_world := snd (serve (AttributeTypeCmd (C_Type_AttributeType_put (label_name (ty_label ty)) ?p)) (net_world s))\<rparr>)" for b
    by (rule exec) (simp add: Type_AttributeType_putReq_def label_of_def)
  then have put: "snd (AttributeType_put we t ty v s) =
      s\<lparr>net_world := snd (serve (AttributeTypeCmd (C_Type_AttributeType_put (label_name (ty_label ty)) ?p)) (net_world s))\<rparr>"
    using value_proto_encoding [OF assms(3)] by (simp add: AttributeType_put_def ThingType_execute_def io_lift_bind answer_world)
  obtain r where r: "Thing_Relation_addRolePlayerReq (bytesToHexString bs) (RoleType_proto role) ?q = Inr r"
    by (simp add: Thing_Relation_addRolePlayerReq_def)
  with q have add: "snd (Relation_addRolePlayer we t \<lparr>th_iid = bytesToHexString bs, th_inferred = i\<rparr> role player s) =
      s\<lparr>net_world := snd (serve (ThingCmd (C_Thing_Relation_addRolePlayer bs (RoleType_proto role) ?q)) (net_world s))\<rparr>"
    using exec [of "ThingCmd (C_Thing_Relation_addRolePlayer bs (RoleType_proto role) ?q)" r]
    by (simp add: Relation_addRolePlayer_def Thing_execute_def io_lift_bind answer_world)
  have define_query: "snd (QueryManager_define we t query opts s) =
      s\<lparr>net_world := snd (serve (Query (C_QueryManager_define query ?op)) (net_world s))\<rparr>"
    using exec [of "Query (C_QueryManager_define query ?op)"]
    by (simp add: QueryManager_define_def QueryManager_query_def query_options_def answer_world)
  have "rpcExecute we t (Rule_setLabelReq (ru_label rule) new_label) None s =
      (fst (serve (Logic (C_Rule_setLabel (ru_label rule) new_label)) (net_world s)),
       s\<lparr>net_world := snd (serve (Logic (C_Rule_setLabel (ru_label rule) new_label)) (net_world s))\<rparr>)"
    by (rule exec) simp
  then have rename: "Rule_setLabel we t rule new_label s =
      (map_sum id (\<lambda>_. rule\<lparr>ru_label := new_label\<rparr>) (fst (serve (Logic (C_Rule_setLabel (ru_label rule) new_label)) (net_world s))),
       s\<lparr>net_world := snd (serve (Logic (C_Rule_setLabel (ru_label rule) new_label)) (net_world s))\<rparr>)"
    by (cases "fst (serve (Logic (C_Rule_setLabel (ru_label rule) new_label)) (net_world s))")
      (simp_all add: Rule_setLabel_def io_bind_def io_return_def)
  show ?thesis
    unfolding Let_def
    by (rule exI [of _ ?p], rule exI [of _ cls], rule exI [of _ iid], rule exI [of _ ?op])
      (intro conjI value_read [OF assms(3)] id options_roundtrip put add define_query rename)
qed

theorem operations_reach_server_witness:
  "\<exists>p op. ofValueProto proto_class p = Inr (Some \<lparr>val_valueType = ValueType_LONG, val_value = JNumber (Num 1)\<rparr>) \<and>
     op_infer (options_read op) = Some True \<and>
     snd (QueryManager_define (demo_world_env\<lparr>we_exchange := \<lambda>a b req w. (Inr PUndefined, Suc w)\<rparr>) 0 ''define''
       (Some (options_default\<lparr>op_infer := Some True\<rparr>)) demo_driver) = demo_driver\<lparr>net_world := Suc (net_world demo_driver)\<rparr>"
proof -
  let ?we = "demo_world_env\<lparr>we_exchange := \<lambda>a b req w. (Inr PUndefined, Suc w)\<rparr>"
  let ?v = "\<lparr>val_valueType = ValueType_LONG, val_value = JNumber (Num 1)\<rparr>"
  have is_open: "tx_isOpen (dr_transaction demo_driver 0)" by (simp add: demo_driver_def)
  have serve: "\<forall>c b req w. decode_request req = Some c \<longrightarrow>
      we_exchange ?we (tx_address (dr_transaction demo_driver 0)) b req w = (\<lambda>c w. (Inr PUndefined, Suc w)) c w"
    by simp
  have v: "value_wf ?v" by simp
  let ?opts = "options_default\<lparr>op_infer := Some True\<rparr>"
  from operations_reach_server [OF is_open serve v demo_thing_wf [of "[5]"], where show_msg = proto_class and query = "''define''"
      and opts = "Some ?opts" and rule = "\<lparr>ru_label = ''old'', ru_when = [], ru_then = []\<rparr>" and new_label = "''new''"
      and ty = "ThingTypeImpl_new ''age'' False False" and bs = "[9]" and i = False and role = "demo_role ''wife''"]
  obtain p op where "ofValueProto proto_class p = Inr (Some ?v)" "options_read op = ?opts"
    "snd (QueryManager_define ?we 0 ''define'' (Some ?opts) demo_driver) = demo_driver\<lparr>net_world := Suc (net_world demo_driver)\<rparr>"
    unfolding Let_def option.case snd_conv by - (elim exE conjE, rule that)
  then show ?thesis by (intro exI [of _ p] exI [of _ op]) simp
qed

section \<open>The transaction stream carries out exchanges\<close>

text \<open>
  The operations of sessions and above see a request and its response as one step, \<open>we_exchange\<close>. The stream, its dispatcher and the network
  take many steps for it, with other calls in between. Here the two are related, for a server whose answer to a request depends on the request
  and its own state and not on the request's id.
\<close>

fun single_calls :: "('r, 'p) stream_event list \<Rightarrow> (proto \<times> bool) list" where
  "single_calls [] = []"
| "single_calls (SingleCall k req b # evs) = (req, b) # single_calls evs"
| "single_calls (_ # evs) = single_calls evs"

text \<open>The state after a sequence of \<open>rpcExecute\<close>.\<close>

fun rpc_calls :: "'w world_env \<Rightarrow> nat \<Rightarrow> (proto \<times> bool) list \<Rightarrow> 'w driver \<Rightarrow> 'w driver" where
  "rpc_calls we x [] s = s"
| "rpc_calls we x ((req, b) # calls) s = rpc_calls we x calls (snd (rpcExecute we x req (Some b) s))"

definition exchange_serves :: "('r, 'p res_part) third_party \<Rightarrow> ('r, 'p, 'w) tx_server \<Rightarrow> ('r \<Rightarrow> proto) \<Rightarrow>
    (bool \<Rightarrow> proto \<Rightarrow> 'w \<Rightarrow> (thrown + proto) \<times> 'w) \<Rightarrow> ('r, 'p res_part) stream_event \<Rightarrow> bool" where
  "exchange_serves u serve content exchange ev \<longleftrightarrow>
     (case ev of
        SingleCall k req b \<Rightarrow>
          (\<forall>w. \<exists>r w'. serve (with_id u k req) w = ([Res (uuid_parse u k) r], w') \<and> exchange b req w = (Inr (content r), w'))
      | StreamCall _ _ \<Rightarrow> False
      | MoreCall _ \<Rightarrow> False
      | _ \<Rightarrow> True)"

lemma rpc_calls_serve:
  assumes "\<forall>ev \<in> set evs. exchange_serves u serve content (we_exchange we (tx_address (dr_transaction s x))) ev"
    and "tx_isOpen (dr_transaction s x)"
  shows "net_world (rpc_calls we x (single_calls evs) s) = snd (serve_all serve (concat (map (event_requests u) evs)) (net_world s)) \<and>
    dr_transaction (rpc_calls we x (single_calls evs) s) = dr_transaction s"
  using assms
proof (induction evs arbitrary: s)
  case (Cons ev evs)
  show ?case
  proof (cases "\<exists>k req b. ev = SingleCall k req b")
    case True
    then obtain k req b where ev: "ev = SingleCall k req b" by blast
    with Cons.prems obtain r w where
      serve: "serve (with_id u k req) (net_world s) = ([Res (uuid_parse u k) r], w)" and
      ex: "we_exchange we (tx_address (dr_transaction s x)) b req (net_world s) = (Inr (content r), w)"
      by (fastforce simp: exchange_serves_def)
    have "rpcExecute we x req (Some b) s = (Inr (content r), s\<lparr>net_world := w\<rparr>)"
      using Cons.prems(2) ex by (simp add: rpcExecute_def)
    then show ?thesis
      using Cons.IH [of "s\<lparr>net_world := w\<rparr>"] Cons.prems ev serve by (simp add: Let_def split_beta)
  next
    case False
    with Cons show ?thesis by (cases ev) (auto simp: exchange_serves_def)
  qed
qed simp

text \<open>
  C1. The stream implements the exchange: when the calls of \<open>single\<close> on a transaction's stream are made concurrently, each with its request buffered,
  batched, sent, answered and delivered in any order with the others, a promise that resolves has the result that \<open>rpcExecute\<close> returns when
  the calls are exchanges made one after the other, in the order of the calls. The run has calls of \<open>single\<close> only, and the server answers each with exactly one response, the
  one that the exchange gives.
\<close>

theorem stream_implements_exchange:
  fixes s0 :: "'w driver" and serve :: "('r, 'p, 'w) tx_server"
  assumes "(sy_step u sp serve)\<^sup>*\<^sup>* (sy_new tr (net_world s0)) s" and "sy_proper u serve s"
    and "tx_isOpen (dr_transaction s0 x)"
    and "\<forall>ev \<in> set (sy_events s). exchange_serves u serve content (we_exchange we (tx_address (dr_transaction s0 x))) ev"
    and "SingleCall k req b \<in> set (sy_events s)"
    and "rc_await k 0 (bs_responseCollector (sy_stream s)) = Some (Inr r)"
  shows "\<exists>before after. sy_events s = before @ SingleCall k req b # after \<and>
    fst (rpcExecute we x req (Some b) (rpc_calls we x (single_calls before) s0)) = Inr (content r)"
proof -
  obtain before after where split: "sy_events s = before @ SingleCall k req b # after"
    and answer: "fst (serve (with_id u k req) (snd (serve_all serve (concat (map (event_requests u) before)) (net_world s0)))) =
      [Res (uuid_parse u k) r]"
    using single_call_linearized [OF assms(1,2,5,6)] by blast
  let ?s = "rpc_calls we x (single_calls before) s0"
  have after: "net_world ?s = snd (serve_all serve (concat (map (event_requests u) before)) (net_world s0))"
    "dr_transaction ?s = dr_transaction s0"
    using rpc_calls_serve [of before u serve content we s0 x] assms(3,4) split by simp_all
  obtain r' w where "serve (with_id u k req) (net_world ?s) = ([Res (uuid_parse u k) r'], w)"
    "we_exchange we (tx_address (dr_transaction s0 x)) b req (net_world ?s) = (Inr (content r'), w)"
    using assms(4) split by (fastforce simp: exchange_serves_def)
  with answer after assms(3) have "fst (rpcExecute we x req (Some b) ?s) = Inr (content r)"
    by (simp add: rpcExecute_def)
  with split show ?thesis by blast
qed

definition demo_exchange_env :: "nat world_env" where
  "demo_exchange_env = demo_world_env\<lparr>we_exchange := \<lambda>a b req w. (Inr (PNumber (Num (of_nat w))), Suc w)\<rparr>"

theorem stream_implements_exchange_witness:
  "\<exists>before after. sy_events demo_answered = before @ SingleCall ''a'' Transaction_commitReq True # after \<and>
     fst (rpcExecute demo_exchange_env 0 Transaction_commitReq (Some True)
       (rpc_calls demo_exchange_env 0 (single_calls before) demo_driver)) = Inr (PNumber (Num (of_nat 0)))"
proof (rule stream_implements_exchange [where content = "\<lambda>n. PNumber (Num (of_nat n))"])
  have w: "net_world demo_driver = 0" by (simp add: demo_driver_def)
  show "(sy_step demo_ids (\<lambda>_. []) demo_serve)\<^sup>*\<^sup>* (sy_new rt_new (net_world demo_driver)) demo_answered"
    unfolding w by (rule demo_answered_reachable)
  show "\<forall>ev \<in> set (sy_events demo_answered). exchange_serves demo_ids demo_serve (\<lambda>n. PNumber (Num (of_nat n)))
      (we_exchange demo_exchange_env (tx_address (dr_transaction demo_driver 0))) ev"
    by (simp add: demo_answered_facts exchange_serves_def demo_exchange_env_def demo_ids_def demo_serve_def with_id_def
        Transaction_commitReq_def)
qed (simp_all add: demo_answered_facts demo_answered_proper demo_driver_def)

end
